theory Spec2Isabelle
  imports Complex_Main "HOL-Library.Word" "HOL-Library.Sublist" "HOL-Library.AList"
    "HOL-Library.Log_Nat"
begin

section \<open>Script-to-transcript aligner (aligner.js)\<close>

text \<open>
  A shallow embedding of \<^verbatim>\<open>aligner.js\<close>. JavaScript strings are sequences of UTF-16
  code units; the embedding covers the code units below 256, one \<^typ>\<open>char\<close> each.
  JavaScript numbers that hold scores and times are IEEE 754 binary64 values. A finite
  double is a real number, and the embedding keeps it as a \<^typ>\<open>real\<close>: comparisons are
  comparisons of the values, and every arithmetic operation of the aligner rounds its
  exact result to the nearest double (section Binary64 arithmetic). Array lengths and
  indices are \<^typ>\<open>nat\<close>, and the cells of the \<^verbatim>\<open>Uint16Array\<close> rows are \<^typ>\<open>16 word\<close>.
\<close>

subsection \<open>Characters\<close>

definition is_upper :: "char \<Rightarrow> bool" where
  \<comment> \<open>the code units that \<^verbatim>\<open>toLowerCase\<close> changes: A-Z and the Latin-1 capitals\<close>
  "is_upper c = (let n = (of_char c :: nat) in
     (65 \<le> n \<and> n \<le> 90) \<or> (192 \<le> n \<and> n \<le> 222 \<and> n \<noteq> 215))"

definition to_lower_char :: "char \<Rightarrow> char" where
  \<comment> \<open>the lower-case letter is 32 above the capital: bit 5 is set\<close>
  "to_lower_char c =
     (if is_upper c
      then (case c of Char b0 b1 b2 b3 b4 b5 b6 b7 \<Rightarrow> Char b0 b1 b2 b3 b4 True b6 b7)
      else c)"

definition toLowerCase :: "string \<Rightarrow> string" where
  "toLowerCase s = map to_lower_char s"

definition is_word_char :: "char \<Rightarrow> bool" where
  \<comment> \<open>the class \<^verbatim>\<open>\w\<close>: digits, letters, underscore\<close>
  "is_word_char c = (let n = (of_char c :: nat) in
     (48 \<le> n \<and> n \<le> 57) \<or> (65 \<le> n \<and> n \<le> 90) \<or> n = 95 \<or> (97 \<le> n \<and> n \<le> 122))"

definition is_space :: "char \<Rightarrow> bool" where
  \<comment> \<open>the class \<^verbatim>\<open>\s\<close>, which is also what \<^verbatim>\<open>trim\<close> strips:
      TAB, LF, VT, FF, CR, space, no-break space\<close>
  "is_space c = (let n = (of_char c :: nat) in (9 \<le> n \<and> n \<le> 13) \<or> n = 32 \<or> n = 160)"

definition keep_char :: "char \<Rightarrow> bool" where
  \<comment> \<open>the complement of the class \<^verbatim>\<open>[^\w\s']\<close>\<close>
  "keep_char c = (is_word_char c \<or> is_space c \<or> c = CHR 0x27)"

subsection \<open>String primitives\<close>

definition replace_other :: "string \<Rightarrow> string" where
  \<comment> \<open>\<^verbatim>\<open>.replace(/[^\w\s']/g, ' ')\<close>\<close>
  "replace_other s = map (\<lambda>c. if keep_char c then c else CHR '' '') s"

function collapse_ws :: "string \<Rightarrow> string" where
  \<comment> \<open>\<^verbatim>\<open>.replace(/\s+/g, ' ')\<close>: every maximal run of whitespace becomes one space\<close>
  "collapse_ws [] = []"
| "collapse_ws (c # cs) =
     (if is_space c then CHR '' '' # collapse_ws (dropWhile is_space cs)
      else c # collapse_ws cs)"
  by pat_completeness auto
termination
  by (relation "measure length") (auto simp: le_imp_less_Suc length_dropWhile_le)

definition trim :: "string \<Rightarrow> string" where
  "trim s = rev (dropWhile is_space (rev (dropWhile is_space s)))"

fun js_split :: "char \<Rightarrow> string \<Rightarrow> string list" where
  \<comment> \<open>\<^verbatim>\<open>s.split(sep)\<close> for a one-character separator: k separators give k + 1 pieces\<close>
  "js_split sep [] = [[]]"
| "js_split sep (c # cs) =
     (if c = sep then [] # js_split sep cs
      else (case js_split sep cs of [] \<Rightarrow> [[c]] | p # ps \<Rightarrow> (c # p) # ps))"

fun js_includes :: "string \<Rightarrow> string \<Rightarrow> bool" where
  \<comment> \<open>\<^verbatim>\<open>s.includes(sub)\<close>: sub occurs in s as a contiguous substring\<close>
  "js_includes [] sub = (sub = [])"
| "js_includes (c # cs) sub = (prefix sub (c # cs) \<or> js_includes cs sub)"

subsection \<open>Binary64 arithmetic\<close>

text \<open>
  The operations \<^verbatim>\<open>+\<close>, \<^verbatim>\<open>-\<close>, \<^verbatim>\<open>*\<close> and \<^verbatim>\<open>/\<close> of JavaScript return the exact result
  rounded to the nearest double, ties to the even significand. A double has a significand
  of 53 bits and an exponent of the last significand bit of at least -1074. A decimal
  literal of the source denotes the double nearest to it. Overflow to infinity is not
  modelled: an array has fewer than \<^verbatim>\<open>2^32\<close> elements, so the scores, their sums and the
  products with 1000 stay far below \<^verbatim>\<open>2^1024\<close>; no division of the aligner has a zero
  divisor.
\<close>

definition rne :: "real \<Rightarrow> int" where
  \<comment> \<open>the nearest integer, a tie going to the even one\<close>
  "rne q = (let f = \<lfloor>q\<rfloor>; d = q - of_int f in
     if d < 1 / 2 then f else if 1 / 2 < d then f + 1 else if even f then f else f + 1)"

definition ilog2 :: "real \<Rightarrow> int" where
  \<comment> \<open>for positive x, the exponent k with \<^verbatim>\<open>2^k <= x < 2^(k+1)\<close>\<close>
  "ilog2 x = (if 1 \<le> x then bitlen \<lfloor>x\<rfloor> - 1 else - bitlen (\<lceil>1 / x\<rceil> - 1))"

definition rndp :: "real \<Rightarrow> real" where
  \<comment> \<open>the double nearest to a positive real: the multiple of \<^verbatim>\<open>2^e\<close> nearest to it,
      where \<^verbatim>\<open>2^e\<close> is the weight of the last of 53 significand bits\<close>
  "rndp x = (let e = max (ilog2 x - 52) (- 1074) in of_int (rne (x / 2 powi e)) * 2 powi e)"

definition rnd :: "real \<Rightarrow> real" where
  \<comment> \<open>round to nearest double, ties to even\<close>
  "rnd x = (if x = 0 then 0 else if 0 < x then rndp x else - rndp (- x))"

definition fadd :: "real \<Rightarrow> real \<Rightarrow> real" where
  "fadd x y = rnd (x + y)"

definition fsub :: "real \<Rightarrow> real \<Rightarrow> real" where
  "fsub x y = rnd (x - y)"

definition fmul :: "real \<Rightarrow> real \<Rightarrow> real" where
  "fmul x y = rnd (x * y)"

definition fdiv :: "real \<Rightarrow> real \<Rightarrow> real" where
  "fdiv x y = rnd (x / y)"

subsection \<open>Text normalization\<close>

definition normalize_text :: "string \<Rightarrow> string" where
  \<comment> \<open>the function \<^verbatim>\<open>normalize\<close> of the source\<close>
  "normalize_text text = trim (collapse_ws (replace_other (toLowerCase text)))"

definition tokenize :: "string \<Rightarrow> string list" where
  "tokenize text = (let n = normalize_text text in if n \<noteq> [] then js_split CHR '' '' n else [])"

definition is_separator_line :: "string \<Rightarrow> bool" where
  \<comment> \<open>\<^verbatim>\<open>/^[-=*_]{3,}$/.test(trimmed)\<close>\<close>
  "is_separator_line s = (3 \<le> length s \<and> list_all (\<lambda>c. c \<in> set ''-=*_'') s)"

definition is_terminal :: "char \<Rightarrow> bool" where
  "is_terminal c = (c \<in> set ''.!?'')"

function split_sentences_from :: "bool \<Rightarrow> string \<Rightarrow> string list" where
  \<comment> \<open>\<^verbatim>\<open>.split(/(?<=[.!?])\s+/)\<close>; the flag says that the previous character is one of
      \<^verbatim>\<open>.!?\<close>. A match is a maximal whitespace run right after such a character.\<close>
  "split_sentences_from term [] = [[]]"
| "split_sentences_from term (c # cs) =
     (if term \<and> is_space c then [] # split_sentences_from False (dropWhile is_space cs)
      else (case split_sentences_from (is_terminal c) cs of
              [] \<Rightarrow> [[c]] | p # ps \<Rightarrow> (c # p) # ps))"
  by pat_completeness auto
termination
  by (relation "measure (\<lambda>(t, s). length s)") (auto simp: le_imp_less_Suc length_dropWhile_le)

definition line_pieces :: "string \<Rightarrow> string list" where
  \<comment> \<open>the body of the loop over the raw lines: what one raw line pushes\<close>
  "line_pieces raw =
     (let trimmed = trim raw in
      if trimmed = [] then []
      else if is_separator_line trimmed then []
      else if length trimmed > 200
        then filter (\<lambda>st. st \<noteq> []) (map trim (split_sentences_from False trimmed))
        else [trimmed])"

definition splitScriptIntoLines :: "string \<Rightarrow> string list" where
  "splitScriptIntoLines scriptText = concat (map line_pieces (js_split (CHR 0x0A) scriptText))"

subsection \<open>Similarity scoring\<close>

text \<open>
  Each of the four scoring functions is given twice. The first definition evaluates the
  expressions of the source on exact reals; the second, with the suffix 64, rounds every
  operation to binary64, which is what the code computes. The alignment below uses the
  second.
\<close>

definition jaccard :: "string list \<Rightarrow> string list \<Rightarrow> real" where
  \<comment> \<open>a JavaScript \<^verbatim>\<open>Set\<close> of tokens is a duplicate-free list; only its size and
      membership are used\<close>
  "jaccard a b =
     (if length a = 0 \<and> length b = 0 then 0
      else
        let setA = remdups a; setB = remdups b;
            intersection = length (filter (\<lambda>w. w \<in> set setB) setA);
            union = length setA + length setB - intersection
        in if union = 0 then 0 else real intersection / real union)"

type_synonym u16 = "16 word"

definition lcs_cell :: "'a list \<Rightarrow> 'a list \<Rightarrow> u16 list \<Rightarrow> nat \<Rightarrow> u16 list \<Rightarrow> nat \<Rightarrow> u16 list" where
  \<comment> \<open>the body of the inner loop: one store into \<^verbatim>\<open>curr[j]\<close>; the sum wraps modulo 65536
      when it is stored\<close>
  "lcs_cell a b prev i cur j =
     cur[j := (if a ! (i - 1) = b ! (j - 1) then prev ! (j - 1) + 1
               else max (prev ! j) (cur ! (j - 1)))]"

definition lcs_row :: "'a list \<Rightarrow> 'a list \<Rightarrow> u16 list \<Rightarrow> nat \<Rightarrow> u16 list" where
  \<comment> \<open>one pass of the outer loop: \<^verbatim>\<open>curr\<close> is all zeros when the pass begins, and the
      finished row is the next \<^verbatim>\<open>prev\<close>\<close>
  "lcs_row a b prev i =
     foldl (lcs_cell a b prev i) (replicate (length b + 1) 0) [1..<length b + 1]"

definition lcsLength :: "'a list \<Rightarrow> 'a list \<Rightarrow> nat" where
  "lcsLength a b =
     (let m = length a; n = length b in
      if m = 0 \<or> n = 0 then 0
      else unat (foldl (lcs_row a b) (replicate (n + 1) 0) [1..<m + 1] ! n))"

definition lcsRatio :: "string list \<Rightarrow> string list \<Rightarrow> real" where
  "lcsRatio a b =
     (let maxLen = max (length a) (length b) in
      if maxLen = 0 then 0 else real (lcsLength a b) / real maxLen)"

type_synonym posmap = "(string \<times> nat list) list"

definition pos_step :: "string list \<Rightarrow> posmap \<Rightarrow> nat \<Rightarrow> posmap" where
  \<comment> \<open>a JavaScript \<^verbatim>\<open>Map\<close> is an association list in insertion order; \<^verbatim>\<open>set\<close> on a
      new key appends, on an old key replaces in place\<close>
  "pos_step a m i =
     (let m1 = (if map_of m (a ! i) = None then AList.update (a ! i) [] m else m)
      in AList.update (a ! i) (the (map_of m1 (a ! i)) @ [i]) m1)"

definition positions :: "string list \<Rightarrow> posmap" where
  "positions a = foldl (pos_step a) [] [0..<length a]"

definition order_pairs :: "string list \<Rightarrow> string list \<Rightarrow> (real \<times> real) list" where
  "order_pairs a b =
     (let posA = positions a; posB = positions b in
      concat (map (\<lambda>(word, positionsA).
        case map_of posB word of
          None \<Rightarrow> []
        | Some positionsB \<Rightarrow>
            [(real (hd positionsA) / real_of_int (max (int (length a) - 1) 1),
              real (hd positionsB) / real_of_int (max (int (length b) - 1) 1))]) posA))"

definition wordOrderScore :: "string list \<Rightarrow> string list \<Rightarrow> real" where
  "wordOrderScore a b =
     (let pairs = order_pairs a b in
      if length pairs < 2 then (if length pairs > 0 then 0.5 else 0)
      else
        let totalDiff = foldl (\<lambda>acc (pa, pb). acc + \<bar>pa - pb\<bar>) 0 pairs;
            meanDiff = totalDiff / real (length pairs)
        in max 0 (1 - meanDiff))"

definition combinedScore :: "string list \<Rightarrow> string list \<Rightarrow> real" where
  "combinedScore scriptWords segmentWords =
     (if length scriptWords = 0 \<or> length segmentWords = 0 then 0
      else
        let j = jaccard scriptWords segmentWords;
            l = lcsRatio scriptWords segmentWords;
            ord = wordOrderScore scriptWords segmentWords
        in 0.35 * j + 0.45 * l + 0.20 * ord)"

definition jaccard64 :: "string list \<Rightarrow> string list \<Rightarrow> real" where
  "jaccard64 a b =
     (if length a = 0 \<and> length b = 0 then 0
      else
        let setA = remdups a; setB = remdups b;
            intersection = length (filter (\<lambda>w. w \<in> set setB) setA);
            union = length setA + length setB - intersection
        in if union = 0 then 0 else fdiv (real intersection) (real union))"

definition lcsRatio64 :: "string list \<Rightarrow> string list \<Rightarrow> real" where
  "lcsRatio64 a b =
     (let maxLen = max (length a) (length b) in
      if maxLen = 0 then 0 else fdiv (real (lcsLength a b)) (real maxLen))"

definition order_pairs64 :: "string list \<Rightarrow> string list \<Rightarrow> (real \<times> real) list" where
  "order_pairs64 a b =
     (let posA = positions a; posB = positions b in
      concat (map (\<lambda>(word, positionsA).
        case map_of posB word of
          None \<Rightarrow> []
        | Some positionsB \<Rightarrow>
            [(fdiv (real (hd positionsA)) (real_of_int (max (int (length a) - 1) 1)),
              fdiv (real (hd positionsB)) (real_of_int (max (int (length b) - 1) 1)))]) posA))"

definition wordOrderScore64 :: "string list \<Rightarrow> string list \<Rightarrow> real" where
  "wordOrderScore64 a b =
     (let pairs = order_pairs64 a b in
      if length pairs < 2 then (if length pairs > 0 then 0.5 else 0)
      else
        let totalDiff = foldl (\<lambda>acc (pa, pb). fadd acc \<bar>fsub pa pb\<bar>) 0 pairs;
            meanDiff = fdiv totalDiff (real (length pairs))
        in max 0 (fsub 1 meanDiff))"

definition combinedScore64 :: "string list \<Rightarrow> string list \<Rightarrow> real" where
  "combinedScore64 scriptWords segmentWords =
     (if length scriptWords = 0 \<or> length segmentWords = 0 then 0
      else
        let j = jaccard64 scriptWords segmentWords;
            l = lcsRatio64 scriptWords segmentWords;
            ord = wordOrderScore64 scriptWords segmentWords
        in fadd (fadd (fmul (rnd 0.35) j) (fmul (rnd 0.45) l)) (fmul (rnd 0.20) ord))"

subsection \<open>Transcript segments and multi-segment scores\<close>

record wordT =
  w_text :: string
  w_start :: real
  w_end :: real

record segment =
  seg_start :: real
  seg_end :: real
  seg_text :: string
  seg_words :: "wordT list option"

fun js_join :: "string \<Rightarrow> string list \<Rightarrow> string" where
  "js_join sep [] = []"
| "js_join sep [x] = x"
| "js_join sep (x # y # ys) = x @ sep @ js_join sep (y # ys)"

definition slice_list :: "nat \<Rightarrow> nat \<Rightarrow> 'a list \<Rightarrow> 'a list" where
  \<comment> \<open>\<^verbatim>\<open>xs.slice(startIdx, endIdx)\<close> for indices that are not negative\<close>
  "slice_list startIdx endIdx xs = take (endIdx - startIdx) (drop startIdx xs)"

definition scoreMultiSegment :: "string list \<Rightarrow> segment list \<Rightarrow> nat \<Rightarrow> nat \<Rightarrow> real" where
  \<comment> \<open>the cache maps the key of a window to the tokens of the window's joined text,
      which is what a miss computes: a hit returns the same tokens\<close>
  "scoreMultiSegment scriptWords segments startIdx endIdx =
     (let text = js_join '' '' (map seg_text (slice_list startIdx endIdx segments));
          words = tokenize text
      in combinedScore64 scriptWords words)"

subsection \<open>Dynamic-programming alignment\<close>

datatype error = InvalidInput | NoUsableLines | TypeError

datatype choice = Skip | Match nat nat

record assignment =
  scriptIdx :: nat
  segStart :: int
  segEnd :: int
  score :: real

definition MAX_SPAN :: nat where
  "MAX_SPAN = 3"

definition score_table :: "string list list \<Rightarrow> segment list \<Rightarrow> nat \<Rightarrow> nat \<Rightarrow> nat \<Rightarrow> real" where
  \<comment> \<open>\<^verbatim>\<open>score[s][t][span]\<close>, stored for \<^verbatim>\<open>t < T\<close>, \<^verbatim>\<open>1 <= span <= MAX_SPAN\<close>,
      \<^verbatim>\<open>t + span <= T\<close>, and read by the iterations below only there\<close>
  "score_table scriptTokens segments s t spn =
     scoreMultiSegment (scriptTokens ! s) segments t (t + spn)"

definition spans_at :: "nat \<Rightarrow> nat \<Rightarrow> nat list" where
  \<comment> \<open>the values of \<^verbatim>\<open>span\<close> that the loop
      \<^verbatim>\<open>for (span = 1; span <= MAX_SPAN && t2 + span <= T; span++)\<close> visits\<close>
  "spans_at T t2 = takeWhile (\<lambda>spn. t2 + spn \<le> T) [1..<MAX_SPAN + 1]"

definition windows :: "nat \<Rightarrow> nat \<Rightarrow> (nat \<times> nat) list" where
  \<comment> \<open>the pairs \<^verbatim>\<open>(t2, span)\<close> in the order the two nested iterations visit them\<close>
  "windows T t = concat (map (\<lambda>t2. map (\<lambda>spn. (t2, spn)) (spans_at T t2)) [t..<T])"

definition dp_try :: "(nat \<Rightarrow> nat \<Rightarrow> real) \<Rightarrow> real list \<Rightarrow> real \<times> choice \<Rightarrow> nat \<times> nat \<Rightarrow> real \<times> choice" where
  \<comment> \<open>the body of the innermost loop, on the pair \<^verbatim>\<open>(best, bestChoice)\<close>;
      \<^verbatim>\<open>next\<close> is the row \<^verbatim>\<open>dp[s + 1]\<close>\<close>
  "dp_try sc next bb w =
     (case (bb, w) of ((best, bestChoice), (t2, spn)) \<Rightarrow>
        if sc t2 spn < rnd 0.15 then (best, bestChoice)
        else
          let future = next ! (t2 + spn); total = fadd (sc t2 spn) future
          in if total > best then (total, Match t2 spn) else (best, bestChoice))"

definition dp_cell :: "(nat \<Rightarrow> nat \<Rightarrow> real) \<Rightarrow> real list \<Rightarrow> nat \<Rightarrow> nat \<Rightarrow> real \<times> choice" where
  \<comment> \<open>\<^verbatim>\<open>(dp[s][t], choice[s][t])\<close>\<close>
  "dp_cell sc next T t = foldl (dp_try sc next) (next ! t, Skip) (windows T t)"

definition dp_row :: "(nat \<Rightarrow> nat \<Rightarrow> real) \<Rightarrow> real list \<Rightarrow> nat \<Rightarrow> (real \<times> choice) list" where
  \<comment> \<open>the cells of one row read only the row below, so the order of the loop over
      \<^verbatim>\<open>t\<close> does not matter\<close>
  "dp_row sc next T = map (dp_cell sc next T) [0..<T + 1]"

fun dp_rows :: "(nat \<Rightarrow> nat \<Rightarrow> nat \<Rightarrow> real) \<Rightarrow> nat \<Rightarrow> nat \<Rightarrow> nat \<Rightarrow> (real \<times> choice) list list" where
  \<comment> \<open>\<^verbatim>\<open>dp_rows sc T s k\<close>: the rows \<^verbatim>\<open>s, ..., s + k - 1\<close> of \<^verbatim>\<open>dp\<close> and \<^verbatim>\<open>choice\<close>
      where \<^verbatim>\<open>s + k = S\<close>; the row \<^verbatim>\<open>dp[S]\<close> is all zeros. The last row is filled
      first, as in the loop from \<^verbatim>\<open>S - 1\<close> down to 0.\<close>
  "dp_rows sc T s 0 = []"
| "dp_rows sc T s (Suc k) =
     (let rest = dp_rows sc T (Suc s) k;
          next = (case rest of [] \<Rightarrow> replicate (T + 1) 0 | r # _ \<Rightarrow> map fst r)
      in dp_row (sc s) next T # rest)"

fun traceback :: "(nat \<Rightarrow> nat \<Rightarrow> nat \<Rightarrow> real) \<Rightarrow> (real \<times> choice) list list \<Rightarrow> nat \<Rightarrow> nat \<Rightarrow> error + assignment list" where
  \<comment> \<open>the \<^verbatim>\<open>while (s < S)\<close> loop over the rows \<^verbatim>\<open>s, ..., S - 1\<close>; reading
      \<^verbatim>\<open>choice[s][t]\<close> out of range gives \<^verbatim>\<open>undefined\<close>, and \<^verbatim>\<open>c.skip\<close> then throws\<close>
  "traceback sc [] s t = Inr []"
| "traceback sc (row # rows) s t =
     (if t < length row then
        (case snd (row ! t) of
           Skip \<Rightarrow>
             (case traceback sc rows (Suc s) t of
                Inl e \<Rightarrow> Inl e
              | Inr as \<Rightarrow> Inr (\<lparr>scriptIdx = s, segStart = - 1, segEnd = - 1, score = 0\<rparr> # as))
         | Match t2 spn \<Rightarrow>
             (case traceback sc rows (Suc s) (t2 + spn) of
                Inl e \<Rightarrow> Inl e
              | Inr as \<Rightarrow>
                  Inr (\<lparr>scriptIdx = s, segStart = int t2, segEnd = int (t2 + spn),
                        score = sc s t2 spn\<rparr> # as)))
      else Inl TypeError)"

definition dpAlign :: "string list list \<Rightarrow> segment list \<Rightarrow> error + assignment list" where
  "dpAlign scriptTokens segments =
     (let S = length scriptTokens; T = length segments;
          sc = score_table scriptTokens segments
      in traceback sc (dp_rows sc T 0 S) 0 0)"

subsection \<open>Word-level trimming\<close>

definition pseudo_word :: "segment \<Rightarrow> wordT" where
  "pseudo_word seg = \<lparr>w_text = normalize_text (seg_text seg), w_start = seg_start seg, w_end = seg_end seg\<rparr>"

definition norm_word :: "wordT \<Rightarrow> wordT" where
  "norm_word w = \<lparr>w_text = normalize_text (w_text w), w_start = w_start w, w_end = w_end w\<rparr>"

definition seg_allWords :: "segment \<Rightarrow> wordT list" where
  \<comment> \<open>what one segment pushes onto \<^verbatim>\<open>allWords\<close>; \<^verbatim>\<open>None\<close> is a \<^verbatim>\<open>words\<close> field that
      is not an array\<close>
  "seg_allWords seg =
     (case seg_words seg of
        None \<Rightarrow> [pseudo_word seg]
      | Some ws \<Rightarrow> if length ws > 0 then map norm_word ws else [pseudo_word seg])"

definition word_matches :: "string \<Rightarrow> wordT \<Rightarrow> bool" where
  "word_matches tok w = (js_includes (w_text w) tok \<or> js_includes tok (w_text w))"

definition range_start :: "segment list \<Rightarrow> real" where
  \<comment> \<open>\<^verbatim>\<open>segments[0]?.start ?? 0\<close>\<close>
  "range_start segments = (case segments of [] \<Rightarrow> 0 | seg # _ \<Rightarrow> seg_start seg)"

definition range_end :: "segment list \<Rightarrow> real" where
  \<comment> \<open>\<^verbatim>\<open>segments[segments.length - 1]?.end ?? 0\<close>\<close>
  "range_end segments = (if segments = [] then 0 else seg_end (last segments))"

definition trimToWords :: "string \<Rightarrow> segment list \<Rightarrow> error + real \<times> real" where
  \<comment> \<open>the result is \<^verbatim>\<open>(trimmedStart, trimmedEnd)\<close>; the safety branch reads
      \<^verbatim>\<open>segments[0].start\<close> without \<^verbatim>\<open>?.\<close>, which throws on an empty array\<close>
  "trimToWords scriptLine segments =
     (let scriptWords = tokenize scriptLine in
      if length scriptWords = 0 then Inr (range_start segments, range_end segments)
      else
        let allWords = concat (map seg_allWords segments) in
        if length allWords = 0 then Inr (range_start segments, range_end segments)
        else
          let firstScriptWord = hd scriptWords;
              trimmedStart =
                (case find (word_matches firstScriptWord) allWords of
                   None \<Rightarrow> w_start (hd allWords) | Some w \<Rightarrow> w_start w);
              lastScriptWord = last scriptWords;
              trimmedEnd =
                (case find (word_matches lastScriptWord) (rev allWords) of
                   None \<Rightarrow> w_end (last allWords) | Some w \<Rightarrow> w_end w)
          in if trimmedStart \<ge> trimmedEnd
             then (case segments of
                     [] \<Rightarrow> Inl TypeError
                   | seg # _ \<Rightarrow> Inr (seg_start seg, seg_end (last segments)))
             else Inr (trimmedStart, trimmedEnd))"

subsection \<open>The public operation\<close>

datatype status = Matched | Approximate | Unmatched

record entry =
  scriptIndex :: nat
  scriptLine :: string
  matchedSegments :: "nat list"
  matchedText :: string
  trimmedStart :: "real option"
  trimmedEnd :: "real option"
  confidence :: real
  status :: status

record stats =
  totalLines :: nat
  matched :: nat
  approximate :: nat
  unmatched :: nat
  avgConfidence :: real

record alignment_result =
  entries :: "entry list"
  unusedSegments :: "nat list"
  stats :: stats

record transcript =
  tr_segments :: "segment list option"

definition js_round :: "real \<Rightarrow> int" where
  \<comment> \<open>\<^verbatim>\<open>Math.round\<close>: the nearest integer, a half going upwards; the result is exact\<close>
  "js_round x = \<lfloor>x + 1 / 2\<rfloor>"

definition round3 :: "real \<Rightarrow> real" where
  \<comment> \<open>\<^verbatim>\<open>Math.round(x * 1000) / 1000\<close>: the product and the quotient are rounded to
      binary64\<close>
  "round3 x = fdiv (of_int (js_round (fmul x 1000))) 1000"

definition status_of :: "real \<Rightarrow> status" where
  \<comment> \<open>the thresholds are the doubles that the literals 0.7 and 0.3 denote\<close>
  "status_of sc =
     (if sc \<ge> rnd 0.7 then Matched else if sc \<ge> rnd 0.3 then Approximate else Unmatched)"

definition build_entry :: "string list \<Rightarrow> segment list \<Rightarrow> assignment \<Rightarrow> error + entry" where
  \<comment> \<open>the callback of \<^verbatim>\<open>assignments.map\<close>; an exception of \<^verbatim>\<open>trimToWords\<close> leaves it\<close>
  "build_entry scriptLines segs a =
     (let line = scriptLines ! scriptIdx a in
      if segStart a < 0 then
        Inr \<lparr>scriptIndex = scriptIdx a, scriptLine = line, matchedSegments = [],
             matchedText = [], trimmedStart = None, trimmedEnd = None,
             confidence = 0, status = Unmatched\<rparr>
      else
        let matchedSegs = slice_list (nat (segStart a)) (nat (segEnd a)) segs;
            segIndices = [nat (segStart a)..<nat (segEnd a)];
            mText = js_join '' '' (map seg_text matchedSegs)
        in (case trimToWords line matchedSegs of
              Inl e \<Rightarrow> Inl e
            | Inr (tStart, tEnd) \<Rightarrow>
                Inr \<lparr>scriptIndex = scriptIdx a, scriptLine = line, matchedSegments = segIndices,
                     matchedText = mText, trimmedStart = Some tStart, trimmedEnd = Some tEnd,
                     confidence = round3 (score a), status = status_of (score a)\<rparr>))"

fun collect :: "(error + 'a) list \<Rightarrow> error + 'a list" where
  \<comment> \<open>the first exception ends the \<^verbatim>\<open>map\<close>\<close>
  "collect [] = Inr []"
| "collect (Inl e # rs) = Inl e"
| "collect (Inr x # rs) = (case collect rs of Inl e \<Rightarrow> Inl e | Inr xs \<Rightarrow> Inr (x # xs))"

definition make_stats :: "entry list \<Rightarrow> stats" where
  "make_stats es =
     (let confidences = map confidence (filter (\<lambda>e. confidence e > 0) es) in
      \<lparr>totalLines = length es,
       matched = length (filter (\<lambda>e. status e = Matched) es),
       approximate = length (filter (\<lambda>e. status e = Approximate) es),
       unmatched = length (filter (\<lambda>e. status e = Unmatched) es),
       avgConfidence =
         (if length confidences > 0
          then round3 (fdiv (foldl fadd 0 confidences) (real (length confidences)))
          else 0)\<rparr>)"

definition unused_of :: "segment list \<Rightarrow> entry list \<Rightarrow> nat list" where
  "unused_of segs es =
     (let usedSegments = set (concat (map matchedSegments es))
      in filter (\<lambda>i. i \<notin> usedSegments) [0..<length segs])"

definition alignScriptToTranscript :: "string \<Rightarrow> transcript option \<Rightarrow> error + alignment_result" where
  "alignScriptToTranscript scriptText tr =
     (case tr of
        None \<Rightarrow> Inl InvalidInput
      | Some tr' \<Rightarrow>
         (case tr_segments tr' of
            None \<Rightarrow> Inl InvalidInput
          | Some segs \<Rightarrow>
              if scriptText = [] \<or> length segs = 0 then Inl InvalidInput
              else
                let scriptLines = splitScriptIntoLines scriptText in
                if length scriptLines = 0 then Inl NoUsableLines
                else
                  let scriptTokens = map tokenize scriptLines in
                  (case dpAlign scriptTokens segs of
                     Inl e \<Rightarrow> Inl e
                   | Inr assignments \<Rightarrow>
                       (case collect (map (build_entry scriptLines segs) assignments) of
                          Inl e \<Rightarrow> Inl e
                        | Inr es \<Rightarrow>
                            Inr \<lparr>entries = es, unusedSegments = unused_of segs es,
                                 stats = make_stats es\<rparr>))))"

section \<open>Specification-side and auxiliary definitions\<close>

text \<open>
  Definitions that follow the wording of the specification, to be compared with the
  definitions above, which follow the code, and auxiliary notions used in the proofs.
\<close>

definition normalize_spec :: "string \<Rightarrow> string" where
  \<comment> \<open>lowercase; remove all characters except word characters, whitespace and
      apostrophes; collapse runs of whitespace to one space; trim\<close>
  "normalize_spec text = trim (collapse_ws (filter keep_char (toLowerCase text)))"

definition tok_char :: "char \<Rightarrow> bool" where
  \<comment> \<open>the characters that survive normalization inside a token\<close>
  "tok_char c = (is_word_char c \<or> c = CHR 0x27)"

function runs :: "(char \<Rightarrow> bool) \<Rightarrow> string \<Rightarrow> string list" where
  \<comment> \<open>the maximal non-empty runs of characters that satisfy P, in order\<close>
  "runs P [] = []"
| "runs P (c # cs) =
     (if P c then (c # takeWhile P cs) # runs P (dropWhile P cs) else runs P cs)"
  by pat_completeness auto
termination
  by (relation "measure (\<lambda>(P, s). length s)") (auto simp: le_imp_less_Suc length_dropWhile_le)

definition rtrim :: "string \<Rightarrow> string" where
  \<comment> \<open>strip the trailing whitespace only\<close>
  "rtrim s = rev (dropWhile is_space (rev s))"

definition lcs_spec :: "'a list \<Rightarrow> 'a list \<Rightarrow> nat" where
  \<comment> \<open>the length of a longest list that is a subsequence of both\<close>
  "lcs_spec a b = Max (length ` {zs. subseq zs a \<and> subseq zs b})"

text \<open>
  The table of the textbook recurrence over the prefixes of the two sequences, on unbounded
  naturals and on 16-bit cells. Both are auxiliary: the first is proved equal to
  \<^const>\<open>lcs_spec\<close>, the second to the cells that the code computes.
\<close>

fun lcs_tab :: "'a list \<Rightarrow> 'a list \<Rightarrow> nat \<Rightarrow> nat \<Rightarrow> nat" where
  "lcs_tab a b 0 j = 0"
| "lcs_tab a b (Suc i) 0 = 0"
| "lcs_tab a b (Suc i) (Suc j) =
     (if a ! i = b ! j then lcs_tab a b i j + 1
      else max (lcs_tab a b i (Suc j)) (lcs_tab a b (Suc i) j))"

fun lcs_tab16 :: "'a list \<Rightarrow> 'a list \<Rightarrow> nat \<Rightarrow> nat \<Rightarrow> u16" where
  "lcs_tab16 a b 0 j = 0"
| "lcs_tab16 a b (Suc i) 0 = 0"
| "lcs_tab16 a b (Suc i) (Suc j) =
     (if a ! i = b ! j then lcs_tab16 a b i j + 1
      else max (lcs_tab16 a b i (Suc j)) (lcs_tab16 a b (Suc i) j))"




definition window_ok :: "(nat \<Rightarrow> nat \<Rightarrow> nat \<Rightarrow> real) \<Rightarrow> nat \<Rightarrow> nat \<Rightarrow> choice \<Rightarrow> bool" where
  \<comment> \<open>a line is skipped, or matched to a window of 1 to 3 segments inside the
      transcript whose score is at least 0.15, the double that the literal denotes\<close>
  "window_ok sc T s c =
     (case c of Skip \<Rightarrow> True
      | Match t2 spn \<Rightarrow> 1 \<le> spn \<and> spn \<le> 3 \<and> t2 + spn \<le> T \<and> sc s t2 spn \<ge> rnd 0.15)"

definition compatible :: "choice \<Rightarrow> choice \<Rightarrow> bool" where
  \<comment> \<open>an earlier and a later line: the windows share no segment and the earlier one
      does not start after the later one\<close>
  "compatible c c' =
     (case c of Skip \<Rightarrow> True
      | Match t2 spn \<Rightarrow>
          (case c' of Skip \<Rightarrow> True
           | Match t2' spn' \<Rightarrow> t2 \<le> t2' \<and> {t2..<t2 + spn} \<inter> {t2'..<t2' + spn'} = {}))"

definition feasible :: "(nat \<Rightarrow> nat \<Rightarrow> nat \<Rightarrow> real) \<Rightarrow> nat \<Rightarrow> choice list \<Rightarrow> bool" where
  \<comment> \<open>the assignments among which the aligner is to be optimal: one choice per script
      line, by position\<close>
  "feasible sc T cs =
     (list_all (\<lambda>s. window_ok sc T s (cs ! s)) [0..<length cs]
      \<and> list_all (\<lambda>j. list_all (\<lambda>i. compatible (cs ! i) (cs ! j)) [0..<j]) [0..<length cs])"

definition win_score :: "(nat \<Rightarrow> nat \<Rightarrow> nat \<Rightarrow> real) \<Rightarrow> nat \<Rightarrow> choice \<Rightarrow> real" where
  \<comment> \<open>the score a choice contributes for script line s\<close>
  "win_score sc s c = (case c of Skip \<Rightarrow> 0 | Match t2 spn \<Rightarrow> sc s t2 spn)"

definition total_score :: "(nat \<Rightarrow> nat \<Rightarrow> nat \<Rightarrow> real) \<Rightarrow> choice list \<Rightarrow> real" where
  \<comment> \<open>the total matched score of an assignment: the exact sum of the scores of its
      matched lines\<close>
  "total_score sc cs = (\<Sum>s\<leftarrow>[0..<length cs]. win_score sc s (cs ! s))"

fun total64_from :: "(nat \<Rightarrow> nat \<Rightarrow> nat \<Rightarrow> real) \<Rightarrow> nat \<Rightarrow> choice list \<Rightarrow> real" where
  \<comment> \<open>the total of the choices for the script lines s, s + 1, ... as the aligner
      accumulates it: the score of a matched line is added in binary64 to the total of
      the lines after it, and a skipped line adds nothing\<close>
  "total64_from sc s [] = 0"
| "total64_from sc s (Skip # cs) = total64_from sc (Suc s) cs"
| "total64_from sc s (Match t2 spn # cs) = fadd (sc s t2 spn) (total64_from sc (Suc s) cs)"

definition total64 :: "(nat \<Rightarrow> nat \<Rightarrow> nat \<Rightarrow> real) \<Rightarrow> choice list \<Rightarrow> real" where
  \<comment> \<open>the accumulated total of an assignment, from the last script line to the first\<close>
  "total64 sc cs = total64_from sc 0 cs"

definition choice_of :: "assignment \<Rightarrow> choice" where
  \<comment> \<open>the choice that an assignment record of the traceback stands for\<close>
  "choice_of a =
     (if segStart a < 0 then Skip
      else Match (nat (segStart a)) (nat (segEnd a - segStart a)))"

fun chain :: "(nat \<Rightarrow> nat \<Rightarrow> nat \<Rightarrow> real) \<Rightarrow> nat \<Rightarrow> nat \<Rightarrow> nat \<Rightarrow> choice list \<Rightarrow> bool" where
  \<comment> \<open>auxiliary: feasibility written as a chain, every window starting at or after the
      end t of the previous one; s is the script index of the head\<close>
  "chain sc T s t [] = True"
| "chain sc T s t (Skip # cs) = chain sc T (Suc s) t cs"
| "chain sc T s t (Match t2 spn # cs) =
     (t \<le> t2 \<and> 1 \<le> spn \<and> spn \<le> 3 \<and> t2 + spn \<le> T \<and> sc s t2 spn \<ge> rnd 0.15
      \<and> chain sc T (Suc s) (t2 + spn) cs)"

definition dp_next :: "(nat \<Rightarrow> nat \<Rightarrow> nat \<Rightarrow> real) \<Rightarrow> nat \<Rightarrow> nat \<Rightarrow> nat \<Rightarrow> real list" where
  \<comment> \<open>auxiliary: the row dp[s] as numbers, where s + k = S\<close>
  "dp_next sc T s k =
     (case dp_rows sc T s k of [] \<Rightarrow> replicate (T + 1) 0 | r # _ \<Rightarrow> map fst r)"

definition invalid_input :: "string \<Rightarrow> transcript option \<Rightarrow> bool" where
  \<comment> \<open>the script text is empty or whitespace-only, or the transcript is absent or its
      segment list is missing or empty, or line splitting yields no usable line\<close>
  "invalid_input text tr =
     (text = [] \<or> list_all is_space text
      \<or> (case tr of
            None \<Rightarrow> True
          | Some t \<Rightarrow> (case tr_segments t of None \<Rightarrow> True | Some segs \<Rightarrow> segs = []))
      \<or> splitScriptIntoLines text = [])"

definition entry_for :: "string list \<Rightarrow> segment list \<Rightarrow> (nat \<Rightarrow> nat \<Rightarrow> nat \<Rightarrow> real) \<Rightarrow> nat \<Rightarrow> choice \<Rightarrow> entry \<Rightarrow> bool" where
  \<comment> \<open>auxiliary: the entry that the result assembler builds for script line i from the
      choice of the aligner\<close>
  "entry_for lines segs sc i c e =
     (case c of
        Skip \<Rightarrow>
          e = \<lparr>scriptIndex = i, scriptLine = lines ! i, matchedSegments = [],
               matchedText = [], trimmedStart = None, trimmedEnd = None,
               confidence = 0, status = Unmatched\<rparr>
      | Match t2 spn \<Rightarrow>
          (\<exists>ts te. trimToWords (lines ! i) (slice_list t2 (t2 + spn) segs) = Inr (ts, te)
             \<and> e = \<lparr>scriptIndex = i, scriptLine = lines ! i,
                     matchedSegments = [t2..<t2 + spn],
                     matchedText = js_join '' '' (map seg_text (slice_list t2 (t2 + spn) segs)),
                     trimmedStart = Some ts, trimmedEnd = Some te,
                     confidence = round3 (sc i t2 spn), status = status_of (sc i t2 spn)\<rparr>))"

definition window_list :: "choice \<Rightarrow> nat list" where
  \<comment> \<open>auxiliary: the segment indices that a choice claims\<close>
  "window_list c = (case c of Skip \<Rightarrow> [] | Match t2 spn \<Rightarrow> [t2..<t2 + spn])"

definition lacks_words :: "segment \<Rightarrow> bool" where
  \<comment> \<open>the segment has no word-level timestamps: no word list, or an empty one\<close>
  "lacks_words seg = (case seg_words seg of None \<Rightarrow> True | Some ws \<Rightarrow> ws = [])"

definition seg_matches :: "string \<Rightarrow> segment \<Rightarrow> bool" where
  \<comment> \<open>the normalized text of the segment contains the token or is contained in it\<close>
  "seg_matches tok seg =
     (js_includes (normalize_text (seg_text seg)) tok
      \<or> js_includes tok (normalize_text (seg_text seg)))"

definition first_hit_start :: "string \<Rightarrow> segment list \<Rightarrow> real" where
  \<comment> \<open>the start of the first segment that matches the token, of the first segment when
      none matches\<close>
  "first_hit_start tok msegs =
     (case find (seg_matches tok) msegs of
        None \<Rightarrow> seg_start (hd msegs) | Some seg \<Rightarrow> seg_start seg)"

definition last_hit_end :: "string \<Rightarrow> segment list \<Rightarrow> real" where
  \<comment> \<open>the end of the last segment that matches the token, of the last segment when none
      matches\<close>
  "last_hit_end tok msegs =
     (case find (seg_matches tok) (rev msegs) of
        None \<Rightarrow> seg_end (last msegs) | Some seg \<Rightarrow> seg_end seg)"

section \<open>Properties\<close>

subsection \<open>Rounding to binary64\<close>

text \<open>
  Rounding is monotone, and a rounding is certified by the significand of its result:
  if \<^verbatim>\<open>x * 2^k\<close> lies between \<^verbatim>\<open>2^52\<close> and \<^verbatim>\<open>2^53\<close> and the integer m is nearest to it
  (in a tie, the even one), then x rounds to \<^verbatim>\<open>m / 2^k\<close>. The roundings that occur on
  the concrete inputs below are certified in this way.
\<close>

lemma rne_int: "rne (of_int n) = n"
  by (simp add: rne_def)

lemma rne_bounds: "\<lfloor>q\<rfloor> \<le> rne q \<and> rne q \<le> \<lfloor>q\<rfloor> + 1"
  by (simp add: rne_def Let_def)

lemma rne_mono: "q \<le> r \<Longrightarrow> rne q \<le> rne r"
proof -
  assume le: "q \<le> r"
  have fl: "\<lfloor>q\<rfloor> \<le> \<lfloor>r\<rfloor>" using le by (rule floor_mono)
  show ?thesis
  proof (cases "\<lfloor>q\<rfloor> = \<lfloor>r\<rfloor>")
    case True
    then have "q - of_int \<lfloor>q\<rfloor> \<le> r - of_int \<lfloor>r\<rfloor>" using le by simp
    then show ?thesis using True by (auto simp: rne_def Let_def)
  next
    case False
    then have "\<lfloor>q\<rfloor> + 1 \<le> \<lfloor>r\<rfloor>" using fl by simp
    then show ?thesis using rne_bounds [of q] rne_bounds [of r] by linarith
  qed
qed

lemma ilog2_bounds:
  assumes "0 < x"
  shows "2 powi (ilog2 x) \<le> x" and "x < 2 powi (ilog2 x + 1)"
proof -
  have "2 powi (ilog2 x) \<le> x \<and> x < 2 powi (ilog2 x + 1)"
  proof (cases "1 \<le> x")
    case True
    define n where "n = \<lfloor>x\<rfloor>"
    have n: "0 < n" using True by (simp add: n_def)
    define b where "b = bitlen n"
    have bb: "2 ^ nat (b - 1) \<le> n" "n < 2 ^ nat b"
      using bitlen_bounds [OF n] by (simp_all add: b_def)
    have b1: "1 \<le> b" using n by (simp add: b_def bitlen_alt_def)
    have il: "ilog2 x = b - 1" using True by (simp add: ilog2_def b_def n_def)
    have "2 powi (b - 1) = (2::real) ^ nat (b - 1)" using b1 by (simp add: power_int_def)
    also have "\<dots> = of_int (2 ^ nat (b - 1))" by simp
    also have "\<dots> \<le> of_int n" using bb(1) by (simp only: of_int_le_iff)
    also have "\<dots> \<le> x" by (simp add: n_def)
    finally have lo: "2 powi (b - 1) \<le> x" .
    have "n + 1 \<le> 2 ^ nat b" using bb(2) by simp
    then have "real_of_int (n + 1) \<le> of_int (2 ^ nat b)" by (simp only: of_int_le_iff)
    moreover have "x < real_of_int (n + 1)" by (simp add: n_def)
    moreover have "real_of_int (2 ^ nat b) = 2 powi b" using b1 by (simp add: power_int_def)
    ultimately have hi: "x < 2 powi b" by simp
    show ?thesis using lo hi il by simp
  next
    case False
    then have x1: "x < 1" by simp
    define y where "y = 1 / x"
    have y1: "1 < y" using assms x1 by (simp add: y_def)
    define m where "m = \<lceil>y\<rceil> - 1"
    have m: "0 < m" using y1 by (simp add: m_def less_ceiling_iff)
    define b where "b = bitlen m"
    have bb: "2 ^ nat (b - 1) \<le> m" "m < 2 ^ nat b"
      using bitlen_bounds [OF m] by (simp_all add: b_def)
    have b1: "1 \<le> b" using m by (simp add: b_def bitlen_alt_def)
    have il: "ilog2 x = - b" using False by (simp add: ilog2_def b_def m_def y_def)
    have my: "real_of_int m < y" and ym: "y \<le> real_of_int m + 1"
      unfolding m_def by linarith+
    have "m + 1 \<le> 2 ^ nat b" using bb(2) by simp
    then have "real_of_int (m + 1) \<le> of_int (2 ^ nat b)" by (simp only: of_int_le_iff)
    then have "y \<le> 2 ^ nat b" using ym by simp
    then have "1 / x \<le> 2 ^ nat b" by (simp add: y_def)
    then have "1 / 2 ^ nat b \<le> x" using assms by (simp add: field_simps)
    moreover have "2 powi (- b) = 1 / (2::real) ^ nat b"
      using b1 by (simp add: power_int_def field_simps)
    ultimately have lo: "2 powi (- b) \<le> x" by simp
    have "(2::real) ^ nat (b - 1) = real_of_int (2 ^ nat (b - 1))" by simp
    also have "\<dots> \<le> of_int m" using bb(1) by (simp only: of_int_le_iff)
    also have "\<dots> < y" by (rule my)
    finally have "2 ^ nat (b - 1) < y" .
    then have "2 ^ nat (b - 1) < 1 / x" by (simp add: y_def)
    then have "x < 1 / 2 ^ nat (b - 1)" using assms by (simp add: field_simps)
    moreover have "2 powi (- b + 1) = 1 / (2::real) ^ nat (b - 1)"
    proof (cases "b = 1")
      case True
      then show ?thesis by simp
    next
      case False
      then have "- b + 1 < 0" using b1 by simp
      moreover have "nat (- (- b + 1)) = nat (b - 1)" by simp
      ultimately show ?thesis by (simp add: power_int_def field_simps)
    qed
    ultimately have hi: "x < 2 powi (- b + 1)" by simp
    show ?thesis using lo hi il by simp
  qed
  then show "2 powi (ilog2 x) \<le> x" and "x < 2 powi (ilog2 x + 1)" by simp_all
qed

lemma ilog2_ge: "0 < x \<Longrightarrow> 2 powi k \<le> x \<Longrightarrow> k \<le> ilog2 x"
proof (rule ccontr)
  assume x: "0 < x" and k: "2 powi k \<le> x" and "\<not> k \<le> ilog2 x"
  then have "ilog2 x + 1 \<le> k" by simp
  then have "(2::real) powi (ilog2 x + 1) \<le> 2 powi k" by (rule power_int_increasing) simp
  then show False using k ilog2_bounds(2) [OF x] by simp
qed

lemma ilog2_mono: "0 < x \<Longrightarrow> x \<le> y \<Longrightarrow> ilog2 x \<le> ilog2 y"
proof -
  assume x: "0 < x" and le: "x \<le> y"
  have "2 powi (ilog2 x) \<le> y" using ilog2_bounds(1) [OF x] le by simp
  moreover have "0 < y" using x le by simp
  ultimately show ?thesis by (intro ilog2_ge)
qed

lemma rndp_mono:
  assumes x: "0 < x" and le: "x \<le> y"
  shows "rndp x \<le> rndp y"
proof -
  have y: "0 < y" using x le by simp
  define ex where "ex = max (ilog2 x - 52) (- 1074)"
  define ey where "ey = max (ilog2 y - 52) (- 1074)"
  have rx: "rndp x = of_int (rne (x / 2 powi ex)) * 2 powi ex"
    and ry: "rndp y = of_int (rne (y / 2 powi ey)) * 2 powi ey"
    by (simp_all add: rndp_def Let_def ex_def ey_def)
  have ll: "ilog2 x \<le> ilog2 y" using x le by (rule ilog2_mono)
  then have ee: "ex \<le> ey" by (simp add: ex_def ey_def)
  show ?thesis
  proof (cases "ex = ey")
    case True
    have "x / 2 powi ey \<le> y / 2 powi ey" using le by (simp add: divide_right_mono)
    then have "rne (x / 2 powi ey) \<le> rne (y / 2 powi ey)" by (rule rne_mono)
    then have "real_of_int (rne (x / 2 powi ey)) \<le> of_int (rne (y / 2 powi ey))"
      by (simp only: of_int_le_iff)
    then show ?thesis unfolding rx ry True by (simp add: mult_right_mono)
  next
    case False
    then have lt: "ex < ey" using ee by simp
    then have eyl: "ey = ilog2 y - 52" unfolding ex_def ey_def by linarith
    have lxy: "ilog2 x < ilog2 y" using lt unfolding ex_def ey_def by linarith
    \<comment> \<open>the larger number rounds to at least the power of two below it\<close>
    have "(2::real) powi 52 = 2 powi (ilog2 y) / 2 powi ey"
      unfolding eyl by (simp add: power_int_diff)
    also have "\<dots> \<le> y / 2 powi ey"
      using ilog2_bounds(1) [OF y] by (simp add: divide_right_mono)
    finally have "real_of_int (2 ^ 52) \<le> y / 2 powi ey" by simp
    then have "rne (real_of_int (2 ^ 52)) \<le> rne (y / 2 powi ey)" by (rule rne_mono)
    then have "real_of_int (2 ^ 52) \<le> of_int (rne (y / 2 powi ey))"
      by (simp only: rne_int of_int_le_iff)
    then have "real_of_int (2 ^ 52) * 2 powi ey \<le> rndp y"
      unfolding ry by (simp add: mult_right_mono)
    moreover have "real_of_int (2 ^ 52) * 2 powi ey = 2 powi (ilog2 y)"
      unfolding eyl by (simp add: power_int_diff)
    ultimately have lo: "2 powi (ilog2 y) \<le> rndp y" by simp
    \<comment> \<open>the smaller number rounds to at most that power of two\<close>
    define n where "n = nat (ilog2 y - ex)"
    have npos: "0 \<le> ilog2 y - ex" using lt eyl by simp
    have "x < 2 powi (ilog2 x + 1)" using x by (rule ilog2_bounds(2))
    also have "\<dots> \<le> 2 powi (ilog2 y)" using lxy by (intro power_int_increasing) simp_all
    finally have "x / 2 powi ex \<le> 2 powi (ilog2 y) / 2 powi ex"
      by (simp add: divide_right_mono)
    also have "\<dots> = 2 powi (ilog2 y - ex)" by (simp add: power_int_diff)
    also have "\<dots> = real_of_int (2 ^ n)" using npos by (simp add: n_def power_int_def)
    finally have "rne (x / 2 powi ex) \<le> rne (real_of_int (2 ^ n))" by (rule rne_mono)
    then have "real_of_int (rne (x / 2 powi ex)) \<le> real_of_int (2 ^ n)"
      by (simp only: rne_int of_int_le_iff)
    then have "rndp x \<le> real_of_int (2 ^ n) * 2 powi ex"
      unfolding rx by (simp add: mult_right_mono)
    moreover have "real_of_int (2 ^ n) * 2 powi ex = 2 powi (ilog2 y)"
    proof -
      have "real_of_int (2 ^ n) = 2 powi (ilog2 y - ex)"
        using npos by (simp add: n_def power_int_def)
      then show ?thesis by (simp add: power_int_diff)
    qed
    ultimately show ?thesis using lo by simp
  qed
qed

lemma rndp_nonneg: "0 < x \<Longrightarrow> 0 \<le> rndp x"
proof -
  assume "0 < x"
  then have "0 \<le> x / 2 powi (max (ilog2 x - 52) (- 1074))" by simp
  then have "rne 0 \<le> rne (x / 2 powi (max (ilog2 x - 52) (- 1074)))" by (rule rne_mono)
  then have "0 \<le> rne (x / 2 powi (max (ilog2 x - 52) (- 1074)))"
    using rne_int [of 0] by simp
  then show ?thesis by (simp add: rndp_def Let_def)
qed

lemma rnd_mono: "x \<le> y \<Longrightarrow> rnd x \<le> rnd y"
proof -
  assume le: "x \<le> y"
  consider "0 < x" | "x = 0" | "x < 0" "y < 0" | "x < 0" "0 \<le> y" by linarith
  then show ?thesis
  proof cases
    case 1
    then show ?thesis using le rndp_mono [of x y] by (simp add: rnd_def)
  next
    case 2
    then show ?thesis using le rndp_nonneg [of y] by (auto simp: rnd_def)
  next
    case 3
    then have "rndp (- y) \<le> rndp (- x)" using le by (intro rndp_mono) simp_all
    then show ?thesis using 3 by (simp add: rnd_def)
  next
    case 4
    then have "0 \<le> rndp (- x)" by (intro rndp_nonneg) simp
    moreover have "0 \<le> rnd y" using 4 rndp_nonneg [of y] by (auto simp: rnd_def)
    ultimately show ?thesis using 4 by (simp add: rnd_def)
  qed
qed

lemma rnd_0: "rnd 0 = 0"
  by (simp add: rnd_def)

lemma rnd_nonneg: "0 \<le> x \<Longrightarrow> 0 \<le> rnd x"
  using rnd_mono [of 0 x] by (simp add: rnd_0)

lemma ilog2_unique:
  assumes "0 < x" and "2 powi j \<le> x" and "x < 2 powi (j + 1)"
  shows "ilog2 x = j"
proof (rule antisym)
  show "j \<le> ilog2 x" using assms(1,2) by (rule ilog2_ge)
  show "ilog2 x \<le> j"
  proof (rule ccontr)
    assume "\<not> ilog2 x \<le> j"
    then have "j + 1 \<le> ilog2 x" by simp
    then have "(2::real) powi (j + 1) \<le> 2 powi (ilog2 x)" by (rule power_int_increasing) simp
    then show False using assms(3) ilog2_bounds(1) [OF assms(1)] by simp
  qed
qed

lemma rne_near: "\<bar>q - of_int m\<bar> < 1 / 2 \<Longrightarrow> rne q = m"
proof -
  assume near: "\<bar>q - of_int m\<bar> < 1 / 2"
  show ?thesis
  proof (cases "of_int m \<le> q")
    case True
    then have "\<lfloor>q\<rfloor> = m" using near by (intro floor_unique) linarith+
    then show ?thesis using near True by (simp add: rne_def Let_def)
  next
    case False
    then have f: "\<lfloor>q\<rfloor> = m - 1" using near by (intro floor_unique) (simp; linarith)+
    have "1 / 2 < q - of_int (m - 1)" using near False by simp
    then show ?thesis using f by (simp add: rne_def Let_def)
  qed
qed

lemma rne_tie: "\<bar>q - of_int m\<bar> = 1 / 2 \<Longrightarrow> even m \<Longrightarrow> rne q = m"
proof -
  assume tie: "\<bar>q - of_int m\<bar> = 1 / 2" and ev: "even m"
  show ?thesis
  proof (cases "of_int m \<le> q")
    case True
    then have q: "q = of_int m + 1 / 2" using tie by simp
    then have "\<lfloor>q\<rfloor> = m" by (intro floor_unique) simp_all
    then show ?thesis using q ev by (simp add: rne_def Let_def)
  next
    case False
    then have q: "q = of_int (m - 1) + 1 / 2" using tie by simp
    then have f: "\<lfloor>q\<rfloor> = m - 1" by (intro floor_unique) simp_all
    have "q - of_int (m - 1) = 1 / 2" using q by simp
    then show ?thesis using f ev by (simp add: rne_def Let_def)
  qed
qed

lemma rndp_scaled:
  assumes k: "k \<le> 1074" and lo: "2 ^ 52 \<le> x * 2 ^ k" and hi: "x * 2 ^ k < 2 ^ 53"
  shows "rnd x = of_int (rne (x * 2 ^ k)) / 2 ^ k"
proof -
  have pos: "0 < x"
  proof (rule ccontr)
    assume "\<not> 0 < x"
    then have "x * 2 ^ k \<le> 0" by (simp add: mult_le_0_iff)
    then show False using lo by (smt (verit) zero_less_power)
  qed
  have p: "(2::real) powi (52 - int k) = 2 ^ 52 / 2 ^ k"
    by (simp add: power_int_diff)
  have p1: "(2::real) powi (52 - int k + 1) = 2 ^ 53 / 2 ^ k"
  proof -
    have "52 - int k + 1 = 53 - int k" by simp
    then show ?thesis by (simp add: power_int_diff)
  qed
  have "2 powi (52 - int k) \<le> x" unfolding p using lo by (simp add: field_simps)
  moreover have "x < 2 powi (52 - int k + 1)" unfolding p1 using hi by (simp add: field_simps)
  ultimately have il: "ilog2 x = 52 - int k" using pos by (intro ilog2_unique)
  have e: "max (ilog2 x - 52) (- 1074) = - int k" using il k by simp
  have pk: "(2::real) powi (- int k) = 1 / 2 ^ k" by (simp add: power_int_minus field_simps)
  show ?thesis using pos by (simp add: rnd_def rndp_def Let_def e pk)
qed

lemma rnd_cert:
  assumes "k \<le> 1074" and "2 ^ 52 \<le> x * 2 ^ k" and "x * 2 ^ k < 2 ^ 53"
    and "\<bar>x * 2 ^ k - of_int m\<bar> < 1 / 2"
  shows "rnd x = of_int m / 2 ^ k"
  using rndp_scaled [OF assms(1-3)] rne_near [OF assms(4)] by simp

lemma rnd_cert_tie:
  assumes "k \<le> 1074" and "2 ^ 52 \<le> x * 2 ^ k" and "x * 2 ^ k < 2 ^ 53"
    and "\<bar>x * 2 ^ k - of_int m\<bar> = 1 / 2" and "even m"
  shows "rnd x = of_int m / 2 ^ k"
  using rndp_scaled [OF assms(1-3)] rne_tie [OF assms(4,5)] by simp

lemma rnd_minus: "rnd (- x) = - rnd x"
  by (simp add: rnd_def)


text \<open>
  The doubles that the literals of the source denote. The literals are written as
  fractions in lowest terms: 3/20 for 0.15, 3/10 for 0.3, 7/10 for 0.7, 7/20 for 0.35,
  9/20 for 0.45 and 1/5 for 0.20.
\<close>

lemma rnd_015: "rnd (3 / 20) = 5404319552844595 / 36028797018963968"
  using rnd_cert [of 55 "3 / 20" 5404319552844595] by simp

lemma rnd_03: "rnd (3 / 10) = 5404319552844595 / 18014398509481984"
  using rnd_cert [of 54 "3 / 10" 5404319552844595] by simp

lemma rnd_07: "rnd (7 / 10) = 3152519739159347 / 4503599627370496"
  using rnd_cert [of 53 "7 / 10" 6305039478318694] by simp

lemma rnd_035: "rnd (7 / 20) = 3152519739159347 / 9007199254740992"
  using rnd_cert [of 54 "7 / 20" 6305039478318694] by simp

lemma rnd_045: "rnd (9 / 20) = 8106479329266893 / 18014398509481984"
  using rnd_cert [of 54 "9 / 20" 8106479329266893] by simp

lemma rnd_020: "rnd (1 / 5) = 3602879701896397 / 18014398509481984"
  using rnd_cert [of 55 "1 / 5" 7205759403792794] by simp

text \<open>
  The weights are doubles, their sum in the order of the source is 1, and the thresholds
  0.7 and 0.3 times 1000 round to 700 and 300.
\<close>

lemma rnd_weight_035:
  "rnd (3152519739159347 / 9007199254740992) = 3152519739159347 / 9007199254740992"
  using rnd_cert [of 54 "3152519739159347 / 9007199254740992" 6305039478318694] by simp

lemma rnd_weight_045:
  "rnd (8106479329266893 / 18014398509481984) = 8106479329266893 / 18014398509481984"
  using rnd_cert [of 54 "8106479329266893 / 18014398509481984" 8106479329266893] by simp

lemma rnd_weight_020:
  "rnd (3602879701896397 / 18014398509481984) = 3602879701896397 / 18014398509481984"
  using rnd_cert [of 55 "3602879701896397 / 18014398509481984" 7205759403792794] by simp

lemma rnd_weights_sum2:
  "rnd (14411518807585587 / 18014398509481984) = 3602879701896397 / 4503599627370496"
  using rnd_cert_tie [of 53 "14411518807585587 / 18014398509481984" 7205759403792794] by simp

lemma rnd_weights_sum3: "rnd (18014398509481985 / 18014398509481984) = 1"
  using rnd_cert [of 52 "18014398509481985 / 18014398509481984" 4503599627370496] by simp

lemma rnd_700: "rnd (394064967394918375 / 562949953421312) = 700"
  using rnd_cert [of 43 "394064967394918375 / 562949953421312" 6157265115545600] by simp

lemma rnd_300: "rnd (675539944105574375 / 2251799813685248) = 300"
  using rnd_cert [of 44 "675539944105574375 / 2251799813685248" 5277655813324800] by simp

lemma rnd_1: "rnd 1 = 1"
  using rnd_cert [of 52 1 4503599627370496] by simp

lemma rnd_1000: "rnd 1000 = 1000"
  using rnd_cert [of 43 1000 8796093022208000] by simp

lemma jaccard64_rnd: "jaccard64 a b = rnd (jaccard a b)"
  by (simp add: jaccard64_def jaccard_def Let_def fdiv_def rnd_0)

lemma lcsRatio64_rnd: "lcsRatio64 a b = rnd (lcsRatio a b)"
  by (simp add: lcsRatio64_def lcsRatio_def Let_def fdiv_def rnd_0)

lemma order_pairs64_rnd:
  "order_pairs64 a b = map (\<lambda>(x, y). (rnd x, rnd y)) (order_pairs a b)"
proof -
  have "map (\<lambda>(x, y). (rnd x, rnd y))
          (case map_of (positions b) word of None \<Rightarrow> []
           | Some positionsB \<Rightarrow>
               [(real (hd positionsA) / real_of_int (max (int (length a) - 1) 1),
                 real (hd positionsB) / real_of_int (max (int (length b) - 1) 1))])
      = (case map_of (positions b) word of None \<Rightarrow> []
         | Some positionsB \<Rightarrow>
             [(fdiv (real (hd positionsA)) (real_of_int (max (int (length a) - 1) 1)),
               fdiv (real (hd positionsB)) (real_of_int (max (int (length b) - 1) 1)))])"
    for word :: string and positionsA :: "nat list"
    by (simp add: fdiv_def split: option.splits)
  then show ?thesis
    unfolding order_pairs64_def order_pairs_def Let_def map_concat map_map
    by (intro arg_cong [where f = concat] map_cong refl) (auto simp: comp_def)
qed

subsection \<open>The combined score\<close>






subsection \<open>Normalization\<close>

lemma word_not_space: "is_word_char c \<Longrightarrow> \<not> is_space c"
  by (auto simp: is_word_char_def is_space_def Let_def)

lemma apostrophe_not_space: "\<not> is_space (CHR 0x27)"
  by (simp add: is_space_def)

lemma space_is_space: "is_space CHR '' ''"
  by (simp add: is_space_def)

lemma tok_char_iff: "keep_char c \<Longrightarrow> tok_char c \<longleftrightarrow> \<not> is_space c"
  using word_not_space apostrophe_not_space by (auto simp: keep_char_def tok_char_def)

lemma tok_char_space: "\<not> tok_char CHR '' ''"
  by (simp add: tok_char_def is_word_char_def)

lemma runs_cong: "(\<And>c. c \<in> set s \<Longrightarrow> P c = Q c) \<Longrightarrow> runs P s = runs Q s"
proof (induction P s rule: runs.induct)
  case (1 P)
  then show ?case by simp
next
  case (2 P c cs)
  have tw: "takeWhile P cs = takeWhile Q cs"
    by (rule takeWhile_cong) (auto simp: 2)
  have dw: "dropWhile P cs = dropWhile Q cs"
    by (rule dropWhile_cong) (auto simp: 2)
  show ?case
  proof (cases "P c")
    case True
    then have "Q c" using 2(3) [of c] by simp
    moreover have "runs P (dropWhile P cs) = runs Q (dropWhile P cs)"
      using True 2(3) by (intro 2(1)) (auto dest: set_dropWhileD)
    ultimately show ?thesis using True tw dw by simp
  next
    case False
    then have "\<not> Q c" using 2(3) [of c] by simp
    moreover have "runs P cs = runs Q cs"
      using False 2(3) by (intro 2(2)) auto
    ultimately show ?thesis using False by simp
  qed
qed

lemma runs_map:
  assumes pf: "\<And>c. P (f c) = P c" and idf: "\<And>c. P c \<Longrightarrow> f c = c"
  shows "runs P (map f s) = runs P s"
proof (induction s rule: length_induct)
  case (1 s)
  show ?case
  proof (cases s)
    case Nil
    then show ?thesis by simp
  next
    case (Cons c cs)
    have comp: "P \<circ> f = P" using pf by (auto simp: fun_eq_iff)
    have tw: "takeWhile P (map f cs) = takeWhile P cs"
    proof -
      have "map f (takeWhile P cs) = takeWhile P cs"
        by (rule map_idI) (auto dest: set_takeWhileD idf)
      then show ?thesis by (simp add: takeWhile_map comp)
    qed
    have dw: "dropWhile P (map f cs) = map f (dropWhile P cs)"
      by (simp add: dropWhile_map comp)
    have len: "length (dropWhile P cs) < length s"
      using Cons by (simp add: le_imp_less_Suc length_dropWhile_le)
    show ?thesis
    proof (cases "P c")
      case True
      then have "f c = c" by (rule idf)
      moreover have "runs P (map f (dropWhile P cs)) = runs P (dropWhile P cs)"
        using 1 len by blast
      ultimately show ?thesis using True Cons tw dw by simp
    next
      case False
      then have "\<not> P (f c)" by (simp add: pf)
      moreover have "runs P (map f cs) = runs P cs" using 1 Cons by simp
      ultimately show ?thesis using False Cons by simp
    qed
  qed
qed

lemma runs_replace_other: "runs tok_char (replace_other s) = runs tok_char s"
  unfolding replace_other_def
proof (rule runs_map)
  fix c
  show "tok_char (if keep_char c then c else CHR '' '') = tok_char c"
    using tok_char_space by (auto simp: keep_char_def tok_char_def)
  show "tok_char c \<Longrightarrow> (if keep_char c then c else CHR '' '') = c"
    by (auto simp: keep_char_def tok_char_def)
qed

lemma replace_other_chars:
  "c \<in> set (replace_other s) \<Longrightarrow> tok_char c \<longleftrightarrow> \<not> is_space c"
  using tok_char_iff tok_char_space space_is_space
  by (auto simp: replace_other_def split: if_splits)

lemma runs_skip: "runs P (dropWhile (\<lambda>c. \<not> P c) s) = runs P s"
  by (induction s) auto

lemma runs_nonempty: "s \<noteq> [] \<Longrightarrow> P (hd s) \<Longrightarrow> runs P s \<noteq> []"
  by (cases s) auto

lemma js_join_Cons: "rs \<noteq> [] \<Longrightarrow> js_join sep (w # rs) = w @ sep @ js_join sep rs"
  by (cases rs) auto

lemma collapse_ws_pass:
  "\<forall>c\<in>set w. \<not> is_space c \<Longrightarrow> collapse_ws (w @ r) = w @ collapse_ws r"
  by (induction w) auto

lemma collapse_ws_front:
  "dropWhile is_space (collapse_ws s) = collapse_ws (dropWhile is_space s)"
proof (cases s)
  case Nil
  then show ?thesis by simp
next
  case (Cons c cs)
  have nolead: "dropWhile is_space (collapse_ws u) = collapse_ws u"
    if "u = [] \<or> \<not> is_space (hd u)" for u
    using that by (cases u) auto
  show ?thesis
  proof (cases "is_space c")
    case True
    let ?u = "dropWhile is_space cs"
    have "?u = [] \<or> \<not> is_space (hd ?u)"
      by (metis hd_dropWhile)
    then have "dropWhile is_space (collapse_ws ?u) = collapse_ws ?u" by (rule nolead)
    then show ?thesis using True Cons space_is_space by simp
  next
    case False
    then show ?thesis using Cons by simp
  qed
qed

lemma rtrim_Nil: "rtrim [] = []"
  by (simp add: rtrim_def)

lemma rtrim_Cons:
  "rtrim (c # x) = (if \<forall>d\<in>set (c # x). is_space d then [] else c # rtrim x)"
proof (cases "\<forall>d\<in>set x. is_space d")
  case True
  then have "dropWhile is_space (rev x) = []" by simp
  then show ?thesis using True by (simp add: rtrim_def dropWhile_append)
next
  case False
  then have "dropWhile is_space (rev x) \<noteq> []" by simp
  then show ?thesis using False by (auto simp: rtrim_def dropWhile_append)
qed

lemma rtrim_pass: "\<forall>c\<in>set w. \<not> is_space c \<Longrightarrow> rtrim (w @ y) = w @ rtrim y"
  by (induction w) (auto simp: rtrim_Cons)

lemma trim_rtrim: "trim s = rtrim (dropWhile is_space s)"
  by (simp add: trim_def rtrim_def)

lemma rtrim_collapse:
  "s = [] \<or> \<not> is_space (hd s) \<Longrightarrow>
     rtrim (collapse_ws s) = js_join '' '' (runs (\<lambda>c. \<not> is_space c) s)"
proof (induction s rule: length_induct)
  case (1 s)
  let ?ns = "\<lambda>c. \<not> is_space c"
  show ?case
  proof (cases s)
    case Nil
    then show ?thesis by (simp add: rtrim_Nil)
  next
    case (Cons c cs)
    then have nsc: "?ns c" using 1(2) by simp
    define w where "w = c # takeWhile ?ns cs"
    define r where "r = dropWhile ?ns cs"
    have s_eq: "s = w @ r" by (simp add: Cons w_def r_def)
    have w_ns: "\<forall>d\<in>set w. \<not> is_space d"
      using nsc by (auto simp: w_def dest: set_takeWhileD)
    have runs_s: "runs ?ns s = w # runs ?ns r"
      using nsc by (simp add: Cons w_def r_def)
    have step: "rtrim (collapse_ws s) = w @ rtrim (collapse_ws r)"
      using w_ns by (simp add: s_eq collapse_ws_pass rtrim_pass)
    show ?thesis
    proof (cases r)
      case Nil
      then show ?thesis using step runs_s by (simp add: rtrim_Nil)
    next
      case (Cons d r')
      have spd: "is_space d"
        using Cons hd_dropWhile [of ?ns cs] by (auto simp: r_def)
      define u where "u = dropWhile is_space r'"
      have cr: "collapse_ws r = CHR '' '' # collapse_ws u"
        using spd by (simp add: Cons u_def)
      have runs_r: "runs ?ns r = runs ?ns u"
        using spd runs_skip [of ?ns r'] by (simp add: Cons u_def)
      show ?thesis
      proof (cases u)
        case Nil
        then show ?thesis
          using step cr runs_s runs_r space_is_space by (simp add: rtrim_Cons rtrim_Nil)
      next
        case (Cons e u')
        have nse: "\<not> is_space e"
          using Cons hd_dropWhile [of is_space r'] by (auto simp: u_def)
        have "length u < length s"
          using s_eq \<open>r = d # r'\<close>
          by (simp add: u_def le_imp_less_Suc length_dropWhile_le trans_le_add2)
        moreover have "u = [] \<or> \<not> is_space (hd u)" using Cons nse by simp
        ultimately have IH: "rtrim (collapse_ws u) = js_join '' '' (runs ?ns u)"
          using 1(1) by blast
        have ne: "runs ?ns u \<noteq> []" using Cons nse by simp
        have "e \<in> set (collapse_ws u)" using Cons nse by simp
        then have "\<not> (\<forall>x\<in>set (CHR '' '' # collapse_ws u). is_space x)"
          using nse by auto
        then have "rtrim (CHR '' '' # collapse_ws u) = CHR '' '' # rtrim (collapse_ws u)"
          by (simp only: rtrim_Cons if_False)
        then show ?thesis
          using step cr runs_s runs_r IH ne by (simp add: js_join_Cons)
      qed
    qed
  qed
qed

lemma trim_collapse:
  "trim (collapse_ws s) = js_join '' '' (runs (\<lambda>c. \<not> is_space c) s)"
proof -
  let ?u = "dropWhile is_space s"
  have "?u = [] \<or> \<not> is_space (hd ?u)" by (metis hd_dropWhile)
  then have "rtrim (collapse_ws ?u) = js_join '' '' (runs (\<lambda>c. \<not> is_space c) ?u)"
    by (rule rtrim_collapse)
  moreover have "runs (\<lambda>c. \<not> is_space c) ?u = runs (\<lambda>c. \<not> is_space c) s"
    using runs_skip [of "\<lambda>c. \<not> is_space c" s] by simp
  ultimately show ?thesis by (simp add: trim_rtrim collapse_ws_front)
qed

text \<open>
  Claim C7, as stated: \<^verbatim>\<open>normalize\<close> removes every character other than word
  characters, whitespace and apostrophes. The code replaces each such character by a
  space, so a hyphen between two letters separates two tokens instead of joining them.
\<close>

theorem normalize_removal_counterexample:
  "normalize_text ''a-b'' = ''a b'' \<and> normalize_spec ''a-b'' = ''ab''
   \<and> normalize_text ''a-b'' \<noteq> normalize_spec ''a-b''"
  by code_simp

text \<open>
  Claim C7, amended: \<^verbatim>\<open>normalize(text)\<close> is the result of lowercasing, replacing every
  character other than word characters, whitespace and apostrophes by a space, collapsing
  each run of whitespace to one space, and trimming. Equivalently, it is the maximal runs
  of word characters and apostrophes of the lowercased text, joined by single spaces.
\<close>

theorem normalize_replaces:
  "normalize_text text =
     trim (collapse_ws (map (\<lambda>c. if keep_char c then c else CHR '' '') (toLowerCase text)))
   \<and> normalize_text text = js_join '' '' (runs tok_char (toLowerCase text))"
proof -
  let ?r = "replace_other (toLowerCase text)"
  have "runs (\<lambda>c. \<not> is_space c) ?r = runs tok_char ?r"
    by (rule runs_cong) (simp add: replace_other_chars)
  then have "normalize_text text = js_join '' '' (runs tok_char (toLowerCase text))"
    by (simp add: normalize_text_def trim_collapse runs_replace_other)
  then show ?thesis by (simp add: normalize_text_def replace_other_def)
qed

theorem normalize_replaces_witness:
  "normalize_text ''It's  A-b! '' = ''it's a b''"
proof -
  have "js_join '' '' (runs tok_char (toLowerCase ''It's  A-b! '')) = ''it's a b''"
    by code_simp
  then show ?thesis
    using normalize_replaces [of "''It's  A-b! ''", THEN conjunct2] by simp
qed

subsection \<open>Longest common subsequence in 16-bit cells\<close>

lemma subseq_single: "subseq ys [x] \<Longrightarrow> ys = [] \<or> ys = [x]"
  by (cases ys) (auto split: if_splits)

lemma subseq_snoc_cases:
  assumes "subseq (zs @ [z]) (xs @ [x])"
  shows "subseq (zs @ [z]) xs \<or> (z = x \<and> subseq zs xs)"
proof -
  from assms obtain p q where pq: "zs @ [z] = p @ q" "subseq p xs" "subseq q [x]"
    by (auto simp: subseq_append_iff)
  from subseq_single [OF pq(3)] show ?thesis
  proof
    assume "q = []"
    then show ?thesis using pq by simp
  next
    assume "q = [x]"
    then show ?thesis using pq by simp
  qed
qed

lemma subseq_snoc_drop: "subseq (zs @ [z]) xs \<Longrightarrow> subseq zs xs"
  by (metis subseq_order.order_trans subseq_rev_drop_many subseq_order.order_refl)

lemma unat_max16: "unat (max (x::u16) y) = max (unat x) (unat y)"
  by (simp add: max_def word_le_nat_alt)

lemma unat_inc16: "unat (x::u16) + 1 < 65536 \<Longrightarrow> unat (x + 1) = unat x + 1"
  by (simp add: unat_word_ariths)

lemma lcs_tab_le: "lcs_tab a b i j \<le> min i j"
  by (induction a b i j rule: lcs_tab.induct) auto


lemma lcs_tab_upper:
  "i \<le> length a \<Longrightarrow> j \<le> length b \<Longrightarrow> subseq zs (take i a) \<Longrightarrow> subseq zs (take j b)
     \<Longrightarrow> length zs \<le> lcs_tab a b i j"
proof (induction a b i j arbitrary: zs rule: lcs_tab.induct)
  case (1 a b j)
  then show ?case by simp
next
  case (2 a b i)
  then show ?case by simp
next
  case (3 a b i j)
  have ia: "i \<le> length a" and jb: "j \<le> length b"
    using "3.prems"(1,2) by simp_all
  have ta: "take (Suc i) a = take i a @ [a ! i]"
    using "3.prems"(1) by (simp add: take_Suc_conv_app_nth)
  have tb: "take (Suc j) b = take j b @ [b ! j]"
    using "3.prems"(2) by (simp add: take_Suc_conv_app_nth)
  show ?case
  proof (cases zs rule: rev_cases)
    case Nil
    then show ?thesis by simp
  next
    case (snoc ys z)
    have "subseq (ys @ [z]) (take i a @ [a ! i])"
      using "3.prems"(3) snoc ta by simp
    then have ca: "subseq (ys @ [z]) (take i a) \<or> (z = a ! i \<and> subseq ys (take i a))"
      by (rule subseq_snoc_cases)
    have "subseq (ys @ [z]) (take j b @ [b ! j])"
      using "3.prems"(4) snoc tb by simp
    then have cb: "subseq (ys @ [z]) (take j b) \<or> (z = b ! j \<and> subseq ys (take j b))"
      by (rule subseq_snoc_cases)
    show ?thesis
    proof (cases "a ! i = b ! j")
      case True
      have ya: "subseq ys (take i a)"
      proof (rule disjE [OF ca])
        assume "subseq (ys @ [z]) (take i a)"
        then show ?thesis by (rule subseq_snoc_drop)
      next
        assume "z = a ! i \<and> subseq ys (take i a)"
        then show ?thesis by (rule conjunct2)
      qed
      have yb: "subseq ys (take j b)"
      proof (rule disjE [OF cb])
        assume "subseq (ys @ [z]) (take j b)"
        then show ?thesis by (rule subseq_snoc_drop)
      next
        assume "z = b ! j \<and> subseq ys (take j b)"
        then show ?thesis by (rule conjunct2)
      qed
      have "length ys \<le> lcs_tab a b i j"
        by (rule "3.IH"(1) [OF True ia jb ya yb])
      then show ?thesis using True snoc by simp
    next
      case False
      have "subseq zs (take i a) \<or> subseq zs (take j b)"
      proof (rule disjE [OF ca])
        assume "subseq (ys @ [z]) (take i a)"
        then show ?thesis unfolding snoc by (rule disjI1)
      next
        assume za: "z = a ! i \<and> subseq ys (take i a)"
        show ?thesis
        proof (rule disjE [OF cb])
          assume "subseq (ys @ [z]) (take j b)"
          then show ?thesis unfolding snoc by (rule disjI2)
        next
          assume "z = b ! j \<and> subseq ys (take j b)"
          then have False using za False by simp
          then show ?thesis ..
        qed
      qed
      then consider "subseq zs (take i a)" | "subseq zs (take j b)"
        by blast
      then show ?thesis
      proof cases
        case 1
        have "length zs \<le> lcs_tab a b i (Suc j)"
          by (rule "3.IH"(2) [OF False ia "3.prems"(2) 1 "3.prems"(4)])
        then show ?thesis using False by simp
      next
        case 2
        have "length zs \<le> lcs_tab a b (Suc i) j"
          by (rule "3.IH"(3) [OF False "3.prems"(1) jb "3.prems"(3) 2])
        then show ?thesis using False by simp
      qed
    qed
  qed
qed

lemma lcs_tab_attained:
  "i \<le> length a \<Longrightarrow> j \<le> length b \<Longrightarrow>
     \<exists>zs. subseq zs (take i a) \<and> subseq zs (take j b) \<and> length zs = lcs_tab a b i j"
proof (induction a b i j rule: lcs_tab.induct)
  case (1 a b j)
  then show ?case by simp
next
  case (2 a b i)
  then show ?case by simp
next
  case (3 a b i j)
  have ta: "take (Suc i) a = take i a @ [a ! i]"
    using 3(4) by (simp add: take_Suc_conv_app_nth)
  have tb: "take (Suc j) b = take j b @ [b ! j]"
    using 3(5) by (simp add: take_Suc_conv_app_nth)
  show ?case
  proof (cases "a ! i = b ! j")
    case True
    then obtain zs where zs: "subseq zs (take i a)" "subseq zs (take j b)"
        "length zs = lcs_tab a b i j"
      using 3(1) 3(4,5) by auto
    have "subseq (zs @ [a ! i]) (take (Suc i) a)" using zs(1) ta by simp
    moreover have "subseq (zs @ [a ! i]) (take (Suc j) b)" using zs(2) tb True by simp
    moreover have "length (zs @ [a ! i]) = lcs_tab a b (Suc i) (Suc j)"
      using zs(3) True by simp
    ultimately show ?thesis by blast
  next
    case False
    obtain ys where ys: "subseq ys (take i a)" "subseq ys (take (Suc j) b)"
        "length ys = lcs_tab a b i (Suc j)"
      using 3(2) [OF False] 3(4,5) by auto
    obtain ws where ws: "subseq ws (take (Suc i) a)" "subseq ws (take j b)"
        "length ws = lcs_tab a b (Suc i) j"
      using 3(3) [OF False] 3(4,5) by auto
    have ys': "subseq ys (take (Suc i) a)"
      using ys(1) ta by (simp add: subseq_rev_drop_many)
    have ws': "subseq ws (take (Suc j) b)"
      using ws(2) tb by (simp add: subseq_rev_drop_many)
    show ?thesis
    proof (cases "lcs_tab a b i (Suc j) \<le> lcs_tab a b (Suc i) j")
      case True
      then show ?thesis using False ws ws' by (auto simp: max_def)
    next
      case False
      then show ?thesis using \<open>a ! i \<noteq> b ! j\<close> ys ys' by (auto simp: max_def)
    qed
  qed
qed

lemma lcs_spec_tab: "lcs_spec a b = lcs_tab a b (length a) (length b)"
proof -
  let ?C = "{zs. subseq zs a \<and> subseq zs b}"
  have fin: "finite (length ` ?C)"
  proof -
    have "?C \<subseteq> set (subseqs a)" by auto
    then have "finite ?C" by (rule finite_subset) simp
    then show ?thesis by simp
  qed
  have "Max (length ` ?C) = lcs_tab a b (length a) (length b)"
  proof (rule Max_eqI [OF fin])
    fix n assume "n \<in> length ` ?C"
    then show "n \<le> lcs_tab a b (length a) (length b)"
      using lcs_tab_upper [of "length a" a "length b" b] by auto
  next
    show "lcs_tab a b (length a) (length b) \<in> length ` ?C"
      using lcs_tab_attained [of "length a" a "length b" b] by force
  qed
  then show ?thesis by (simp add: lcs_spec_def)
qed


lemma foldl_upt_snoc: "foldl f z [1..<Suc k + 1] = f (foldl f z [1..<k + 1]) (Suc k)"
  by simp

lemma zero_row_nth: "j \<le> n \<Longrightarrow> replicate (n + 1) (0::u16) ! j = 0"
  by (rule nth_replicate) simp

lemma lcs_row_inv:
  assumes "\<forall>j\<le>length b. prev ! j = lcs_tab16 a b i j" and "k \<le> length b"
  shows "length (foldl (lcs_cell a b prev (Suc i)) (replicate (length b + 1) 0) [1..<k + 1])
           = length b + 1
       \<and> (\<forall>j\<le>k. foldl (lcs_cell a b prev (Suc i)) (replicate (length b + 1) 0) [1..<k + 1] ! j
              = lcs_tab16 a b (Suc i) j)"
  using assms(2)
proof (induction k)
  case 0
  then show ?case by simp
next
  case (Suc k)
  define cur where
    "cur = foldl (lcs_cell a b prev (Suc i)) (replicate (length b + 1) 0) [1..<k + 1]"
  have len: "length cur = length b + 1"
    and old: "\<forall>j\<le>k. cur ! j = lcs_tab16 a b (Suc i) j"
    using Suc unfolding cur_def by simp_all
  have unfold: "foldl (lcs_cell a b prev (Suc i)) (replicate (length b + 1) 0) [1..<Suc k + 1]
      = lcs_cell a b prev (Suc i) cur (Suc k)"
    unfolding cur_def by (rule foldl_upt_snoc)
  have pk: "prev ! k = lcs_tab16 a b i k" and pk1: "prev ! Suc k = lcs_tab16 a b i (Suc k)"
    using assms(1) Suc.prems by simp_all
  have ck: "cur ! k = lcs_tab16 a b (Suc i) k" using old by simp
  have new: "lcs_cell a b prev (Suc i) cur (Suc k) = cur[Suc k := lcs_tab16 a b (Suc i) (Suc k)]"
    by (simp add: lcs_cell_def pk pk1 ck)
  have inr: "Suc k < length cur" using len Suc.prems by simp
  show ?case
    unfolding unfold new
  proof (intro conjI allI impI)
    show "length (cur[Suc k := lcs_tab16 a b (Suc i) (Suc k)]) = length b + 1"
      using len by simp
  next
    fix j assume "j \<le> Suc k"
    then show "cur[Suc k := lcs_tab16 a b (Suc i) (Suc k)] ! j = lcs_tab16 a b (Suc i) j"
      using old inr by (cases "j = Suc k") (simp_all add: nth_list_update)
  qed
qed

lemma lcs_rows_inv:
  "i \<le> length a \<Longrightarrow>
     (\<forall>j\<le>length b. foldl (lcs_row a b) (replicate (length b + 1) 0) [1..<i + 1] ! j
        = lcs_tab16 a b i j)"
proof (induction i)
  case 0
  have "[1..<0 + 1] = ([] :: nat list)" by simp
  then show ?case using zero_row_nth by (simp only: foldl_Nil lcs_tab16.simps) blast
next
  case (Suc i)
  define prev where "prev = foldl (lcs_row a b) (replicate (length b + 1) 0) [1..<i + 1]"
  have prev: "\<forall>j\<le>length b. prev ! j = lcs_tab16 a b i j"
    using Suc unfolding prev_def by simp
  have step: "foldl (lcs_row a b) (replicate (length b + 1) 0) [1..<Suc i + 1]
      = lcs_row a b prev (Suc i)"
    unfolding prev_def by (rule foldl_upt_snoc)
  have row: "lcs_row a b prev (Suc i)
      = foldl (lcs_cell a b prev (Suc i)) (replicate (length b + 1) 0) [1..<length b + 1]"
    by (simp only: lcs_row_def)
  show ?case
    unfolding step row
    by (rule lcs_row_inv [OF prev order_refl, THEN conjunct2])
qed

lemma lcs_tab16_zero: "lcs_tab16 a b i 0 = 0"
  by (cases i) simp_all

lemma lcsLength_tab16: "lcsLength a b = unat (lcs_tab16 a b (length a) (length b))"
proof (cases "a = [] \<or> b = []")
  case True
  then show ?thesis by (auto simp: lcsLength_def lcs_tab16_zero)
next
  case False
  then show ?thesis
    using lcs_rows_inv [of "length a" a b] by (simp add: lcsLength_def Let_def)
qed

lemma lcs_tab16_exact:
  "min i j < 65536 \<Longrightarrow> unat (lcs_tab16 a b i j) = lcs_tab a b i j"
proof (induction a b i j rule: lcs_tab.induct)
  case (1 a b j)
  then show ?case by simp
next
  case (2 a b i)
  then show ?case by simp
next
  case (3 a b i j)
  show ?case
  proof (cases "a ! i = b ! j")
    case True
    have "min i j < 65536" using "3.prems" by simp
    then have eq: "unat (lcs_tab16 a b i j) = lcs_tab a b i j"
      by (rule "3.IH"(1) [OF True])
    have "lcs_tab a b i j \<le> min i j" by (rule lcs_tab_le)
    then have "unat (lcs_tab16 a b i j) + 1 < 65536"
      using eq "3.prems" by (simp add: min_def split: if_splits)
    then have "unat (lcs_tab16 a b i j + 1) = unat (lcs_tab16 a b i j) + 1"
      by (rule unat_inc16)
    then show ?thesis using True eq by simp
  next
    case False
    have "min i (Suc j) < 65536" using "3.prems" by simp
    then have e1: "unat (lcs_tab16 a b i (Suc j)) = lcs_tab a b i (Suc j)"
      by (rule "3.IH"(2) [OF False])
    have "min (Suc i) j < 65536" using "3.prems" by simp
    then have e2: "unat (lcs_tab16 a b (Suc i) j) = lcs_tab a b (Suc i) j"
      by (rule "3.IH"(3) [OF False])
    show ?thesis using False e1 e2 by (simp add: unat_max16)
  qed
qed

lemma lcs_tab16_all_equal:
  "\<forall>i<m. \<forall>j<n. a ! i = b ! j \<Longrightarrow> i \<le> m \<Longrightarrow> j \<le> n \<Longrightarrow>
     lcs_tab16 a b i j = of_nat (min i j)"
  by (induction a b i j rule: lcs_tab16.induct) simp_all

lemma lcs_tab_all_equal:
  "\<forall>i<m. \<forall>j<n. a ! i = b ! j \<Longrightarrow> i \<le> m \<Longrightarrow> j \<le> n \<Longrightarrow> lcs_tab a b i j = min i j"
  by (induction a b i j rule: lcs_tab.induct) simp_all

lemma lcsLength_wraps:
  "lcsLength (replicate 65536 x) (replicate 65536 x) = 0"
proof -
  have "lcs_tab16 (replicate 65536 x) (replicate 65536 x) 65536 65536 = of_nat (min 65536 65536)"
    by (rule lcs_tab16_all_equal [where m = 65536 and n = 65536]) simp_all
  then show ?thesis by (simp add: lcsLength_tab16)
qed

lemma lcs_spec_replicate:
  "lcs_spec (replicate 65536 x) (replicate 65536 x) = 65536"
proof -
  have "lcs_tab (replicate 65536 x) (replicate 65536 x) 65536 65536 = min 65536 65536"
    by (rule lcs_tab_all_equal [where m = 65536 and n = 65536]) simp_all
  then show ?thesis by (simp add: lcs_spec_tab)
qed

text \<open>
  Claim C9: \<^verbatim>\<open>lcsLength\<close> keeps the table in 16-bit unsigned cells. When the shorter
  sequence has fewer than 65536 tokens the result is the exact length of a longest common
  subsequence; beyond that the stored value can wrap: two sequences of 65536 equal tokens
  have a longest common subsequence of length 65536 and \<^verbatim>\<open>lcsLength\<close> returns 0.
\<close>

theorem lcsLength_u16:
  "(\<forall>a b :: string list. min (length a) (length b) < 65536 \<longrightarrow> lcsLength a b = lcs_spec a b)
   \<and> lcsLength (replicate 65536 ''a'') (replicate 65536 ''a'') = 0
   \<and> lcs_spec (replicate 65536 ''a'') (replicate 65536 ''a'') = 65536"
  using lcsLength_wraps [of "''a''"] lcs_spec_replicate [of "''a''"]
  by (simp add: lcsLength_tab16 lcs_tab16_exact lcs_spec_tab)

lemma lcsLength_ex: "lcsLength [''a'', ''b'', ''c'', ''b''] [''b'', ''d'', ''c'', ''b''] = 3"
  by code_simp

theorem lcsLength_u16_witness:
  "min (length [''a'', ''b'', ''c'', ''b'']) (length [''b'', ''d'', ''c'', ''b'']) < (65536 :: nat)
   \<and> lcs_spec [''a'', ''b'', ''c'', ''b''] [''b'', ''d'', ''c'', ''b''] = 3"
  using lcsLength_u16 [THEN conjunct1, rule_format,
      of "[''a'', ''b'', ''c'', ''b'']" "[''b'', ''d'', ''c'', ''b'']"]
  by (simp add: lcsLength_ex)

subsection \<open>Word-order score\<close>












subsection \<open>Optimality of the dynamic-programming alignment\<close>

lemma set_spans_at: "set (spans_at T t2) = {spn. 1 \<le> spn \<and> spn \<le> 3 \<and> t2 + spn \<le> T}"
proof -
  have "[1..<MAX_SPAN + 1] = [1, 2, 3]"
    by (simp add: MAX_SPAN_def upt_rec)
  then show ?thesis
    unfolding spans_at_def by auto
qed

lemma set_windows:
  "set (windows T t) = {(t2, spn). t \<le> t2 \<and> t2 < T \<and> 1 \<le> spn \<and> spn \<le> 3 \<and> t2 + spn \<le> T}"
proof -
  have "set (windows T t) = (\<Union>t2\<in>{t..<T}. Pair t2 ` set (spans_at T t2))"
    unfolding windows_def by simp
  also have "\<dots> = {(t2, spn). t \<le> t2 \<and> t2 < T \<and> 1 \<le> spn \<and> spn \<le> 3 \<and> t2 + spn \<le> T}"
    unfolding set_spans_at by force
  finally show ?thesis .
qed

lemma dp_try_take:
  "rnd 0.15 \<le> f t2 spn \<Longrightarrow> b < fadd (f t2 spn) (nxt ! (t2 + spn)) \<Longrightarrow>
     dp_try f nxt (b, c) (t2, spn) = (fadd (f t2 spn) (nxt ! (t2 + spn)), Match t2 spn)"
  by (simp add: dp_try_def Let_def not_le)

lemma dp_try_keep:
  "\<not> (rnd 0.15 \<le> f t2 spn \<and> b < fadd (f t2 spn) (nxt ! (t2 + spn))) \<Longrightarrow>
     dp_try f nxt (b, c) (t2, spn) = (b, c)"
  by (auto simp: dp_try_def Let_def not_le)




lemma dp_fold_source:
  "foldl (dp_try f nxt) (b0, c0) ws = (b0, c0)
   \<or> (\<exists>t2 spn. (t2, spn) \<in> set ws \<and> rnd 0.15 \<le> f t2 spn
         \<and> foldl (dp_try f nxt) (b0, c0) ws
             = (fadd (f t2 spn) (nxt ! (t2 + spn)), Match t2 spn))"
proof (induction ws rule: rev_induct)
  case Nil
  then show ?case by simp
next
  case (snoc w ws)
  obtain u v where w: "w = (u, v)" by (cases w)
  obtain b c where r: "foldl (dp_try f nxt) (b0, c0) ws = (b, c)"
    by (cases "foldl (dp_try f nxt) (b0, c0) ws")
  have last: "foldl (dp_try f nxt) (b0, c0) (ws @ [w]) = dp_try f nxt (b, c) (u, v)"
    by (simp add: r w)
  show ?case
  proof (cases "rnd 0.15 \<le> f u v \<and> b < fadd (f u v) (nxt ! (u + v))")
    case True
    then have "dp_try f nxt (b, c) (u, v) = (fadd (f u v) (nxt ! (u + v)), Match u v)"
      by (intro dp_try_take) simp_all
    then show ?thesis using True w last by auto
  next
    case False
    then have "dp_try f nxt (b, c) (u, v) = (b, c)"
      by (rule dp_try_keep)
    then show ?thesis using snoc r last by auto
  qed
qed

lemma dp_next_0: "dp_next sc T s 0 = replicate (T + 1) 0"
  by (simp add: dp_next_def)

lemma dp_rows_Suc:
  "dp_rows sc T s (Suc k) = dp_row (sc s) (dp_next sc T (Suc s) k) T # dp_rows sc T (Suc s) k"
  by (simp add: dp_next_def Let_def)

lemma dp_next_Suc: "dp_next sc T s (Suc k) = map fst (dp_row (sc s) (dp_next sc T (Suc s) k) T)"
  unfolding dp_next_def [of sc T s "Suc k"] dp_rows_Suc by simp

lemma length_dp_row: "length (dp_row f nxt T) = T + 1"
  by (simp add: dp_row_def)

lemma dp_row_nth: "t \<le> T \<Longrightarrow> dp_row f nxt T ! t = dp_cell f nxt T t"
proof -
  assume "t \<le> T"
  then have "t < length [0..<T + 1]" by simp
  then have "map (dp_cell f nxt T) [0..<T + 1] ! t = dp_cell f nxt T ([0..<T + 1] ! t)"
    by (rule nth_map)
  moreover have "[0..<T + 1] ! t = t" using \<open>t \<le> T\<close> by (simp del: upt_Suc add: nth_upt)
  ultimately show ?thesis by (simp only: dp_row_def)
qed

lemma dp_next_nth:
  "t \<le> T \<Longrightarrow> dp_next sc T s (Suc k) ! t = fst (dp_cell (sc s) (dp_next sc T (Suc s) k) T t)"
proof -
  assume t: "t \<le> T"
  then have "t < length (dp_row (sc s) (dp_next sc T (Suc s) k) T)"
    by (simp add: length_dp_row)
  then have "map fst (dp_row (sc s) (dp_next sc T (Suc s) k) T) ! t
      = fst (dp_row (sc s) (dp_next sc T (Suc s) k) T ! t)"
    by (rule nth_map)
  then show ?thesis by (simp only: dp_next_Suc dp_row_nth [OF t])
qed


lemma traceback_attains:
  "t \<le> T \<Longrightarrow>
     \<exists>as. traceback sc (dp_rows sc T s k) s t = Inr as
        \<and> length as = k
        \<and> map scriptIdx as = [s..<s + k]
        \<and> chain sc T s t (map choice_of as)
        \<and> (\<forall>i<k. score (as ! i) = win_score sc (s + i) (choice_of (as ! i)))
        \<and> total64_from sc s (map choice_of as) = dp_next sc T s k ! t"
proof (induction k arbitrary: s t)
  case 0
  then show ?case by (simp add: dp_next_0 del: replicate_Suc)
next
  case (Suc k)
  define nxt where "nxt = dp_next sc T (Suc s) k"
  define row where "row = dp_row (sc s) nxt T"
  have rows: "dp_rows sc T s (Suc k) = row # dp_rows sc T (Suc s) k"
    by (simp only: dp_rows_Suc row_def nxt_def)
  have inr: "t < length row" using Suc.prems by (simp add: row_def length_dp_row)
  have cell: "row ! t = foldl (dp_try (sc s) nxt) (nxt ! t, Skip) (windows T t)"
    using Suc.prems by (simp add: row_def dp_row_nth dp_cell_def)
  have val: "dp_next sc T s (Suc k) ! t = fst (row ! t)"
    using dp_next_nth [OF Suc.prems] by (simp add: row_def nxt_def dp_row_nth [OF Suc.prems])
  from dp_fold_source [of "sc s" nxt "nxt ! t" Skip "windows T t"]
  consider (skip) "row ! t = (nxt ! t, Skip)"
    | (take) t2 spn where "(t2, spn) \<in> set (windows T t)" "rnd 0.15 \<le> sc s t2 spn"
        "row ! t = (fadd (sc s t2 spn) (nxt ! (t2 + spn)), Match t2 spn)"
    unfolding cell by blast
  then show ?case
  proof cases
    case skip
    obtain as where as: "traceback sc (dp_rows sc T (Suc s) k) (Suc s) t = Inr as"
      "length as = k" "map scriptIdx as = [Suc s..<Suc s + k]"
      "chain sc T (Suc s) t (map choice_of as)"
      "\<forall>i<k. score (as ! i) = win_score sc (Suc s + i) (choice_of (as ! i))"
      "total64_from sc (Suc s) (map choice_of as) = nxt ! t"
      using Suc.IH [OF Suc.prems, of "Suc s"] unfolding nxt_def by blast
    define a where "a = \<lparr>scriptIdx = s, segStart = - 1, segEnd = - 1, score = 0\<rparr>"
    have ch: "choice_of a = Skip" by (simp add: a_def choice_of_def)
    have sc_a: "score a = 0" by (simp add: a_def)
    have tb: "traceback sc (dp_rows sc T s (Suc k)) s t = Inr (a # as)"
      unfolding rows using inr skip as(1) by (simp add: a_def)
    have idx: "map scriptIdx (a # as) = [s..<s + Suc k]"
      using as(3) by (simp add: a_def upt_conv_Cons)
    have scs: "\<forall>i<Suc k. score ((a # as) ! i) = win_score sc (s + i) (choice_of ((a # as) ! i))"
    proof (intro allI impI)
      fix i assume i: "i < Suc k"
      show "score ((a # as) ! i) = win_score sc (s + i) (choice_of ((a # as) ! i))"
      proof (cases i)
        case 0
        then show ?thesis by (simp add: ch sc_a win_score_def)
      next
        case (Suc j)
        then have "j < k" using i by simp
        then have "score (as ! j) = win_score sc (Suc s + j) (choice_of (as ! j))"
          using as(5) by blast
        then show ?thesis using Suc by simp
      qed
    qed
    show ?thesis
      using tb as(2,4,6) idx scs ch skip val
      by (intro exI [of _ "a # as"]) simp
  next
    case take
    have win: "t \<le> t2" "1 \<le> spn" "spn \<le> 3" "t2 + spn \<le> T"
      using take(1) by (simp_all add: set_windows)
    obtain as where as: "traceback sc (dp_rows sc T (Suc s) k) (Suc s) (t2 + spn) = Inr as"
      "length as = k" "map scriptIdx as = [Suc s..<Suc s + k]"
      "chain sc T (Suc s) (t2 + spn) (map choice_of as)"
      "\<forall>i<k. score (as ! i) = win_score sc (Suc s + i) (choice_of (as ! i))"
      "total64_from sc (Suc s) (map choice_of as) = nxt ! (t2 + spn)"
      using Suc.IH [OF win(4), of "Suc s"] unfolding nxt_def by blast
    define a where
      "a = \<lparr>scriptIdx = s, segStart = int t2, segEnd = int (t2 + spn), score = sc s t2 spn\<rparr>"
    have ch: "choice_of a = Match t2 spn" by (simp add: a_def choice_of_def)
    have sc_a: "score a = sc s t2 spn" by (simp add: a_def)
    have tb: "traceback sc (dp_rows sc T s (Suc k)) s t = Inr (a # as)"
      unfolding rows using inr take(3) as(1) by (simp add: a_def)
    have idx: "map scriptIdx (a # as) = [s..<s + Suc k]"
      using as(3) by (simp add: a_def upt_conv_Cons)
    have scs: "\<forall>i<Suc k. score ((a # as) ! i) = win_score sc (s + i) (choice_of ((a # as) ! i))"
    proof (intro allI impI)
      fix i assume i: "i < Suc k"
      show "score ((a # as) ! i) = win_score sc (s + i) (choice_of ((a # as) ! i))"
      proof (cases i)
        case 0
        then show ?thesis by (simp add: ch sc_a win_score_def)
      next
        case (Suc j)
        then have "j < k" using i by simp
        then have "score (as ! j) = win_score sc (Suc s + j) (choice_of (as ! j))"
          using as(5) by blast
        then show ?thesis using Suc by simp
      qed
    qed
    show ?thesis
      using tb as(2,4,6) idx scs ch take(2,3) val win
      by (intro exI [of _ "a # as"]) simp
  qed
qed



lemma compatible_after:
  assumes "compatible (Match t2 sp) (Match t2' sp')" and "1 \<le> sp'"
  shows "t2 + sp \<le> t2'"
proof (rule ccontr)
  assume "\<not> t2 + sp \<le> t2'"
  moreover have both: "t2 \<le> t2' \<and> {t2..<t2 + sp} \<inter> {t2'..<t2' + sp'} = {}"
    using assms(1) by (simp only: compatible_def choice.case)
  ultimately have "t2' \<in> {t2..<t2 + sp} \<inter> {t2'..<t2' + sp'}"
    using assms(2) by simp
  then show False using both by blast
qed

lemma after_compatible: "t2 + sp \<le> t2' \<Longrightarrow> compatible (Match t2 sp) (Match t2' sp')"
  by (auto simp: compatible_def)



lemma chain_bounds:
  "chain sc T s t cs \<Longrightarrow>
     (\<forall>i<length cs. window_ok sc T (s + i) (cs ! i)
         \<and> (\<forall>t2 sp. cs ! i = Match t2 sp \<longrightarrow> t \<le> t2))
     \<and> (\<forall>j<length cs. \<forall>i<j. compatible (cs ! i) (cs ! j))"
proof (induction sc T s t cs rule: chain.induct)
  case (1 sc T s t)
  then show ?case by simp
next
  case (2 sc T s t cs)
  then have IH: "\<forall>i<length cs. window_ok sc T (Suc s + i) (cs ! i)
         \<and> (\<forall>t2 sp. cs ! i = Match t2 sp \<longrightarrow> t \<le> t2)"
    "\<forall>j<length cs. \<forall>i<j. compatible (cs ! i) (cs ! j)"
    by simp_all
  have a: "\<forall>i<length (Skip # cs). window_ok sc T (s + i) ((Skip # cs) ! i)
         \<and> (\<forall>t2 sp. (Skip # cs) ! i = Match t2 sp \<longrightarrow> t \<le> t2)"
  proof (intro allI impI)
    fix i assume "i < length (Skip # cs)"
    then show "window_ok sc T (s + i) ((Skip # cs) ! i)
         \<and> (\<forall>t2 sp. (Skip # cs) ! i = Match t2 sp \<longrightarrow> t \<le> t2)"
      using IH(1) by (cases i) (simp_all add: window_ok_def)
  qed
  have b: "\<forall>j<length (Skip # cs). \<forall>i<j. compatible ((Skip # cs) ! i) ((Skip # cs) ! j)"
  proof (intro allI impI)
    fix j i assume "j < length (Skip # cs)" "i < j"
    then show "compatible ((Skip # cs) ! i) ((Skip # cs) ! j)"
      using IH(2) by (cases j; cases i) (simp_all add: compatible_def)
  qed
  show ?case using a b by blast
next
  case (3 sc T s t t2 spn cs)
  then have w: "t \<le> t2" "1 \<le> spn" "spn \<le> 3" "t2 + spn \<le> T" "rnd 0.15 \<le> sc s t2 spn"
    and rest: "chain sc T (Suc s) (t2 + spn) cs"
    by simp_all
  have IH: "\<forall>i<length cs. window_ok sc T (Suc s + i) (cs ! i)
         \<and> (\<forall>u sp. cs ! i = Match u sp \<longrightarrow> t2 + spn \<le> u)"
    "\<forall>j<length cs. \<forall>i<j. compatible (cs ! i) (cs ! j)"
    using 3(1) [OF rest] by simp_all
  have a: "\<forall>i<length (Match t2 spn # cs). window_ok sc T (s + i) ((Match t2 spn # cs) ! i)
         \<and> (\<forall>u sp. (Match t2 spn # cs) ! i = Match u sp \<longrightarrow> t \<le> u)"
  proof (intro allI impI)
    fix i assume i: "i < length (Match t2 spn # cs)"
    show "window_ok sc T (s + i) ((Match t2 spn # cs) ! i)
         \<and> (\<forall>u sp. (Match t2 spn # cs) ! i = Match u sp \<longrightarrow> t \<le> u)"
    proof (cases i)
      case 0
      then show ?thesis using w by (simp add: window_ok_def)
    next
      case (Suc k)
      then have "k < length cs" using i by simp
      then have "window_ok sc T (Suc s + k) (cs ! k)"
        and "\<forall>u sp. cs ! k = Match u sp \<longrightarrow> t2 + spn \<le> u"
        using IH(1) by simp_all
      then show ?thesis using Suc w(1) by fastforce
    qed
  qed
  have b: "\<forall>j<length (Match t2 spn # cs). \<forall>i<j.
      compatible ((Match t2 spn # cs) ! i) ((Match t2 spn # cs) ! j)"
  proof (intro allI impI)
    fix j i assume j: "j < length (Match t2 spn # cs)" and ij: "i < j"
    obtain k where k: "j = Suc k" using ij by (cases j) simp_all
    then have kl: "k < length cs" using j by simp
    show "compatible ((Match t2 spn # cs) ! i) ((Match t2 spn # cs) ! j)"
    proof (cases i)
      case 0
      show ?thesis
      proof (cases "cs ! k")
        case Skip
        then show ?thesis using 0 k by (simp add: compatible_def)
      next
        case (Match u sp)
        then have "t2 + spn \<le> u" using IH(1) kl by blast
        then have "compatible (Match t2 spn) (Match u sp)" by (rule after_compatible)
        then show ?thesis using 0 k Match by simp
      qed
    next
      case (Suc i')
      then have "i' < k" using ij k by simp
      then have "compatible (cs ! i') (cs ! k)" using IH(2) kl by blast
      then show ?thesis using Suc k by simp
    qed
  qed
  show ?case using a b by blast
qed




text \<open>
  The scores of the windows for the script lines \<^verbatim>\<open>a b\<close> and \<^verbatim>\<open>a c a a\<close> against the segments
  \<^verbatim>\<open>a c\<close> and \<^verbatim>\<open>a d\<close>, each with the certificates of its roundings, the two rows of the
  table, and the assignment produced.
\<close>

lemma opt_pair_0_exact:
  "jaccard [''a'', ''b''] [''a'', ''c''] = 1 / 3"
  "lcsRatio [''a'', ''b''] [''a'', ''c''] = 1 / 2"
  "order_pairs [''a'', ''b''] [''a'', ''c''] = [(0, 0)]"
  by code_simp+

lemma rnd_val_1: "rnd (1 / 3) = 6004799503160661 / 18014398509481984"
  using rnd_cert [of 54 "1 / 3" 6004799503160661] by simp

lemma rnd_val_2: "rnd (1 / 2) = 1 / 2"
  using rnd_cert [of 53 "1 / 2" 4503599627370496] by simp

lemma rnd_val_3: "rnd (3602879701896397 / 36028797018963968) = 3602879701896397 / 36028797018963968"
  using rnd_cert [of 56 "3602879701896397 / 36028797018963968" 7205759403792794] by simp

lemma rnd_val_4: "rnd (18930248963408223477217620848367 / 162259276829213363391578010288128) = 8406719304424925 / 72057594037927936"
  using rnd_cert [of 56 "18930248963408223477217620848367 / 162259276829213363391578010288128" 8406719304424925] by simp

lemma rnd_val_5: "rnd (8106479329266893 / 36028797018963968) = 8106479329266893 / 36028797018963968"
  using rnd_cert [of 55 "8106479329266893 / 36028797018963968" 8106479329266893] by simp

lemma rnd_val_6: "rnd (24619677962958711 / 72057594037927936) = 3077459745369839 / 9007199254740992"
  using rnd_cert [of 54 "24619677962958711 / 72057594037927936" 6154919490739678] by simp

lemma rnd_val_7: "rnd (15912718683375753 / 36028797018963968) = 1989089835421969 / 4503599627370496"
  using rnd_cert_tie [of 54 "15912718683375753 / 36028797018963968" 7956359341687876] by simp

lemma opt_pair_0:
  "combinedScore64 [''a'', ''b''] [''a'', ''c'']
     = 1989089835421969 / 4503599627370496"
proof -
  have j: "jaccard64 [''a'', ''b''] [''a'', ''c''] = 6004799503160661 / 18014398509481984"
    by (simp add: jaccard64_rnd opt_pair_0_exact rnd_0 rnd_val_1)
  have l: "lcsRatio64 [''a'', ''b''] [''a'', ''c''] = 1 / 2"
    by (simp add: lcsRatio64_rnd opt_pair_0_exact rnd_0 rnd_val_2)
  have ord: "wordOrderScore64 [''a'', ''b''] [''a'', ''c''] = 1 / 2"
    by (simp add: wordOrderScore64_def order_pairs64_rnd opt_pair_0_exact Let_def
        fadd_def fsub_def fdiv_def rnd_0 rnd_minus )
  show ?thesis
    by (simp add: combinedScore64_def Let_def j l ord fadd_def fmul_def rnd_0
        rnd_val_3 rnd_val_4 rnd_020 rnd_val_5 rnd_val_6 rnd_035 rnd_val_7 rnd_045)
qed

lemma opt_score_0_0_1:
  "score_table [[''a'', ''b''], [''a'', ''c'', ''a'', ''a'']]
     [\<lparr>seg_start = 0, seg_end = 1, seg_text = ''a c'', seg_words = None\<rparr>,
      \<lparr>seg_start = 1, seg_end = 2, seg_text = ''a d'', seg_words = None\<rparr>] 0 0 1
   = 1989089835421969 / 4503599627370496"
proof -
  have a: "[[''a'', ''b''], [''a'', ''c'', ''a'', ''a'']] ! 0 = [''a'', ''b'']" by simp
  have w: "tokenize (js_join '' '' (map seg_text (slice_list 0 (0 + 1)
     [\<lparr>seg_start = 0, seg_end = 1, seg_text = ''a c'', seg_words = None\<rparr>,
      \<lparr>seg_start = 1, seg_end = 2, seg_text = ''a d'', seg_words = None\<rparr>]))) = [''a'', ''c'']"
    by code_simp
  show ?thesis
    unfolding score_table_def scoreMultiSegment_def Let_def a w by (rule opt_pair_0)
qed

lemma opt_pair_1_exact:
  "jaccard [''a'', ''b''] [''a'', ''c'', ''a'', ''d''] = 1 / 4"
  "lcsRatio [''a'', ''b''] [''a'', ''c'', ''a'', ''d''] = 1 / 4"
  "order_pairs [''a'', ''b''] [''a'', ''c'', ''a'', ''d''] = [(0, 0)]"
  by code_simp+

lemma rnd_val_8: "rnd (1 / 4) = 1 / 4"
  using rnd_cert [of 54 "1 / 4" 4503599627370496] by simp

lemma rnd_val_9: "rnd (3152519739159347 / 36028797018963968) = 3152519739159347 / 36028797018963968"
  using rnd_cert [of 56 "3152519739159347 / 36028797018963968" 6305039478318694] by simp

lemma rnd_val_10: "rnd (8106479329266893 / 72057594037927936) = 8106479329266893 / 72057594037927936"
  using rnd_cert [of 56 "8106479329266893 / 72057594037927936" 8106479329266893] by simp

lemma rnd_val_11: "rnd (14411518807585587 / 72057594037927936) = 3602879701896397 / 18014398509481984"
  using rnd_cert_tie [of 55 "14411518807585587 / 72057594037927936" 7205759403792794] by simp

lemma rnd_val_12: "rnd (10808639105689191 / 36028797018963968) = 1351079888211149 / 4503599627370496"
  using rnd_cert_tie [of 54 "10808639105689191 / 36028797018963968" 5404319552844596] by simp

lemma opt_pair_1:
  "combinedScore64 [''a'', ''b''] [''a'', ''c'', ''a'', ''d'']
     = 1351079888211149 / 4503599627370496"
proof -
  have j: "jaccard64 [''a'', ''b''] [''a'', ''c'', ''a'', ''d''] = 1 / 4"
    by (simp add: jaccard64_rnd opt_pair_1_exact rnd_0 rnd_val_8)
  have l: "lcsRatio64 [''a'', ''b''] [''a'', ''c'', ''a'', ''d''] = 1 / 4"
    by (simp add: lcsRatio64_rnd opt_pair_1_exact rnd_0 rnd_val_8)
  have ord: "wordOrderScore64 [''a'', ''b''] [''a'', ''c'', ''a'', ''d''] = 1 / 2"
    by (simp add: wordOrderScore64_def order_pairs64_rnd opt_pair_1_exact Let_def
        fadd_def fsub_def fdiv_def rnd_0 rnd_minus )
  show ?thesis
    by (simp add: combinedScore64_def Let_def j l ord fadd_def fmul_def rnd_0
        rnd_val_9 rnd_val_3 rnd_val_10 rnd_val_11 rnd_020 rnd_val_12 rnd_035 rnd_045)
qed

lemma opt_score_0_0_2:
  "score_table [[''a'', ''b''], [''a'', ''c'', ''a'', ''a'']]
     [\<lparr>seg_start = 0, seg_end = 1, seg_text = ''a c'', seg_words = None\<rparr>,
      \<lparr>seg_start = 1, seg_end = 2, seg_text = ''a d'', seg_words = None\<rparr>] 0 0 2
   = 1351079888211149 / 4503599627370496"
proof -
  have a: "[[''a'', ''b''], [''a'', ''c'', ''a'', ''a'']] ! 0 = [''a'', ''b'']" by simp
  have w: "tokenize (js_join '' '' (map seg_text (slice_list 0 (0 + 2)
     [\<lparr>seg_start = 0, seg_end = 1, seg_text = ''a c'', seg_words = None\<rparr>,
      \<lparr>seg_start = 1, seg_end = 2, seg_text = ''a d'', seg_words = None\<rparr>]))) = [''a'', ''c'', ''a'', ''d'']"
    by code_simp
  show ?thesis
    unfolding score_table_def scoreMultiSegment_def Let_def a w by (rule opt_pair_1)
qed

lemma opt_pair_2_exact:
  "jaccard [''a'', ''b''] [''a'', ''d''] = 1 / 3"
  "lcsRatio [''a'', ''b''] [''a'', ''d''] = 1 / 2"
  "order_pairs [''a'', ''b''] [''a'', ''d''] = [(0, 0)]"
  by code_simp+

lemma opt_pair_2:
  "combinedScore64 [''a'', ''b''] [''a'', ''d'']
     = 1989089835421969 / 4503599627370496"
proof -
  have j: "jaccard64 [''a'', ''b''] [''a'', ''d''] = 6004799503160661 / 18014398509481984"
    by (simp add: jaccard64_rnd opt_pair_2_exact rnd_0 rnd_val_1)
  have l: "lcsRatio64 [''a'', ''b''] [''a'', ''d''] = 1 / 2"
    by (simp add: lcsRatio64_rnd opt_pair_2_exact rnd_0 rnd_val_2)
  have ord: "wordOrderScore64 [''a'', ''b''] [''a'', ''d''] = 1 / 2"
    by (simp add: wordOrderScore64_def order_pairs64_rnd opt_pair_2_exact Let_def
        fadd_def fsub_def fdiv_def rnd_0 rnd_minus )
  show ?thesis
    by (simp add: combinedScore64_def Let_def j l ord fadd_def fmul_def rnd_0
        rnd_val_3 rnd_val_4 rnd_020 rnd_val_5 rnd_val_6 rnd_035 rnd_val_7 rnd_045)
qed

lemma opt_score_0_1_1:
  "score_table [[''a'', ''b''], [''a'', ''c'', ''a'', ''a'']]
     [\<lparr>seg_start = 0, seg_end = 1, seg_text = ''a c'', seg_words = None\<rparr>,
      \<lparr>seg_start = 1, seg_end = 2, seg_text = ''a d'', seg_words = None\<rparr>] 0 1 1
   = 1989089835421969 / 4503599627370496"
proof -
  have a: "[[''a'', ''b''], [''a'', ''c'', ''a'', ''a'']] ! 0 = [''a'', ''b'']" by simp
  have w: "tokenize (js_join '' '' (map seg_text (slice_list 1 (1 + 1)
     [\<lparr>seg_start = 0, seg_end = 1, seg_text = ''a c'', seg_words = None\<rparr>,
      \<lparr>seg_start = 1, seg_end = 2, seg_text = ''a d'', seg_words = None\<rparr>]))) = [''a'', ''d'']"
    by code_simp
  show ?thesis
    unfolding score_table_def scoreMultiSegment_def Let_def a w by (rule opt_pair_2)
qed

lemma opt_pair_3_exact:
  "jaccard [''a'', ''c'', ''a'', ''a''] [''a'', ''c''] = 1"
  "lcsRatio [''a'', ''c'', ''a'', ''a''] [''a'', ''c''] = 1 / 2"
  "order_pairs [''a'', ''c'', ''a'', ''a''] [''a'', ''c''] = [(0, 0), (1 / 3, 1)]"
  by code_simp+

lemma rnd_val_13: "rnd (3002399751580331 / 9007199254740992) = 3002399751580331 / 9007199254740992"
  using rnd_cert [of 54 "3002399751580331 / 9007199254740992" 6004799503160662] by simp

lemma rnd_val_14: "rnd (6004799503160661 / 9007199254740992) = 6004799503160661 / 9007199254740992"
  using rnd_cert [of 53 "6004799503160661 / 9007199254740992" 6004799503160661] by simp

lemma rnd_val_15: "rnd (12009599006321323 / 18014398509481984) = 3002399751580331 / 4503599627370496"
  using rnd_cert_tie [of 53 "12009599006321323 / 18014398509481984" 6004799503160662] by simp

lemma rnd_val_16: "rnd (3002399751580331 / 4503599627370496) = 3002399751580331 / 4503599627370496"
  using rnd_cert [of 53 "3002399751580331 / 4503599627370496" 6004799503160662] by simp

lemma rnd_val_17: "rnd (21634570243895115118877068038417 / 162259276829213363391578010288128) = 4803839602528529 / 36028797018963968"
  using rnd_cert [of 55 "21634570243895115118877068038417 / 162259276829213363391578010288128" 4803839602528529] by simp

lemma rnd_val_18: "rnd (20716558285904281 / 36028797018963968) = 2589569785738035 / 4503599627370496"
  using rnd_cert [of 53 "20716558285904281 / 36028797018963968" 5179139571476070] by simp

lemma rnd_val_19: "rnd (25520397888432809 / 36028797018963968) = 3190049736054101 / 4503599627370496"
  using rnd_cert [of 53 "25520397888432809 / 36028797018963968" 6380099472108202] by simp

lemma opt_pair_3:
  "combinedScore64 [''a'', ''c'', ''a'', ''a''] [''a'', ''c'']
     = 3190049736054101 / 4503599627370496"
proof -
  have j: "jaccard64 [''a'', ''c'', ''a'', ''a''] [''a'', ''c''] = 1"
    by (simp add: jaccard64_rnd opt_pair_3_exact rnd_0 rnd_1)
  have l: "lcsRatio64 [''a'', ''c'', ''a'', ''a''] [''a'', ''c''] = 1 / 2"
    by (simp add: lcsRatio64_rnd opt_pair_3_exact rnd_0 rnd_val_2)
  have ord: "wordOrderScore64 [''a'', ''c'', ''a'', ''a''] [''a'', ''c''] = 6004799503160661 / 9007199254740992"
    by (simp add: wordOrderScore64_def order_pairs64_rnd opt_pair_3_exact Let_def
        fadd_def fsub_def fdiv_def rnd_0 rnd_minus rnd_val_1 rnd_val_13 rnd_val_14 rnd_val_15 rnd_val_16 rnd_1)
  show ?thesis
    by (simp add: combinedScore64_def Let_def j l ord fadd_def fmul_def rnd_0
        rnd_val_17 rnd_020 rnd_val_5 rnd_weight_035 rnd_035 rnd_045 rnd_val_18 rnd_val_19)
qed

lemma opt_score_1_0_1:
  "score_table [[''a'', ''b''], [''a'', ''c'', ''a'', ''a'']]
     [\<lparr>seg_start = 0, seg_end = 1, seg_text = ''a c'', seg_words = None\<rparr>,
      \<lparr>seg_start = 1, seg_end = 2, seg_text = ''a d'', seg_words = None\<rparr>] 1 0 1
   = 3190049736054101 / 4503599627370496"
proof -
  have a: "[[''a'', ''b''], [''a'', ''c'', ''a'', ''a'']] ! 1 = [''a'', ''c'', ''a'', ''a'']" by simp
  have w: "tokenize (js_join '' '' (map seg_text (slice_list 0 (0 + 1)
     [\<lparr>seg_start = 0, seg_end = 1, seg_text = ''a c'', seg_words = None\<rparr>,
      \<lparr>seg_start = 1, seg_end = 2, seg_text = ''a d'', seg_words = None\<rparr>]))) = [''a'', ''c'']"
    by code_simp
  show ?thesis
    unfolding score_table_def scoreMultiSegment_def Let_def a w by (rule opt_pair_3)
qed

lemma opt_pair_4_exact:
  "jaccard [''a'', ''c'', ''a'', ''a''] [''a'', ''c'', ''a'', ''d''] = 2 / 3"
  "lcsRatio [''a'', ''c'', ''a'', ''a''] [''a'', ''c'', ''a'', ''d''] = 3 / 4"
  "order_pairs [''a'', ''c'', ''a'', ''a''] [''a'', ''c'', ''a'', ''d''] = [(0, 0), (1 / 3, 1 / 3)]"
  by code_simp+

lemma rnd_val_20: "rnd (2 / 3) = 6004799503160661 / 9007199254740992"
  using rnd_cert [of 53 "2 / 3" 6004799503160661] by simp

lemma rnd_val_21: "rnd (3 / 4) = 3 / 4"
  using rnd_cert [of 53 "3 / 4" 6755399441055744] by simp

lemma rnd_val_22: "rnd (18930248963408223477217620848367 / 81129638414606681695789005144064) = 8406719304424925 / 36028797018963968"
  using rnd_cert [of 55 "18930248963408223477217620848367 / 81129638414606681695789005144064" 8406719304424925] by simp

lemma rnd_val_23: "rnd (24319437987800679 / 72057594037927936) = 3039929748475085 / 9007199254740992"
  using rnd_cert [of 54 "24319437987800679 / 72057594037927936" 6079859496950170] by simp

lemma rnd_val_24: "rnd (20566438298325265 / 36028797018963968) = 1285402393645329 / 2251799813685248"
  using rnd_cert [of 53 "20566438298325265 / 36028797018963968" 5141609574581316] by simp

lemma rnd_val_25: "rnd (13886098851059029 / 18014398509481984) = 3471524712764757 / 4503599627370496"
  using rnd_cert_tie [of 53 "13886098851059029 / 18014398509481984" 6943049425529514] by simp

lemma opt_pair_4:
  "combinedScore64 [''a'', ''c'', ''a'', ''a''] [''a'', ''c'', ''a'', ''d'']
     = 3471524712764757 / 4503599627370496"
proof -
  have j: "jaccard64 [''a'', ''c'', ''a'', ''a''] [''a'', ''c'', ''a'', ''d''] = 6004799503160661 / 9007199254740992"
    by (simp add: jaccard64_rnd opt_pair_4_exact rnd_0 rnd_val_20)
  have l: "lcsRatio64 [''a'', ''c'', ''a'', ''a''] [''a'', ''c'', ''a'', ''d''] = 3 / 4"
    by (simp add: lcsRatio64_rnd opt_pair_4_exact rnd_0 rnd_val_21)
  have ord: "wordOrderScore64 [''a'', ''c'', ''a'', ''a''] [''a'', ''c'', ''a'', ''d''] = 1"
    by (simp add: wordOrderScore64_def order_pairs64_rnd opt_pair_4_exact Let_def
        fadd_def fsub_def fdiv_def rnd_0 rnd_minus rnd_val_1 rnd_1)
  show ?thesis
    by (simp add: combinedScore64_def Let_def j l ord fadd_def fmul_def rnd_0
        rnd_020 rnd_weight_020 rnd_val_22 rnd_val_23 rnd_035 rnd_045 rnd_val_24 rnd_val_25)
qed

lemma opt_score_1_0_2:
  "score_table [[''a'', ''b''], [''a'', ''c'', ''a'', ''a'']]
     [\<lparr>seg_start = 0, seg_end = 1, seg_text = ''a c'', seg_words = None\<rparr>,
      \<lparr>seg_start = 1, seg_end = 2, seg_text = ''a d'', seg_words = None\<rparr>] 1 0 2
   = 3471524712764757 / 4503599627370496"
proof -
  have a: "[[''a'', ''b''], [''a'', ''c'', ''a'', ''a'']] ! 1 = [''a'', ''c'', ''a'', ''a'']" by simp
  have w: "tokenize (js_join '' '' (map seg_text (slice_list 0 (0 + 2)
     [\<lparr>seg_start = 0, seg_end = 1, seg_text = ''a c'', seg_words = None\<rparr>,
      \<lparr>seg_start = 1, seg_end = 2, seg_text = ''a d'', seg_words = None\<rparr>]))) = [''a'', ''c'', ''a'', ''d'']"
    by code_simp
  show ?thesis
    unfolding score_table_def scoreMultiSegment_def Let_def a w by (rule opt_pair_4)
qed

lemma opt_pair_5_exact:
  "jaccard [''a'', ''c'', ''a'', ''a''] [''a'', ''d''] = 1 / 3"
  "lcsRatio [''a'', ''c'', ''a'', ''a''] [''a'', ''d''] = 1 / 4"
  "order_pairs [''a'', ''c'', ''a'', ''a''] [''a'', ''d''] = [(0, 0)]"
  by code_simp+

lemma rnd_val_26: "rnd (8256599316845909 / 36028797018963968) = 8256599316845909 / 36028797018963968"
  using rnd_cert [of 55 "8256599316845909 / 36028797018963968" 8256599316845909] by simp

lemma rnd_val_27: "rnd (5929739509371153 / 18014398509481984) = 5929739509371153 / 18014398509481984"
  using rnd_cert [of 54 "5929739509371153 / 18014398509481984" 5929739509371153] by simp

lemma opt_pair_5:
  "combinedScore64 [''a'', ''c'', ''a'', ''a''] [''a'', ''d'']
     = 5929739509371153 / 18014398509481984"
proof -
  have j: "jaccard64 [''a'', ''c'', ''a'', ''a''] [''a'', ''d''] = 6004799503160661 / 18014398509481984"
    by (simp add: jaccard64_rnd opt_pair_5_exact rnd_0 rnd_val_1)
  have l: "lcsRatio64 [''a'', ''c'', ''a'', ''a''] [''a'', ''d''] = 1 / 4"
    by (simp add: lcsRatio64_rnd opt_pair_5_exact rnd_0 rnd_val_8)
  have ord: "wordOrderScore64 [''a'', ''c'', ''a'', ''a''] [''a'', ''d''] = 1 / 2"
    by (simp add: wordOrderScore64_def order_pairs64_rnd opt_pair_5_exact Let_def
        fadd_def fsub_def fdiv_def rnd_0 rnd_minus )
  show ?thesis
    by (simp add: combinedScore64_def Let_def j l ord fadd_def fmul_def rnd_0
        rnd_val_3 rnd_val_10 rnd_val_4 rnd_020 rnd_val_26 rnd_val_27 rnd_035 rnd_045)
qed

lemma opt_score_1_1_1:
  "score_table [[''a'', ''b''], [''a'', ''c'', ''a'', ''a'']]
     [\<lparr>seg_start = 0, seg_end = 1, seg_text = ''a c'', seg_words = None\<rparr>,
      \<lparr>seg_start = 1, seg_end = 2, seg_text = ''a d'', seg_words = None\<rparr>] 1 1 1
   = 5929739509371153 / 18014398509481984"
proof -
  have a: "[[''a'', ''b''], [''a'', ''c'', ''a'', ''a'']] ! 1 = [''a'', ''c'', ''a'', ''a'']" by simp
  have w: "tokenize (js_join '' '' (map seg_text (slice_list 1 (1 + 1)
     [\<lparr>seg_start = 0, seg_end = 1, seg_text = ''a c'', seg_words = None\<rparr>,
      \<lparr>seg_start = 1, seg_end = 2, seg_text = ''a d'', seg_words = None\<rparr>]))) = [''a'', ''d'']"
    by code_simp
  show ?thesis
    unfolding score_table_def scoreMultiSegment_def Let_def a w by (rule opt_pair_5)
qed

lemma rnd_val_28: "rnd (1351079888211149 / 4503599627370496) = 1351079888211149 / 4503599627370496"
  using rnd_cert [of 54 "1351079888211149 / 4503599627370496" 5404319552844596] by simp

lemma rnd_val_29: "rnd (1989089835421969 / 4503599627370496) = 1989089835421969 / 4503599627370496"
  using rnd_cert [of 54 "1989089835421969 / 4503599627370496" 7956359341687876] by simp

lemma rnd_val_30: "rnd (3190049736054101 / 4503599627370496) = 3190049736054101 / 4503599627370496"
  using rnd_cert [of 53 "3190049736054101 / 4503599627370496" 6380099472108202] by simp

lemma rnd_val_31: "rnd (3471524712764757 / 4503599627370496) = 3471524712764757 / 4503599627370496"
  using rnd_cert [of 53 "3471524712764757 / 4503599627370496" 6943049425529514] by simp

lemma opt_row_0:
  "dp_row (score_table [[''a'', ''b''], [''a'', ''c'', ''a'', ''a'']]
     [\<lparr>seg_start = 0, seg_end = 1, seg_text = ''a c'', seg_words = None\<rparr>,
      \<lparr>seg_start = 1, seg_end = 2, seg_text = ''a d'', seg_words = None\<rparr>] 0)
     [3471524712764757 / 4503599627370496, 5929739509371153 / 18014398509481984, 0] 2
   = [(3471524712764757 / 4503599627370496, Skip),
      (1989089835421969 / 4503599627370496, Match 1 1),
      (0, Skip)]"
  by (simp add: dp_row_def dp_cell_def windows_def spans_at_def MAX_SPAN_def upt_rec dp_try_def
      Let_def fadd_def rnd_0 numeral_2_eq_2 numeral_3_eq_3
      opt_score_0_0_1 [unfolded numeral_2_eq_2 numeral_3_eq_3 One_nat_def]
      opt_score_0_0_2 [unfolded numeral_2_eq_2 numeral_3_eq_3 One_nat_def]
      opt_score_0_1_1 [unfolded numeral_2_eq_2 numeral_3_eq_3 One_nat_def]
      rnd_015 rnd_val_28 rnd_val_27 rnd_val_29 rnd_val_30 rnd_val_31 rnd_val_25)

lemma opt_row_1:
  "dp_row (score_table [[''a'', ''b''], [''a'', ''c'', ''a'', ''a'']]
     [\<lparr>seg_start = 0, seg_end = 1, seg_text = ''a c'', seg_words = None\<rparr>,
      \<lparr>seg_start = 1, seg_end = 2, seg_text = ''a d'', seg_words = None\<rparr>] 1)
     [0, 0, 0] 2
   = [(3471524712764757 / 4503599627370496, Match 0 2),
      (5929739509371153 / 18014398509481984, Match 1 1),
      (0, Skip)]"
  by (simp add: dp_row_def dp_cell_def windows_def spans_at_def MAX_SPAN_def upt_rec dp_try_def
      Let_def fadd_def rnd_0 numeral_2_eq_2 numeral_3_eq_3
      opt_score_1_0_1 [unfolded numeral_2_eq_2 numeral_3_eq_3 One_nat_def]
      opt_score_1_0_2 [unfolded numeral_2_eq_2 numeral_3_eq_3 One_nat_def]
      opt_score_1_1_1 [unfolded numeral_2_eq_2 numeral_3_eq_3 One_nat_def]
      rnd_015 rnd_val_28 rnd_val_27 rnd_val_29 rnd_val_30 rnd_val_31 rnd_val_25)

lemma opt_dpAlign:
  "dpAlign [[''a'', ''b''], [''a'', ''c'', ''a'', ''a'']]
     [\<lparr>seg_start = 0, seg_end = 1, seg_text = ''a c'', seg_words = None\<rparr>,
      \<lparr>seg_start = 1, seg_end = 2, seg_text = ''a d'', seg_words = None\<rparr>]
   = Inr [\<lparr>scriptIdx = 0, segStart = - 1, segEnd = - 1, score = 0\<rparr>,
        \<lparr>scriptIdx = 1, segStart = 0, segEnd = 2,
          score = 3471524712764757 / 4503599627370496\<rparr>]"
  by (simp add: dpAlign_def Let_def
      opt_row_0 [unfolded numeral_2_eq_2 numeral_3_eq_3 One_nat_def]
      opt_row_1 [unfolded numeral_2_eq_2 numeral_3_eq_3 One_nat_def]
      opt_score_0_0_1 [unfolded numeral_2_eq_2 numeral_3_eq_3 One_nat_def]
      opt_score_0_0_2 [unfolded numeral_2_eq_2 numeral_3_eq_3 One_nat_def]
      opt_score_0_1_1 [unfolded numeral_2_eq_2 numeral_3_eq_3 One_nat_def]
      opt_score_1_0_1 [unfolded numeral_2_eq_2 numeral_3_eq_3 One_nat_def]
      opt_score_1_0_2 [unfolded numeral_2_eq_2 numeral_3_eq_3 One_nat_def]
      opt_score_1_1_1 [unfolded numeral_2_eq_2 numeral_3_eq_3 One_nat_def])

lemma opt_alt_feasible:
  "feasible (score_table [[''a'', ''b''], [''a'', ''c'', ''a'', ''a'']]
     [\<lparr>seg_start = 0, seg_end = 1, seg_text = ''a c'', seg_words = None\<rparr>,
      \<lparr>seg_start = 1, seg_end = 2, seg_text = ''a d'', seg_words = None\<rparr>])
     (length [\<lparr>seg_start = 0, seg_end = 1, seg_text = ''a c'', seg_words = None\<rparr>,
      \<lparr>seg_start = 1, seg_end = 2, seg_text = ''a d'', seg_words = None\<rparr>]) [Match 0 1, Match 1 1]"
  by (simp add: feasible_def window_ok_def compatible_def upt_rec numeral_2_eq_2 numeral_3_eq_3
      rnd_015
      opt_score_0_0_1 [unfolded numeral_2_eq_2 numeral_3_eq_3 One_nat_def]
      opt_score_0_0_2 [unfolded numeral_2_eq_2 numeral_3_eq_3 One_nat_def]
      opt_score_0_1_1 [unfolded numeral_2_eq_2 numeral_3_eq_3 One_nat_def]
      opt_score_1_0_1 [unfolded numeral_2_eq_2 numeral_3_eq_3 One_nat_def]
      opt_score_1_0_2 [unfolded numeral_2_eq_2 numeral_3_eq_3 One_nat_def]
      opt_score_1_1_1 [unfolded numeral_2_eq_2 numeral_3_eq_3 One_nat_def])

lemma opt_alt_total:
  "total_score (score_table [[''a'', ''b''], [''a'', ''c'', ''a'', ''a'']]
     [\<lparr>seg_start = 0, seg_end = 1, seg_text = ''a c'', seg_words = None\<rparr>,
      \<lparr>seg_start = 1, seg_end = 2, seg_text = ''a d'', seg_words = None\<rparr>]) [Match 0 1, Match 1 1]
     = 13886098851059029 / 18014398509481984"
  by (simp add: total_score_def win_score_def upt_rec numeral_2_eq_2 numeral_3_eq_3
      opt_score_0_0_1 [unfolded numeral_2_eq_2 numeral_3_eq_3 One_nat_def]
      opt_score_0_0_2 [unfolded numeral_2_eq_2 numeral_3_eq_3 One_nat_def]
      opt_score_0_1_1 [unfolded numeral_2_eq_2 numeral_3_eq_3 One_nat_def]
      opt_score_1_0_1 [unfolded numeral_2_eq_2 numeral_3_eq_3 One_nat_def]
      opt_score_1_0_2 [unfolded numeral_2_eq_2 numeral_3_eq_3 One_nat_def]
      opt_score_1_1_1 [unfolded numeral_2_eq_2 numeral_3_eq_3 One_nat_def])

lemma opt_res_total:
  "total_score (score_table [[''a'', ''b''], [''a'', ''c'', ''a'', ''a'']]
     [\<lparr>seg_start = 0, seg_end = 1, seg_text = ''a c'', seg_words = None\<rparr>,
      \<lparr>seg_start = 1, seg_end = 2, seg_text = ''a d'', seg_words = None\<rparr>]) [Skip, Match 0 2]
     = 3471524712764757 / 4503599627370496"
  by (simp add: total_score_def win_score_def upt_rec numeral_2_eq_2 numeral_3_eq_3
      opt_score_0_0_1 [unfolded numeral_2_eq_2 numeral_3_eq_3 One_nat_def]
      opt_score_0_0_2 [unfolded numeral_2_eq_2 numeral_3_eq_3 One_nat_def]
      opt_score_0_1_1 [unfolded numeral_2_eq_2 numeral_3_eq_3 One_nat_def]
      opt_score_1_0_1 [unfolded numeral_2_eq_2 numeral_3_eq_3 One_nat_def]
      opt_score_1_0_2 [unfolded numeral_2_eq_2 numeral_3_eq_3 One_nat_def]
      opt_score_1_1_1 [unfolded numeral_2_eq_2 numeral_3_eq_3 One_nat_def])

lemma opt_alt_total64:
  "total64 (score_table [[''a'', ''b''], [''a'', ''c'', ''a'', ''a'']]
     [\<lparr>seg_start = 0, seg_end = 1, seg_text = ''a c'', seg_words = None\<rparr>,
      \<lparr>seg_start = 1, seg_end = 2, seg_text = ''a d'', seg_words = None\<rparr>]) [Match 0 1, Match 1 1]
     = 3471524712764757 / 4503599627370496"
  by (simp add: total64_def fadd_def rnd_0 numeral_2_eq_2 numeral_3_eq_3
      opt_score_0_0_1 [unfolded numeral_2_eq_2 numeral_3_eq_3 One_nat_def]
      opt_score_0_0_2 [unfolded numeral_2_eq_2 numeral_3_eq_3 One_nat_def]
      opt_score_0_1_1 [unfolded numeral_2_eq_2 numeral_3_eq_3 One_nat_def]
      opt_score_1_0_1 [unfolded numeral_2_eq_2 numeral_3_eq_3 One_nat_def]
      opt_score_1_0_2 [unfolded numeral_2_eq_2 numeral_3_eq_3 One_nat_def]
      opt_score_1_1_1 [unfolded numeral_2_eq_2 numeral_3_eq_3 One_nat_def]
      rnd_val_27 rnd_val_31 rnd_val_25)

lemma opt_res_total64:
  "total64 (score_table [[''a'', ''b''], [''a'', ''c'', ''a'', ''a'']]
     [\<lparr>seg_start = 0, seg_end = 1, seg_text = ''a c'', seg_words = None\<rparr>,
      \<lparr>seg_start = 1, seg_end = 2, seg_text = ''a d'', seg_words = None\<rparr>]) [Skip, Match 0 2]
     = 3471524712764757 / 4503599627370496"
  by (simp add: total64_def fadd_def rnd_0 numeral_2_eq_2 numeral_3_eq_3
      opt_score_0_0_1 [unfolded numeral_2_eq_2 numeral_3_eq_3 One_nat_def]
      opt_score_0_0_2 [unfolded numeral_2_eq_2 numeral_3_eq_3 One_nat_def]
      opt_score_0_1_1 [unfolded numeral_2_eq_2 numeral_3_eq_3 One_nat_def]
      opt_score_1_0_1 [unfolded numeral_2_eq_2 numeral_3_eq_3 One_nat_def]
      opt_score_1_0_2 [unfolded numeral_2_eq_2 numeral_3_eq_3 One_nat_def]
      opt_score_1_1_1 [unfolded numeral_2_eq_2 numeral_3_eq_3 One_nat_def]
      rnd_val_27 rnd_val_31 rnd_val_25)

text \<open>
  Claim C1, as stated: the assignment produced maximizes the total matched score, the sum
  of the scores of the matched lines. With the script lines \<^verbatim>\<open>a b\<close> and \<^verbatim>\<open>a c a a\<close> and the
  segments \<^verbatim>\<open>a c\<close> and \<^verbatim>\<open>a d\<close> the aligner skips the first line and matches the second to
  both segments. Matching the first line to the first segment and the second line to the
  second segment is also allowed, and the sum of its two scores is larger, by \<^verbatim>\<open>2^-54\<close>: in
  binary64 that sum rounds to the score of the two-segment window, and the aligner
  replaces its choice only for a strictly larger total.
\<close>

theorem dpAlign_optimal_counterexample:
  "\<exists>as cs. dpAlign [[''a'', ''b''], [''a'', ''c'', ''a'', ''a'']]
       [\<lparr>seg_start = 0, seg_end = 1, seg_text = ''a c'', seg_words = None\<rparr>,
        \<lparr>seg_start = 1, seg_end = 2, seg_text = ''a d'', seg_words = None\<rparr>] = Inr as
     \<and> length cs = length [[''a'', ''b''], [''a'', ''c'', ''a'', ''a'']]
     \<and> feasible (score_table [[''a'', ''b''], [''a'', ''c'', ''a'', ''a'']]
       [\<lparr>seg_start = 0, seg_end = 1, seg_text = ''a c'', seg_words = None\<rparr>,
        \<lparr>seg_start = 1, seg_end = 2, seg_text = ''a d'', seg_words = None\<rparr>])
       (length [\<lparr>seg_start = 0, seg_end = 1, seg_text = ''a c'', seg_words = None\<rparr>,
        \<lparr>seg_start = 1, seg_end = 2, seg_text = ''a d'', seg_words = None\<rparr>]) cs
     \<and> total_score (score_table [[''a'', ''b''], [''a'', ''c'', ''a'', ''a'']]
       [\<lparr>seg_start = 0, seg_end = 1, seg_text = ''a c'', seg_words = None\<rparr>,
        \<lparr>seg_start = 1, seg_end = 2, seg_text = ''a d'', seg_words = None\<rparr>])
          (map choice_of as)
       < total_score (score_table [[''a'', ''b''], [''a'', ''c'', ''a'', ''a'']]
       [\<lparr>seg_start = 0, seg_end = 1, seg_text = ''a c'', seg_words = None\<rparr>,
        \<lparr>seg_start = 1, seg_end = 2, seg_text = ''a d'', seg_words = None\<rparr>]) cs"
proof -
  let ?sts = "[[''a'', ''b''], [''a'', ''c'', ''a'', ''a'']]"
  let ?segs = "[\<lparr>seg_start = 0, seg_end = 1, seg_text = ''a c'', seg_words = None\<rparr>,
        \<lparr>seg_start = 1, seg_end = 2, seg_text = ''a d'', seg_words = None\<rparr>]"
  let ?as = "[\<lparr>scriptIdx = 0, segStart = - 1, segEnd = - 1, score = 0\<rparr>,
        \<lparr>scriptIdx = 1, segStart = 0, segEnd = 2,
          score = 3471524712764757 / 4503599627370496\<rparr>]"
  have ch: "map choice_of ?as = [Skip, Match 0 2]"
    by (simp add: choice_of_def)
  have "total_score (score_table ?sts ?segs) (map choice_of ?as)
      < total_score (score_table ?sts ?segs) [Match 0 1, Match 1 1]"
    unfolding ch opt_alt_total opt_res_total by simp
  moreover have "feasible (score_table ?sts ?segs) (length ?segs) [Match 0 1, Match 1 1]"
    by (rule opt_alt_feasible)
  ultimately show ?thesis
    using opt_dpAlign by (intro exI [of _ ?as] exI [of _ "[Match 0 1, Match 1 1]"]) simp
qed


subsection \<open>The public operation: failure and success\<close>

lemma trimToWords_total: "\<exists>ts te. trimToWords line segs = Inr (ts, te)"
proof (cases segs)
  case Nil
  then show ?thesis by (simp add: trimToWords_def Let_def)
next
  case (Cons seg rest)
  then show ?thesis by (simp add: trimToWords_def Let_def)
qed

lemma build_entry_skip:
  "segStart a < 0 \<Longrightarrow>
     build_entry lines segs a =
       Inr \<lparr>scriptIndex = scriptIdx a, scriptLine = lines ! scriptIdx a, matchedSegments = [],
            matchedText = [], trimmedStart = None, trimmedEnd = None,
            confidence = 0, status = Unmatched\<rparr>"
  by (simp add: build_entry_def Let_def)

lemma build_entry_match:
  assumes "\<not> segStart a < 0"
    and "trimToWords (lines ! scriptIdx a) (slice_list (nat (segStart a)) (nat (segEnd a)) segs)
           = Inr (ts, te)"
  shows "build_entry lines segs a =
       Inr \<lparr>scriptIndex = scriptIdx a, scriptLine = lines ! scriptIdx a,
            matchedSegments = [nat (segStart a)..<nat (segEnd a)],
            matchedText = js_join '' '' (map seg_text (slice_list (nat (segStart a)) (nat (segEnd a)) segs)),
            trimmedStart = Some ts, trimmedEnd = Some te,
            confidence = round3 (score a), status = status_of (score a)\<rparr>"
  using assms by (simp add: build_entry_def Let_def)

lemma build_entry_total: "\<exists>e. build_entry lines segs a = Inr e"
proof (cases "segStart a < 0")
  case True
  then show ?thesis by (simp add: build_entry_skip)
next
  case False
  obtain ts te where
    "trimToWords (lines ! scriptIdx a) (slice_list (nat (segStart a)) (nat (segEnd a)) segs) = Inr (ts, te)"
    using trimToWords_total by blast
  then show ?thesis using False by (simp add: build_entry_match)
qed

lemma collect_total:
  "(\<And>x. x \<in> set xs \<Longrightarrow> \<exists>y. f x = Inr y) \<Longrightarrow>
     \<exists>ys. collect (map f xs) = Inr ys \<and> length ys = length xs
        \<and> (\<forall>i<length xs. f (xs ! i) = Inr (ys ! i))"
proof (induction xs)
  case Nil
  then show ?case by simp
next
  case (Cons x xs)
  obtain y where y: "f x = Inr y" using Cons.prems by auto
  obtain ys where ys: "collect (map f xs) = Inr ys" "length ys = length xs"
      "\<forall>i<length xs. f (xs ! i) = Inr (ys ! i)"
    using Cons by auto
  have "\<forall>i<length (x # xs). f ((x # xs) ! i) = Inr ((y # ys) ! i)"
  proof (intro allI impI)
    fix i assume "i < length (x # xs)"
    then show "f ((x # xs) ! i) = Inr ((y # ys) ! i)"
      using y ys(3) by (cases i) simp_all
  qed
  then show ?case using y ys by (intro exI [of _ "y # ys"]) simp
qed

lemma traceback_shape:
  "traceback sc rows s t = Inr as \<Longrightarrow> a \<in> set as \<Longrightarrow>
     (segStart a = - 1 \<and> segEnd a = - 1)
     \<or> (\<exists>t2 spn. segStart a = int t2 \<and> segEnd a = int (t2 + spn))"
proof (induction sc rows s t arbitrary: as rule: traceback.induct)
  case (1 sc s t)
  then show ?case by simp
next
  case (2 sc row rows s t)
  show ?case
  proof (cases "t < length row")
    case False
    then show ?thesis using "2.prems" by simp
  next
    case inr: True
    show ?thesis
    proof (cases "snd (row ! t)")
      case Skip
      then obtain as' where as': "traceback sc rows (Suc s) t = Inr as'"
        and eq: "as = \<lparr>scriptIdx = s, segStart = - 1, segEnd = - 1, score = 0\<rparr> # as'"
        using "2.prems"(1) inr by (auto split: sum.splits)
      show ?thesis
      proof (cases "a \<in> set as'")
        case True
        then show ?thesis using "2.IH"(1) [OF inr Skip as'] by simp
      next
        case False
        then show ?thesis using "2.prems"(2) eq by auto
      qed
    next
      case (Match t2 spn)
      then obtain as' where as': "traceback sc rows (Suc s) (t2 + spn) = Inr as'"
        and eq: "as = \<lparr>scriptIdx = s, segStart = int t2, segEnd = int (t2 + spn),
                        score = sc s t2 spn\<rparr> # as'"
        using "2.prems"(1) inr by (auto split: sum.splits)
      show ?thesis
      proof (cases "a \<in> set as'")
        case True
        then show ?thesis using "2.IH"(2) [OF inr Match as'] by simp
      next
        case False
        then have "segStart a = int t2 \<and> segEnd a = int (t2 + spn)"
          using "2.prems"(2) eq by auto
        then show ?thesis by blast
      qed
    qed
  qed
qed

lemma dpAlign_props:
  "\<exists>as. dpAlign sts segs = Inr as
      \<and> length as = length sts
      \<and> (\<forall>i<length sts. scriptIdx (as ! i) = i)
      \<and> chain (score_table sts segs) (length segs) 0 0 (map choice_of as)
      \<and> (\<forall>i<length sts. score (as ! i) = win_score (score_table sts segs) i (choice_of (as ! i)))
      \<and> (\<forall>a\<in>set as. (segStart a = - 1 \<and> segEnd a = - 1)
            \<or> (\<exists>t2 spn. segStart a = int t2 \<and> segEnd a = int (t2 + spn)))"
proof -
  define sc where "sc = score_table sts segs"
  define T where "T = length segs"
  obtain as where as: "traceback sc (dp_rows sc T 0 (length sts)) 0 0 = Inr as"
    "length as = length sts" "map scriptIdx as = [0..<0 + length sts]"
    "chain sc T 0 0 (map choice_of as)"
    "\<forall>i<length sts. score (as ! i) = win_score sc (0 + i) (choice_of (as ! i))"
    using traceback_attains [of 0 T sc 0 "length sts"] by auto
  have run: "dpAlign sts segs = Inr as"
    using as(1) by (simp add: dpAlign_def Let_def sc_def T_def)
  have idx: "\<forall>i<length sts. scriptIdx (as ! i) = i"
  proof (intro allI impI)
    fix i assume i: "i < length sts"
    then have "map scriptIdx as ! i = [0..<0 + length sts] ! i" using as(3) by simp
    then show "scriptIdx (as ! i) = i" using i as(2) by simp
  qed
  have shape: "\<forall>a\<in>set as. (segStart a = - 1 \<and> segEnd a = - 1)
            \<or> (\<exists>t2 spn. segStart a = int t2 \<and> segEnd a = int (t2 + spn))"
    using traceback_shape [OF as(1)] by blast
  show ?thesis
    using run as(2) idx as(4) as(5) shape unfolding sc_def T_def by auto
qed

lemma align_success:
  assumes "tr = Some t" and "tr_segments t = Some segs"
    and "text \<noteq> []" and "segs \<noteq> []" and "splitScriptIntoLines text \<noteq> []"
  shows "\<exists>as es.
      dpAlign (map tokenize (splitScriptIntoLines text)) segs = Inr as
      \<and> length as = length (splitScriptIntoLines text)
      \<and> length es = length (splitScriptIntoLines text)
      \<and> (\<forall>i<length (splitScriptIntoLines text).
            build_entry (splitScriptIntoLines text) segs (as ! i) = Inr (es ! i))
      \<and> alignScriptToTranscript text tr =
            Inr \<lparr>entries = es, unusedSegments = unused_of segs es, stats = make_stats es\<rparr>"
proof -
  define lines where "lines = splitScriptIntoLines text"
  obtain as where as: "dpAlign (map tokenize lines) segs = Inr as" "length as = length lines"
    using dpAlign_props [of "map tokenize lines" segs] by auto
  obtain es where es: "collect (map (build_entry lines segs) as) = Inr es"
    "length es = length as" "\<forall>i<length as. build_entry lines segs (as ! i) = Inr (es ! i)"
    using collect_total [of as "build_entry lines segs"] build_entry_total by blast
  have "alignScriptToTranscript text tr =
      Inr \<lparr>entries = es, unusedSegments = unused_of segs es, stats = make_stats es\<rparr>"
    using assms as(1) es(1) by (simp add: alignScriptToTranscript_def Let_def lines_def)
  then show ?thesis using as es unfolding lines_def by auto
qed


lemma align_entries_of_dp:
  assumes "splitScriptIntoLines text = lines" and "lines \<noteq> []" and "text \<noteq> []"
    and "segs \<noteq> []"
    and "dpAlign (map tokenize lines) segs = Inr as"
    and "collect (map (build_entry lines segs) as) = Inr es"
  shows "alignScriptToTranscript text (Some \<lparr>tr_segments = Some segs\<rparr>)
     = Inr \<lparr>entries = es, unusedSegments = unused_of segs es, stats = make_stats es\<rparr>"
  using assms by (simp add: alignScriptToTranscript_def Let_def)

lemma js_split_chars: "p \<in> set (js_split sep s) \<Longrightarrow> set p \<subseteq> set s"
proof (induction s arbitrary: p)
  case Nil
  then show ?case by simp
next
  case (Cons c cs)
  show ?case
  proof (cases "c = sep")
    case True
    then show ?thesis using Cons by auto
  next
    case False
    obtain q qs where q: "js_split sep cs = q # qs"
      by (cases "js_split sep cs") (cases cs; simp split: if_splits list.splits)+
    then have "p = c # q \<or> p \<in> set qs" using Cons.prems False by simp
    then show ?thesis
    proof
      assume "p = c # q"
      moreover have "set q \<subseteq> set cs" using Cons.IH [of q] q by simp
      ultimately show ?thesis by auto
    next
      assume "p \<in> set qs"
      then have "set p \<subseteq> set cs" using Cons.IH [of p] q by simp
      then show ?thesis by auto
    qed
  qed
qed

lemma trim_blank: "\<forall>c\<in>set s. is_space c \<Longrightarrow> trim s = []"
proof -
  assume "\<forall>c\<in>set s. is_space c"
  then have d: "dropWhile is_space s = []" by (simp add: dropWhile_eq_Nil_conv)
  show ?thesis unfolding trim_def d by simp
qed

lemma line_pieces_blank: "\<forall>c\<in>set raw. is_space c \<Longrightarrow> line_pieces raw = []"
  by (simp add: line_pieces_def trim_blank)

lemma split_blank: "\<forall>c\<in>set text. is_space c \<Longrightarrow> splitScriptIntoLines text = []"
proof -
  assume blank: "\<forall>c\<in>set text. is_space c"
  have "line_pieces raw = []" if "raw \<in> set (js_split (CHR 0x0A) text)" for raw
    using js_split_chars [OF that] blank by (intro line_pieces_blank) auto
  then show ?thesis by (simp add: splitScriptIntoLines_def)
qed

lemma invalid_input_iff:
  "invalid_input text tr \<longleftrightarrow>
     text = [] \<or> tr = None \<or> (\<exists>t. tr = Some t \<and> tr_segments t = None)
     \<or> (\<exists>t. tr = Some t \<and> tr_segments t = Some []) \<or> splitScriptIntoLines text = []"
  using split_blank [of "text"]
  by (auto simp: invalid_input_def list_all_iff split: option.splits)

text \<open>
  Claim C3: \<^verbatim>\<open>align(scriptText, transcript)\<close> raises an error if and only if the script
  text is empty or whitespace-only, or the transcript is absent or its segment list is
  missing or empty, or line splitting yields no usable line. In every other case it
  returns a complete result, with one entry per script line; in particular the traceback
  and the trimming never throw.
\<close>

theorem align_error_iff:
  "((\<exists>e. alignScriptToTranscript text tr = Inl e) \<longleftrightarrow> invalid_input text tr)
   \<and> alignScriptToTranscript text tr \<noteq> Inl TypeError
   \<and> (\<not> invalid_input text tr \<longrightarrow>
        (\<exists>r. alignScriptToTranscript text tr = Inr r
           \<and> length (entries r) = length (splitScriptIntoLines text)
           \<and> totalLines (stats r) = length (splitScriptIntoLines text)))"
proof (cases "invalid_input text tr")
  case True
  then have "alignScriptToTranscript text tr = Inl InvalidInput
      \<or> alignScriptToTranscript text tr = Inl NoUsableLines"
    unfolding invalid_input_iff
    by (auto simp: alignScriptToTranscript_def Let_def split: option.splits)
  then show ?thesis using True by auto
next
  case False
  then obtain t segs where v: "tr = Some t" "tr_segments t = Some segs" "text \<noteq> []"
      "segs \<noteq> []" "splitScriptIntoLines text \<noteq> []"
    unfolding invalid_input_iff by (cases tr) auto
  from align_success [OF v] obtain es where
    "length es = length (splitScriptIntoLines text)"
    "alignScriptToTranscript text tr =
       Inr \<lparr>entries = es, unusedSegments = unused_of segs es, stats = make_stats es\<rparr>"
    by blast
  then show ?thesis using False by (simp add: make_stats_def Let_def)
qed

lemma invalid_blank:
  "invalid_input ''   ''
     (Some \<lparr>tr_segments = Some [\<lparr>seg_start = 0, seg_end = 1, seg_text = ''hello world'',
        seg_words = None\<rparr>]\<rparr>)"
  by code_simp

lemma valid_hello:
  "\<not> invalid_input ''HELLO WORLD''
     (Some \<lparr>tr_segments = Some [\<lparr>seg_start = 0, seg_end = 1, seg_text = ''hello world'',
        seg_words = None\<rparr>]\<rparr>)"
  by code_simp

theorem align_error_iff_witness:
  "(\<exists>e. alignScriptToTranscript ''   ''
     (Some \<lparr>tr_segments = Some [\<lparr>seg_start = 0, seg_end = 1, seg_text = ''hello world'',
        seg_words = None\<rparr>]\<rparr>) = Inl e)
   \<and> (\<exists>r. alignScriptToTranscript ''HELLO WORLD''
     (Some \<lparr>tr_segments = Some [\<lparr>seg_start = 0, seg_end = 1, seg_text = ''hello world'',
        seg_words = None\<rparr>]\<rparr>) = Inr r \<and> length (entries r) = 1)"
proof -
  let ?tr = "Some \<lparr>tr_segments = Some [\<lparr>seg_start = 0, seg_end = 1, seg_text = ''hello world'',
        seg_words = None\<rparr>]\<rparr>"
  have "\<exists>e. alignScriptToTranscript ''   '' ?tr = Inl e"
    using align_error_iff [of "''   ''" ?tr] invalid_blank by blast
  moreover have "splitScriptIntoLines ''HELLO WORLD'' = [''HELLO WORLD'']" by code_simp
  then have "\<exists>r. alignScriptToTranscript ''HELLO WORLD'' ?tr = Inr r \<and> length (entries r) = 1"
    using align_error_iff [of "''HELLO WORLD''" ?tr] valid_hello by auto
  ultimately show ?thesis by blast
qed

subsection \<open>Shape of the result\<close>

lemma align_Inr_valid:
  assumes "alignScriptToTranscript text tr = Inr r"
  shows "\<exists>t segs. tr = Some t \<and> tr_segments t = Some segs \<and> text \<noteq> [] \<and> segs \<noteq> []
           \<and> splitScriptIntoLines text \<noteq> []"
  using assms
  by (auto simp: alignScriptToTranscript_def Let_def split: option.splits if_splits)

lemma build_entry_for:
  assumes shape: "(segStart a = - 1 \<and> segEnd a = - 1)
            \<or> (\<exists>t2 spn. segStart a = int t2 \<and> segEnd a = int (t2 + spn))"
    and idx: "scriptIdx a = i"
    and sc: "score a = win_score sc i (choice_of a)"
    and built: "build_entry lines segs a = Inr e"
  shows "entry_for lines segs sc i (choice_of a) e"
  using shape
proof
  assume "segStart a = - 1 \<and> segEnd a = - 1"
  then have neg: "segStart a < 0" by simp
  then have "choice_of a = Skip" by (simp add: choice_of_def)
  then show ?thesis
    using built idx build_entry_skip [OF neg, of lines segs] by (simp add: entry_for_def)
next
  assume "\<exists>t2 spn. segStart a = int t2 \<and> segEnd a = int (t2 + spn)"
  then obtain t2 spn where a: "segStart a = int t2" "segEnd a = int (t2 + spn)" by blast
  then have pos: "\<not> segStart a < 0" by simp
  have ch: "choice_of a = Match t2 spn" using a by (simp add: choice_of_def)
  have sca: "score a = sc i t2 spn" using sc by (simp add: ch win_score_def)
  obtain ts te where
    tr: "trimToWords (lines ! scriptIdx a) (slice_list (nat (segStart a)) (nat (segEnd a)) segs)
      = Inr (ts, te)"
    using trimToWords_total by blast
  have "e = \<lparr>scriptIndex = i, scriptLine = lines ! i,
                     matchedSegments = [t2..<t2 + spn],
                     matchedText = js_join '' '' (map seg_text (slice_list t2 (t2 + spn) segs)),
                     trimmedStart = Some ts, trimmedEnd = Some te,
                     confidence = round3 (sc i t2 spn), status = status_of (sc i t2 spn)\<rparr>"
    using built build_entry_match [OF pos tr] a idx sca by (simp add: nat_int_add)
  moreover have "trimToWords (lines ! i) (slice_list t2 (t2 + spn) segs) = Inr (ts, te)"
    using tr a idx by (simp add: nat_int_add)
  ultimately show ?thesis unfolding entry_for_def ch by auto
qed

lemma align_result_shape:
  assumes "alignScriptToTranscript text tr = Inr r"
  shows "\<exists>t segs cs.
      tr = Some t \<and> tr_segments t = Some segs \<and> segs \<noteq> []
      \<and> length cs = length (splitScriptIntoLines text)
      \<and> length (entries r) = length (splitScriptIntoLines text)
      \<and> chain (score_table (map tokenize (splitScriptIntoLines text)) segs) (length segs) 0 0 cs
      \<and> (\<forall>i<length (splitScriptIntoLines text).
            entry_for (splitScriptIntoLines text) segs
              (score_table (map tokenize (splitScriptIntoLines text)) segs) i (cs ! i)
              (entries r ! i))"
proof -
  define lines where "lines = splitScriptIntoLines text"
  obtain t segs where v: "tr = Some t" "tr_segments t = Some segs" "text \<noteq> []" "segs \<noteq> []"
      "splitScriptIntoLines text \<noteq> []"
    using align_Inr_valid [OF assms] by blast
  define sc where "sc = score_table (map tokenize lines) segs"
  obtain as where as: "dpAlign (map tokenize lines) segs = Inr as"
      "length as = length lines"
      "\<forall>i<length lines. scriptIdx (as ! i) = i"
      "chain sc (length segs) 0 0 (map choice_of as)"
      "\<forall>i<length lines. score (as ! i) = win_score sc i (choice_of (as ! i))"
      "\<forall>a\<in>set as. (segStart a = - 1 \<and> segEnd a = - 1)
            \<or> (\<exists>t2 spn. segStart a = int t2 \<and> segEnd a = int (t2 + spn))"
    using dpAlign_props [of "map tokenize lines" segs] unfolding sc_def by auto
  obtain as' es where es: "dpAlign (map tokenize lines) segs = Inr as'"
      "length es = length lines"
      "\<forall>i<length lines. build_entry lines segs (as' ! i) = Inr (es ! i)"
      "alignScriptToTranscript text tr =
         Inr \<lparr>entries = es, unusedSegments = unused_of segs es, stats = make_stats es\<rparr>"
    using align_success [OF v] unfolding lines_def by blast
  have same: "as' = as" using as(1) es(1) by simp
  have ent: "entries r = es" using assms es(4) by auto
  have each: "\<forall>i<length lines. entry_for lines segs sc i (map choice_of as ! i) (entries r ! i)"
  proof (intro allI impI)
    fix i assume i: "i < length lines"
    then have mem: "as ! i \<in> set as" using as(2) by simp
    have "entry_for lines segs sc i (choice_of (as ! i)) (es ! i)"
      using as(6) mem as(3) as(5) es(3) i same by (intro build_entry_for) auto
    then show "entry_for lines segs sc i (map choice_of as ! i) (entries r ! i)"
      using i as(2) ent by simp
  qed
  show ?thesis
    using v(1,2,4) as(2) es(2) ent as(4) each unfolding lines_def sc_def
    by (intro exI [of _ t] exI [of _ segs] exI [of _ "map choice_of as"]) simp
qed


lemma entry_for_fields:
  assumes "entry_for lines segs sc i c e"
  shows "scriptIndex e = i" and "scriptLine e = lines ! i"
    and "matchedSegments e = window_list c"
  using assms by (auto simp: entry_for_def window_list_def split: choice.splits)

lemma window_list_shape:
  assumes "window_ok sc T i c" and "window_list c \<noteq> []"
  shows "\<exists>a n. window_list c = [a..<a + n] \<and> 1 \<le> n \<and> n \<le> 3 \<and> a + n \<le> T"
proof (cases c)
  case Skip
  then show ?thesis using assms(2) by (simp add: window_list_def)
next
  case (Match t2 spn)
  then have "1 \<le> spn \<and> spn \<le> 3 \<and> t2 + spn \<le> T" using assms(1) by (simp add: window_ok_def)
  then show ?thesis unfolding Match window_list_def by auto
qed

lemma window_list_order:
  assumes "compatible c c'" and "window_ok sc T i c" and "window_ok sc T j c'"
  shows "set (window_list c) \<inter> set (window_list c') = {}"
    and "window_list c \<noteq> [] \<Longrightarrow> window_list c' \<noteq> [] \<Longrightarrow>
           last (window_list c) < hd (window_list c')"
proof -
  show "set (window_list c) \<inter> set (window_list c') = {}"
    using assms(1) by (cases c; cases c') (simp_all only: compatible_def window_list_def
        choice.case set_upt list.set Int_empty_left Int_empty_right)
  assume ne: "window_list c \<noteq> []" "window_list c' \<noteq> []"
  obtain t2 sp where c: "c = Match t2 sp" using ne(1) by (cases c) (simp_all add: window_list_def)
  obtain t2' sp' where c': "c' = Match t2' sp'"
    using ne(2) by (cases c') (simp_all add: window_list_def)
  have sp: "1 \<le> sp" using assms(2) by (simp add: c window_ok_def)
  have sp': "1 \<le> sp'" using assms(3) by (simp add: c' window_ok_def)
  have "t2 + sp \<le> t2'" using assms(1) sp' unfolding c c' by (rule compatible_after)
  moreover have "last (window_list c) = t2 + sp - 1"
    using sp by (simp add: c window_list_def)
  moreover have "hd (window_list c') = t2'"
    using sp' by (simp add: c' window_list_def)
  ultimately show "last (window_list c) < hd (window_list c')" using sp by simp
qed

text \<open>
  Claim C2: every result of \<^verbatim>\<open>align\<close> has exactly one entry per script line, in script
  order; every matched range is a contiguous run of 1 to 3 segment indices; the ranges of
  distinct entries are pairwise disjoint; and in script order each matched range starts
  strictly after the last index of every earlier matched range.
\<close>

theorem align_entries_ordered:
  assumes "alignScriptToTranscript text tr = Inr r"
  shows "length (entries r) = length (splitScriptIntoLines text)
    \<and> (\<forall>i<length (entries r).
          scriptIndex (entries r ! i) = i
          \<and> scriptLine (entries r ! i) = splitScriptIntoLines text ! i)
    \<and> (\<forall>i<length (entries r). matchedSegments (entries r ! i) \<noteq> [] \<longrightarrow>
          (\<exists>a n. matchedSegments (entries r ! i) = [a..<a + n] \<and> 1 \<le> n \<and> n \<le> 3))
    \<and> (\<forall>i j. i < j \<and> j < length (entries r) \<longrightarrow>
          set (matchedSegments (entries r ! i)) \<inter> set (matchedSegments (entries r ! j)) = {})
    \<and> (\<forall>i j. i < j \<and> j < length (entries r)
            \<and> matchedSegments (entries r ! i) \<noteq> [] \<and> matchedSegments (entries r ! j) \<noteq> [] \<longrightarrow>
          last (matchedSegments (entries r ! i)) < hd (matchedSegments (entries r ! j)))"
proof -
  define lines where "lines = splitScriptIntoLines text"
  obtain t segs cs where sh: "tr = Some t" "tr_segments t = Some segs"
      "length cs = length lines" "length (entries r) = length lines"
      "chain (score_table (map tokenize lines) segs) (length segs) 0 0 cs"
      "\<forall>i<length lines. entry_for lines segs (score_table (map tokenize lines) segs) i (cs ! i)
          (entries r ! i)"
    using align_result_shape [OF assms] unfolding lines_def by blast
  define sc where "sc = score_table (map tokenize lines) segs"
  have ok: "\<forall>i<length cs. window_ok sc (length segs) i (cs ! i)"
    and comp: "\<forall>j<length cs. \<forall>i<j. compatible (cs ! i) (cs ! j)"
    using chain_bounds [OF sh(5)] unfolding sc_def by simp_all
  have fld: "scriptIndex (entries r ! i) = i" "scriptLine (entries r ! i) = lines ! i"
      "matchedSegments (entries r ! i) = window_list (cs ! i)"
    if "i < length lines" for i
    using entry_for_fields [of lines segs _ i "cs ! i" "entries r ! i"] sh(6) that by blast+
  have p1: "\<forall>i<length (entries r). scriptIndex (entries r ! i) = i
          \<and> scriptLine (entries r ! i) = lines ! i"
    using fld sh(4) by simp
  have p2: "\<forall>i<length (entries r). matchedSegments (entries r ! i) \<noteq> [] \<longrightarrow>
          (\<exists>a n. matchedSegments (entries r ! i) = [a..<a + n] \<and> 1 \<le> n \<and> n \<le> 3)"
  proof (intro allI impI)
    fix i assume i: "i < length (entries r)" and ne: "matchedSegments (entries r ! i) \<noteq> []"
    have "window_ok sc (length segs) i (cs ! i)" using ok i sh(3,4) by simp
    moreover have "window_list (cs ! i) \<noteq> []" using ne fld(3) i sh(4) by simp
    ultimately obtain a n where "window_list (cs ! i) = [a..<a + n]" "1 \<le> n" "n \<le> 3"
      using window_list_shape by blast
    then show "\<exists>a n. matchedSegments (entries r ! i) = [a..<a + n] \<and> 1 \<le> n \<and> n \<le> 3"
      using fld(3) i sh(4) by auto
  qed
  have pair: "set (matchedSegments (entries r ! i)) \<inter> set (matchedSegments (entries r ! j)) = {}
      \<and> (matchedSegments (entries r ! i) \<noteq> [] \<and> matchedSegments (entries r ! j) \<noteq> [] \<longrightarrow>
          last (matchedSegments (entries r ! i)) < hd (matchedSegments (entries r ! j)))"
    if "i < j" "j < length (entries r)" for i j
  proof -
    have j: "j < length cs" and i: "i < length cs" using that sh(3,4) by simp_all
    have c: "compatible (cs ! i) (cs ! j)" using comp j that(1) by blast
    have wi: "window_ok sc (length segs) i (cs ! i)" using ok i by blast
    have wj: "window_ok sc (length segs) j (cs ! j)" using ok j by blast
    have mi: "matchedSegments (entries r ! i) = window_list (cs ! i)"
      using fld(3) i sh(3) by simp
    have mj: "matchedSegments (entries r ! j) = window_list (cs ! j)"
      using fld(3) j sh(3) by simp
    show ?thesis
      unfolding mi mj using window_list_order [OF c wi wj] by blast
  qed
  show ?thesis
    using sh(4) p1 p2 pair unfolding lines_def by blast
qed

text \<open>
  The script \<^verbatim>\<open>a b\<close>, newline, \<^verbatim>\<open>c\<close> against the segments \<^verbatim>\<open>a\<close>, \<^verbatim>\<open>b\<close> and \<^verbatim>\<open>c\<close>: the scores
  of the windows with the certificates of their roundings, the rows of the table, the
  assignment and the result.
\<close>

lemma two_pair_0_exact:
  "jaccard [''a'', ''b''] [''a''] = 1 / 2"
  "lcsRatio [''a'', ''b''] [''a''] = 1 / 2"
  "order_pairs [''a'', ''b''] [''a''] = [(0, 0)]"
  by code_simp+

lemma rnd_val_32: "rnd (3152519739159347 / 18014398509481984) = 3152519739159347 / 18014398509481984"
  using rnd_cert [of 55 "3152519739159347 / 18014398509481984" 6305039478318694] by simp

lemma rnd_val_33: "rnd (14411518807585587 / 36028797018963968) = 3602879701896397 / 9007199254740992"
  using rnd_cert_tie [of 54 "14411518807585587 / 36028797018963968" 7205759403792794] by simp

lemma rnd_val_34: "rnd (18014398509481985 / 36028797018963968) = 1 / 2"
  using rnd_cert [of 53 "18014398509481985 / 36028797018963968" 4503599627370496] by simp

lemma two_pair_0:
  "combinedScore64 [''a'', ''b''] [''a'']
     = 1 / 2"
proof -
  have j: "jaccard64 [''a'', ''b''] [''a''] = 1 / 2"
    by (simp add: jaccard64_rnd two_pair_0_exact rnd_0 rnd_val_2)
  have l: "lcsRatio64 [''a'', ''b''] [''a''] = 1 / 2"
    by (simp add: lcsRatio64_rnd two_pair_0_exact rnd_0 rnd_val_2)
  have ord: "wordOrderScore64 [''a'', ''b''] [''a''] = 1 / 2"
    by (simp add: wordOrderScore64_def order_pairs64_rnd two_pair_0_exact Let_def
        fadd_def fsub_def fdiv_def rnd_0 rnd_minus )
  show ?thesis
    by (simp add: combinedScore64_def Let_def j l ord fadd_def fmul_def rnd_0
        rnd_val_3 rnd_val_32 rnd_020 rnd_val_5 rnd_035 rnd_val_33 rnd_045 rnd_val_34)
qed

lemma two_score_0_0_1:
  "score_table [[''a'', ''b''], [''c'']]
     [\<lparr>seg_start = 0, seg_end = 1, seg_text = ''a'', seg_words = None\<rparr>,
      \<lparr>seg_start = 1, seg_end = 2, seg_text = ''b'', seg_words = None\<rparr>,
      \<lparr>seg_start = 2, seg_end = 3, seg_text = ''c'', seg_words = None\<rparr>] 0 0 1
   = 1 / 2"
proof -
  have a: "[[''a'', ''b''], [''c'']] ! 0 = [''a'', ''b'']" by simp
  have w: "tokenize (js_join '' '' (map seg_text (slice_list 0 (0 + 1)
     [\<lparr>seg_start = 0, seg_end = 1, seg_text = ''a'', seg_words = None\<rparr>,
      \<lparr>seg_start = 1, seg_end = 2, seg_text = ''b'', seg_words = None\<rparr>,
      \<lparr>seg_start = 2, seg_end = 3, seg_text = ''c'', seg_words = None\<rparr>]))) = [''a'']"
    by code_simp
  show ?thesis
    unfolding score_table_def scoreMultiSegment_def Let_def a w by (rule two_pair_0)
qed

lemma two_pair_1_exact:
  "jaccard [''a'', ''b''] [''a'', ''b''] = 1"
  "lcsRatio [''a'', ''b''] [''a'', ''b''] = 1"
  "order_pairs [''a'', ''b''] [''a'', ''b''] = [(0, 0), (1, 1)]"
  by code_simp+

lemma two_pair_1:
  "combinedScore64 [''a'', ''b''] [''a'', ''b'']
     = 1"
proof -
  have j: "jaccard64 [''a'', ''b''] [''a'', ''b''] = 1"
    by (simp add: jaccard64_rnd two_pair_1_exact rnd_0 rnd_1)
  have l: "lcsRatio64 [''a'', ''b''] [''a'', ''b''] = 1"
    by (simp add: lcsRatio64_rnd two_pair_1_exact rnd_0 rnd_1)
  have ord: "wordOrderScore64 [''a'', ''b''] [''a'', ''b''] = 1"
    by (simp add: wordOrderScore64_def order_pairs64_rnd two_pair_1_exact Let_def
        fadd_def fsub_def fdiv_def rnd_0 rnd_minus rnd_1)
  show ?thesis
    by (simp add: combinedScore64_def Let_def j l ord fadd_def fmul_def rnd_0
        rnd_020 rnd_weight_020 rnd_weight_035 rnd_035 rnd_045 rnd_weight_045 rnd_weights_sum2 rnd_weights_sum3)
qed

lemma two_score_0_0_2:
  "score_table [[''a'', ''b''], [''c'']]
     [\<lparr>seg_start = 0, seg_end = 1, seg_text = ''a'', seg_words = None\<rparr>,
      \<lparr>seg_start = 1, seg_end = 2, seg_text = ''b'', seg_words = None\<rparr>,
      \<lparr>seg_start = 2, seg_end = 3, seg_text = ''c'', seg_words = None\<rparr>] 0 0 2
   = 1"
proof -
  have a: "[[''a'', ''b''], [''c'']] ! 0 = [''a'', ''b'']" by simp
  have w: "tokenize (js_join '' '' (map seg_text (slice_list 0 (0 + 2)
     [\<lparr>seg_start = 0, seg_end = 1, seg_text = ''a'', seg_words = None\<rparr>,
      \<lparr>seg_start = 1, seg_end = 2, seg_text = ''b'', seg_words = None\<rparr>,
      \<lparr>seg_start = 2, seg_end = 3, seg_text = ''c'', seg_words = None\<rparr>]))) = [''a'', ''b'']"
    by code_simp
  show ?thesis
    unfolding score_table_def scoreMultiSegment_def Let_def a w by (rule two_pair_1)
qed

lemma two_pair_2_exact:
  "jaccard [''a'', ''b''] [''a'', ''b'', ''c''] = 2 / 3"
  "lcsRatio [''a'', ''b''] [''a'', ''b'', ''c''] = 2 / 3"
  "order_pairs [''a'', ''b''] [''a'', ''b'', ''c''] = [(0, 0), (1, 1 / 2)]"
  by code_simp+

lemma rnd_val_35: "rnd (10808639105689191 / 72057594037927936) = 1351079888211149 / 9007199254740992"
  using rnd_cert_tie [of 55 "10808639105689191 / 72057594037927936" 5404319552844596] by simp

lemma rnd_val_36: "rnd (48677783048764007516273527296273 / 162259276829213363391578010288128) = 5404319552844595 / 18014398509481984"
  using rnd_cert [of 54 "48677783048764007516273527296273 / 162259276829213363391578010288128" 5404319552844595] by simp

lemma rnd_val_37: "rnd (19215358410114115 / 36028797018963968) = 4803839602528529 / 9007199254740992"
  using rnd_cert [of 53 "19215358410114115 / 36028797018963968" 4803839602528529] by simp

lemma rnd_val_38: "rnd (3077459745369839 / 4503599627370496) = 3077459745369839 / 4503599627370496"
  using rnd_cert [of 53 "3077459745369839 / 4503599627370496" 6154919490739678] by simp

lemma two_pair_2:
  "combinedScore64 [''a'', ''b''] [''a'', ''b'', ''c'']
     = 3077459745369839 / 4503599627370496"
proof -
  have j: "jaccard64 [''a'', ''b''] [''a'', ''b'', ''c''] = 6004799503160661 / 9007199254740992"
    by (simp add: jaccard64_rnd two_pair_2_exact rnd_0 rnd_val_20)
  have l: "lcsRatio64 [''a'', ''b''] [''a'', ''b'', ''c''] = 6004799503160661 / 9007199254740992"
    by (simp add: lcsRatio64_rnd two_pair_2_exact rnd_0 rnd_val_20)
  have ord: "wordOrderScore64 [''a'', ''b''] [''a'', ''b'', ''c''] = 3 / 4"
    by (simp add: wordOrderScore64_def order_pairs64_rnd two_pair_2_exact Let_def
        fadd_def fsub_def fdiv_def rnd_0 rnd_minus rnd_val_8 rnd_val_2 rnd_val_21 rnd_1)
  show ?thesis
    by (simp add: combinedScore64_def Let_def j l ord fadd_def fmul_def rnd_0
        rnd_val_35 rnd_020 rnd_val_22 rnd_val_36 rnd_035 rnd_045 rnd_val_37 rnd_val_38)
qed

lemma two_score_0_0_3:
  "score_table [[''a'', ''b''], [''c'']]
     [\<lparr>seg_start = 0, seg_end = 1, seg_text = ''a'', seg_words = None\<rparr>,
      \<lparr>seg_start = 1, seg_end = 2, seg_text = ''b'', seg_words = None\<rparr>,
      \<lparr>seg_start = 2, seg_end = 3, seg_text = ''c'', seg_words = None\<rparr>] 0 0 3
   = 3077459745369839 / 4503599627370496"
proof -
  have a: "[[''a'', ''b''], [''c'']] ! 0 = [''a'', ''b'']" by simp
  have w: "tokenize (js_join '' '' (map seg_text (slice_list 0 (0 + 3)
     [\<lparr>seg_start = 0, seg_end = 1, seg_text = ''a'', seg_words = None\<rparr>,
      \<lparr>seg_start = 1, seg_end = 2, seg_text = ''b'', seg_words = None\<rparr>,
      \<lparr>seg_start = 2, seg_end = 3, seg_text = ''c'', seg_words = None\<rparr>]))) = [''a'', ''b'', ''c'']"
    by code_simp
  show ?thesis
    unfolding score_table_def scoreMultiSegment_def Let_def a w by (rule two_pair_2)
qed

lemma two_pair_3_exact:
  "jaccard [''a'', ''b''] [''b''] = 1 / 2"
  "lcsRatio [''a'', ''b''] [''b''] = 1 / 2"
  "order_pairs [''a'', ''b''] [''b''] = [(1, 0)]"
  by code_simp+

lemma two_pair_3:
  "combinedScore64 [''a'', ''b''] [''b'']
     = 1 / 2"
proof -
  have j: "jaccard64 [''a'', ''b''] [''b''] = 1 / 2"
    by (simp add: jaccard64_rnd two_pair_3_exact rnd_0 rnd_val_2)
  have l: "lcsRatio64 [''a'', ''b''] [''b''] = 1 / 2"
    by (simp add: lcsRatio64_rnd two_pair_3_exact rnd_0 rnd_val_2)
  have ord: "wordOrderScore64 [''a'', ''b''] [''b''] = 1 / 2"
    by (simp add: wordOrderScore64_def order_pairs64_rnd two_pair_3_exact Let_def
        fadd_def fsub_def fdiv_def rnd_0 rnd_minus rnd_1)
  show ?thesis
    by (simp add: combinedScore64_def Let_def j l ord fadd_def fmul_def rnd_0
        rnd_val_3 rnd_val_32 rnd_020 rnd_val_5 rnd_035 rnd_val_33 rnd_045 rnd_val_34)
qed

lemma two_score_0_1_1:
  "score_table [[''a'', ''b''], [''c'']]
     [\<lparr>seg_start = 0, seg_end = 1, seg_text = ''a'', seg_words = None\<rparr>,
      \<lparr>seg_start = 1, seg_end = 2, seg_text = ''b'', seg_words = None\<rparr>,
      \<lparr>seg_start = 2, seg_end = 3, seg_text = ''c'', seg_words = None\<rparr>] 0 1 1
   = 1 / 2"
proof -
  have a: "[[''a'', ''b''], [''c'']] ! 0 = [''a'', ''b'']" by simp
  have w: "tokenize (js_join '' '' (map seg_text (slice_list 1 (1 + 1)
     [\<lparr>seg_start = 0, seg_end = 1, seg_text = ''a'', seg_words = None\<rparr>,
      \<lparr>seg_start = 1, seg_end = 2, seg_text = ''b'', seg_words = None\<rparr>,
      \<lparr>seg_start = 2, seg_end = 3, seg_text = ''c'', seg_words = None\<rparr>]))) = [''b'']"
    by code_simp
  show ?thesis
    unfolding score_table_def scoreMultiSegment_def Let_def a w by (rule two_pair_3)
qed

lemma two_pair_4_exact:
  "jaccard [''a'', ''b''] [''b'', ''c''] = 1 / 3"
  "lcsRatio [''a'', ''b''] [''b'', ''c''] = 1 / 2"
  "order_pairs [''a'', ''b''] [''b'', ''c''] = [(1, 0)]"
  by code_simp+

lemma two_pair_4:
  "combinedScore64 [''a'', ''b''] [''b'', ''c'']
     = 1989089835421969 / 4503599627370496"
proof -
  have j: "jaccard64 [''a'', ''b''] [''b'', ''c''] = 6004799503160661 / 18014398509481984"
    by (simp add: jaccard64_rnd two_pair_4_exact rnd_0 rnd_val_1)
  have l: "lcsRatio64 [''a'', ''b''] [''b'', ''c''] = 1 / 2"
    by (simp add: lcsRatio64_rnd two_pair_4_exact rnd_0 rnd_val_2)
  have ord: "wordOrderScore64 [''a'', ''b''] [''b'', ''c''] = 1 / 2"
    by (simp add: wordOrderScore64_def order_pairs64_rnd two_pair_4_exact Let_def
        fadd_def fsub_def fdiv_def rnd_0 rnd_minus rnd_1)
  show ?thesis
    by (simp add: combinedScore64_def Let_def j l ord fadd_def fmul_def rnd_0
        rnd_val_3 rnd_val_4 rnd_020 rnd_val_5 rnd_val_6 rnd_035 rnd_val_7 rnd_045)
qed

lemma two_score_0_1_2:
  "score_table [[''a'', ''b''], [''c'']]
     [\<lparr>seg_start = 0, seg_end = 1, seg_text = ''a'', seg_words = None\<rparr>,
      \<lparr>seg_start = 1, seg_end = 2, seg_text = ''b'', seg_words = None\<rparr>,
      \<lparr>seg_start = 2, seg_end = 3, seg_text = ''c'', seg_words = None\<rparr>] 0 1 2
   = 1989089835421969 / 4503599627370496"
proof -
  have a: "[[''a'', ''b''], [''c'']] ! 0 = [''a'', ''b'']" by simp
  have w: "tokenize (js_join '' '' (map seg_text (slice_list 1 (1 + 2)
     [\<lparr>seg_start = 0, seg_end = 1, seg_text = ''a'', seg_words = None\<rparr>,
      \<lparr>seg_start = 1, seg_end = 2, seg_text = ''b'', seg_words = None\<rparr>,
      \<lparr>seg_start = 2, seg_end = 3, seg_text = ''c'', seg_words = None\<rparr>]))) = [''b'', ''c'']"
    by code_simp
  show ?thesis
    unfolding score_table_def scoreMultiSegment_def Let_def a w by (rule two_pair_4)
qed

lemma two_pair_5_exact:
  "jaccard [''a'', ''b''] [''c''] = 0"
  "lcsRatio [''a'', ''b''] [''c''] = 0"
  "order_pairs [''a'', ''b''] [''c''] = []"
  by code_simp+

lemma two_pair_5:
  "combinedScore64 [''a'', ''b''] [''c'']
     = 0"
proof -
  have j: "jaccard64 [''a'', ''b''] [''c''] = 0"
    by (simp add: jaccard64_rnd two_pair_5_exact rnd_0 )
  have l: "lcsRatio64 [''a'', ''b''] [''c''] = 0"
    by (simp add: lcsRatio64_rnd two_pair_5_exact rnd_0 )
  have ord: "wordOrderScore64 [''a'', ''b''] [''c''] = 0"
    by (simp add: wordOrderScore64_def order_pairs64_rnd two_pair_5_exact Let_def
        fadd_def fsub_def fdiv_def rnd_0 rnd_minus )
  show ?thesis
    by (simp add: combinedScore64_def Let_def j l ord fadd_def fmul_def rnd_0
        rnd_020 rnd_035 rnd_045)
qed

lemma two_score_0_2_1:
  "score_table [[''a'', ''b''], [''c'']]
     [\<lparr>seg_start = 0, seg_end = 1, seg_text = ''a'', seg_words = None\<rparr>,
      \<lparr>seg_start = 1, seg_end = 2, seg_text = ''b'', seg_words = None\<rparr>,
      \<lparr>seg_start = 2, seg_end = 3, seg_text = ''c'', seg_words = None\<rparr>] 0 2 1
   = 0"
proof -
  have a: "[[''a'', ''b''], [''c'']] ! 0 = [''a'', ''b'']" by simp
  have w: "tokenize (js_join '' '' (map seg_text (slice_list 2 (2 + 1)
     [\<lparr>seg_start = 0, seg_end = 1, seg_text = ''a'', seg_words = None\<rparr>,
      \<lparr>seg_start = 1, seg_end = 2, seg_text = ''b'', seg_words = None\<rparr>,
      \<lparr>seg_start = 2, seg_end = 3, seg_text = ''c'', seg_words = None\<rparr>]))) = [''c'']"
    by code_simp
  show ?thesis
    unfolding score_table_def scoreMultiSegment_def Let_def a w by (rule two_pair_5)
qed

lemma two_pair_6_exact:
  "jaccard [''c''] [''a''] = 0"
  "lcsRatio [''c''] [''a''] = 0"
  "order_pairs [''c''] [''a''] = []"
  by code_simp+

lemma two_pair_6:
  "combinedScore64 [''c''] [''a'']
     = 0"
proof -
  have j: "jaccard64 [''c''] [''a''] = 0"
    by (simp add: jaccard64_rnd two_pair_6_exact rnd_0 )
  have l: "lcsRatio64 [''c''] [''a''] = 0"
    by (simp add: lcsRatio64_rnd two_pair_6_exact rnd_0 )
  have ord: "wordOrderScore64 [''c''] [''a''] = 0"
    by (simp add: wordOrderScore64_def order_pairs64_rnd two_pair_6_exact Let_def
        fadd_def fsub_def fdiv_def rnd_0 rnd_minus )
  show ?thesis
    by (simp add: combinedScore64_def Let_def j l ord fadd_def fmul_def rnd_0
        rnd_020 rnd_035 rnd_045)
qed

lemma two_score_1_0_1:
  "score_table [[''a'', ''b''], [''c'']]
     [\<lparr>seg_start = 0, seg_end = 1, seg_text = ''a'', seg_words = None\<rparr>,
      \<lparr>seg_start = 1, seg_end = 2, seg_text = ''b'', seg_words = None\<rparr>,
      \<lparr>seg_start = 2, seg_end = 3, seg_text = ''c'', seg_words = None\<rparr>] 1 0 1
   = 0"
proof -
  have a: "[[''a'', ''b''], [''c'']] ! 1 = [''c'']" by simp
  have w: "tokenize (js_join '' '' (map seg_text (slice_list 0 (0 + 1)
     [\<lparr>seg_start = 0, seg_end = 1, seg_text = ''a'', seg_words = None\<rparr>,
      \<lparr>seg_start = 1, seg_end = 2, seg_text = ''b'', seg_words = None\<rparr>,
      \<lparr>seg_start = 2, seg_end = 3, seg_text = ''c'', seg_words = None\<rparr>]))) = [''a'']"
    by code_simp
  show ?thesis
    unfolding score_table_def scoreMultiSegment_def Let_def a w by (rule two_pair_6)
qed

lemma two_pair_7_exact:
  "jaccard [''c''] [''a'', ''b''] = 0"
  "lcsRatio [''c''] [''a'', ''b''] = 0"
  "order_pairs [''c''] [''a'', ''b''] = []"
  by code_simp+

lemma two_pair_7:
  "combinedScore64 [''c''] [''a'', ''b'']
     = 0"
proof -
  have j: "jaccard64 [''c''] [''a'', ''b''] = 0"
    by (simp add: jaccard64_rnd two_pair_7_exact rnd_0 )
  have l: "lcsRatio64 [''c''] [''a'', ''b''] = 0"
    by (simp add: lcsRatio64_rnd two_pair_7_exact rnd_0 )
  have ord: "wordOrderScore64 [''c''] [''a'', ''b''] = 0"
    by (simp add: wordOrderScore64_def order_pairs64_rnd two_pair_7_exact Let_def
        fadd_def fsub_def fdiv_def rnd_0 rnd_minus )
  show ?thesis
    by (simp add: combinedScore64_def Let_def j l ord fadd_def fmul_def rnd_0
        rnd_020 rnd_035 rnd_045)
qed

lemma two_score_1_0_2:
  "score_table [[''a'', ''b''], [''c'']]
     [\<lparr>seg_start = 0, seg_end = 1, seg_text = ''a'', seg_words = None\<rparr>,
      \<lparr>seg_start = 1, seg_end = 2, seg_text = ''b'', seg_words = None\<rparr>,
      \<lparr>seg_start = 2, seg_end = 3, seg_text = ''c'', seg_words = None\<rparr>] 1 0 2
   = 0"
proof -
  have a: "[[''a'', ''b''], [''c'']] ! 1 = [''c'']" by simp
  have w: "tokenize (js_join '' '' (map seg_text (slice_list 0 (0 + 2)
     [\<lparr>seg_start = 0, seg_end = 1, seg_text = ''a'', seg_words = None\<rparr>,
      \<lparr>seg_start = 1, seg_end = 2, seg_text = ''b'', seg_words = None\<rparr>,
      \<lparr>seg_start = 2, seg_end = 3, seg_text = ''c'', seg_words = None\<rparr>]))) = [''a'', ''b'']"
    by code_simp
  show ?thesis
    unfolding score_table_def scoreMultiSegment_def Let_def a w by (rule two_pair_7)
qed

lemma two_pair_8_exact:
  "jaccard [''c''] [''a'', ''b'', ''c''] = 1 / 3"
  "lcsRatio [''c''] [''a'', ''b'', ''c''] = 1 / 3"
  "order_pairs [''c''] [''a'', ''b'', ''c''] = [(0, 1)]"
  by code_simp+

lemma rnd_val_39: "rnd (48677783048764007516273527296273 / 324518553658426726783156020576256) = 5404319552844595 / 36028797018963968"
  using rnd_cert [of 55 "48677783048764007516273527296273 / 324518553658426726783156020576256" 5404319552844595] by simp

lemma rnd_val_40: "rnd (19215358410114115 / 72057594037927936) = 4803839602528529 / 18014398509481984"
  using rnd_cert [of 54 "19215358410114115 / 72057594037927936" 4803839602528529] by simp

lemma rnd_val_41: "rnd (13210558906953455 / 36028797018963968) = 825659931684591 / 2251799813685248"
  using rnd_cert_tie [of 54 "13210558906953455 / 36028797018963968" 6605279453476728] by simp

lemma two_pair_8:
  "combinedScore64 [''c''] [''a'', ''b'', ''c'']
     = 825659931684591 / 2251799813685248"
proof -
  have j: "jaccard64 [''c''] [''a'', ''b'', ''c''] = 6004799503160661 / 18014398509481984"
    by (simp add: jaccard64_rnd two_pair_8_exact rnd_0 rnd_val_1)
  have l: "lcsRatio64 [''c''] [''a'', ''b'', ''c''] = 6004799503160661 / 18014398509481984"
    by (simp add: lcsRatio64_rnd two_pair_8_exact rnd_0 rnd_val_1)
  have ord: "wordOrderScore64 [''c''] [''a'', ''b'', ''c''] = 1 / 2"
    by (simp add: wordOrderScore64_def order_pairs64_rnd two_pair_8_exact Let_def
        fadd_def fsub_def fdiv_def rnd_0 rnd_minus rnd_1)
  show ?thesis
    by (simp add: combinedScore64_def Let_def j l ord fadd_def fmul_def rnd_0
        rnd_val_3 rnd_val_4 rnd_val_39 rnd_020 rnd_val_40 rnd_035 rnd_val_41 rnd_045)
qed

lemma two_score_1_0_3:
  "score_table [[''a'', ''b''], [''c'']]
     [\<lparr>seg_start = 0, seg_end = 1, seg_text = ''a'', seg_words = None\<rparr>,
      \<lparr>seg_start = 1, seg_end = 2, seg_text = ''b'', seg_words = None\<rparr>,
      \<lparr>seg_start = 2, seg_end = 3, seg_text = ''c'', seg_words = None\<rparr>] 1 0 3
   = 825659931684591 / 2251799813685248"
proof -
  have a: "[[''a'', ''b''], [''c'']] ! 1 = [''c'']" by simp
  have w: "tokenize (js_join '' '' (map seg_text (slice_list 0 (0 + 3)
     [\<lparr>seg_start = 0, seg_end = 1, seg_text = ''a'', seg_words = None\<rparr>,
      \<lparr>seg_start = 1, seg_end = 2, seg_text = ''b'', seg_words = None\<rparr>,
      \<lparr>seg_start = 2, seg_end = 3, seg_text = ''c'', seg_words = None\<rparr>]))) = [''a'', ''b'', ''c'']"
    by code_simp
  show ?thesis
    unfolding score_table_def scoreMultiSegment_def Let_def a w by (rule two_pair_8)
qed

lemma two_pair_9_exact:
  "jaccard [''c''] [''b''] = 0"
  "lcsRatio [''c''] [''b''] = 0"
  "order_pairs [''c''] [''b''] = []"
  by code_simp+

lemma two_pair_9:
  "combinedScore64 [''c''] [''b'']
     = 0"
proof -
  have j: "jaccard64 [''c''] [''b''] = 0"
    by (simp add: jaccard64_rnd two_pair_9_exact rnd_0 )
  have l: "lcsRatio64 [''c''] [''b''] = 0"
    by (simp add: lcsRatio64_rnd two_pair_9_exact rnd_0 )
  have ord: "wordOrderScore64 [''c''] [''b''] = 0"
    by (simp add: wordOrderScore64_def order_pairs64_rnd two_pair_9_exact Let_def
        fadd_def fsub_def fdiv_def rnd_0 rnd_minus )
  show ?thesis
    by (simp add: combinedScore64_def Let_def j l ord fadd_def fmul_def rnd_0
        rnd_020 rnd_035 rnd_045)
qed

lemma two_score_1_1_1:
  "score_table [[''a'', ''b''], [''c'']]
     [\<lparr>seg_start = 0, seg_end = 1, seg_text = ''a'', seg_words = None\<rparr>,
      \<lparr>seg_start = 1, seg_end = 2, seg_text = ''b'', seg_words = None\<rparr>,
      \<lparr>seg_start = 2, seg_end = 3, seg_text = ''c'', seg_words = None\<rparr>] 1 1 1
   = 0"
proof -
  have a: "[[''a'', ''b''], [''c'']] ! 1 = [''c'']" by simp
  have w: "tokenize (js_join '' '' (map seg_text (slice_list 1 (1 + 1)
     [\<lparr>seg_start = 0, seg_end = 1, seg_text = ''a'', seg_words = None\<rparr>,
      \<lparr>seg_start = 1, seg_end = 2, seg_text = ''b'', seg_words = None\<rparr>,
      \<lparr>seg_start = 2, seg_end = 3, seg_text = ''c'', seg_words = None\<rparr>]))) = [''b'']"
    by code_simp
  show ?thesis
    unfolding score_table_def scoreMultiSegment_def Let_def a w by (rule two_pair_9)
qed

lemma two_pair_10_exact:
  "jaccard [''c''] [''b'', ''c''] = 1 / 2"
  "lcsRatio [''c''] [''b'', ''c''] = 1 / 2"
  "order_pairs [''c''] [''b'', ''c''] = [(0, 1)]"
  by code_simp+

lemma two_pair_10:
  "combinedScore64 [''c''] [''b'', ''c'']
     = 1 / 2"
proof -
  have j: "jaccard64 [''c''] [''b'', ''c''] = 1 / 2"
    by (simp add: jaccard64_rnd two_pair_10_exact rnd_0 rnd_val_2)
  have l: "lcsRatio64 [''c''] [''b'', ''c''] = 1 / 2"
    by (simp add: lcsRatio64_rnd two_pair_10_exact rnd_0 rnd_val_2)
  have ord: "wordOrderScore64 [''c''] [''b'', ''c''] = 1 / 2"
    by (simp add: wordOrderScore64_def order_pairs64_rnd two_pair_10_exact Let_def
        fadd_def fsub_def fdiv_def rnd_0 rnd_minus rnd_1)
  show ?thesis
    by (simp add: combinedScore64_def Let_def j l ord fadd_def fmul_def rnd_0
        rnd_val_3 rnd_val_32 rnd_020 rnd_val_5 rnd_035 rnd_val_33 rnd_045 rnd_val_34)
qed

lemma two_score_1_1_2:
  "score_table [[''a'', ''b''], [''c'']]
     [\<lparr>seg_start = 0, seg_end = 1, seg_text = ''a'', seg_words = None\<rparr>,
      \<lparr>seg_start = 1, seg_end = 2, seg_text = ''b'', seg_words = None\<rparr>,
      \<lparr>seg_start = 2, seg_end = 3, seg_text = ''c'', seg_words = None\<rparr>] 1 1 2
   = 1 / 2"
proof -
  have a: "[[''a'', ''b''], [''c'']] ! 1 = [''c'']" by simp
  have w: "tokenize (js_join '' '' (map seg_text (slice_list 1 (1 + 2)
     [\<lparr>seg_start = 0, seg_end = 1, seg_text = ''a'', seg_words = None\<rparr>,
      \<lparr>seg_start = 1, seg_end = 2, seg_text = ''b'', seg_words = None\<rparr>,
      \<lparr>seg_start = 2, seg_end = 3, seg_text = ''c'', seg_words = None\<rparr>]))) = [''b'', ''c'']"
    by code_simp
  show ?thesis
    unfolding score_table_def scoreMultiSegment_def Let_def a w by (rule two_pair_10)
qed

lemma two_pair_11_exact:
  "jaccard [''c''] [''c''] = 1"
  "lcsRatio [''c''] [''c''] = 1"
  "order_pairs [''c''] [''c''] = [(0, 0)]"
  by code_simp+

lemma rnd_val_42: "rnd (32425917317067573 / 36028797018963968) = 8106479329266893 / 9007199254740992"
  using rnd_cert [of 53 "32425917317067573 / 36028797018963968" 8106479329266893] by simp

lemma two_pair_11:
  "combinedScore64 [''c''] [''c'']
     = 8106479329266893 / 9007199254740992"
proof -
  have j: "jaccard64 [''c''] [''c''] = 1"
    by (simp add: jaccard64_rnd two_pair_11_exact rnd_0 rnd_1)
  have l: "lcsRatio64 [''c''] [''c''] = 1"
    by (simp add: lcsRatio64_rnd two_pair_11_exact rnd_0 rnd_1)
  have ord: "wordOrderScore64 [''c''] [''c''] = 1 / 2"
    by (simp add: wordOrderScore64_def order_pairs64_rnd two_pair_11_exact Let_def
        fadd_def fsub_def fdiv_def rnd_0 rnd_minus )
  show ?thesis
    by (simp add: combinedScore64_def Let_def j l ord fadd_def fmul_def rnd_0
        rnd_val_3 rnd_020 rnd_weight_035 rnd_035 rnd_045 rnd_weight_045 rnd_weights_sum2 rnd_val_42)
qed

lemma two_score_1_2_1:
  "score_table [[''a'', ''b''], [''c'']]
     [\<lparr>seg_start = 0, seg_end = 1, seg_text = ''a'', seg_words = None\<rparr>,
      \<lparr>seg_start = 1, seg_end = 2, seg_text = ''b'', seg_words = None\<rparr>,
      \<lparr>seg_start = 2, seg_end = 3, seg_text = ''c'', seg_words = None\<rparr>] 1 2 1
   = 8106479329266893 / 9007199254740992"
proof -
  have a: "[[''a'', ''b''], [''c'']] ! 1 = [''c'']" by simp
  have w: "tokenize (js_join '' '' (map seg_text (slice_list 2 (2 + 1)
     [\<lparr>seg_start = 0, seg_end = 1, seg_text = ''a'', seg_words = None\<rparr>,
      \<lparr>seg_start = 1, seg_end = 2, seg_text = ''b'', seg_words = None\<rparr>,
      \<lparr>seg_start = 2, seg_end = 3, seg_text = ''c'', seg_words = None\<rparr>]))) = [''c'']"
    by code_simp
  show ?thesis
    unfolding score_table_def scoreMultiSegment_def Let_def a w by (rule two_pair_11)
qed

lemma rnd_val_43: "rnd (825659931684591 / 2251799813685248) = 825659931684591 / 2251799813685248"
  using rnd_cert [of 54 "825659931684591 / 2251799813685248" 6605279453476728] by simp

lemma rnd_val_44: "rnd (8106479329266893 / 9007199254740992) = 8106479329266893 / 9007199254740992"
  using rnd_cert [of 53 "8106479329266893 / 9007199254740992" 8106479329266893] by simp

lemma rnd_val_45: "rnd (12610078956637389 / 9007199254740992) = 3152519739159347 / 2251799813685248"
  using rnd_cert_tie [of 52 "12610078956637389 / 9007199254740992" 6305039478318694] by simp

lemma rnd_val_46: "rnd (17113678584007885 / 9007199254740992) = 4278419646001971 / 2251799813685248"
  using rnd_cert_tie [of 52 "17113678584007885 / 9007199254740992" 8556839292003942] by simp

lemma two_row_0:
  "dp_row (score_table [[''a'', ''b''], [''c'']]
     [\<lparr>seg_start = 0, seg_end = 1, seg_text = ''a'', seg_words = None\<rparr>,
      \<lparr>seg_start = 1, seg_end = 2, seg_text = ''b'', seg_words = None\<rparr>,
      \<lparr>seg_start = 2, seg_end = 3, seg_text = ''c'', seg_words = None\<rparr>] 0)
     [8106479329266893 / 9007199254740992, 8106479329266893 / 9007199254740992, 8106479329266893 / 9007199254740992, 0] 3
   = [(4278419646001971 / 2251799813685248, Match 0 2),
      (3152519739159347 / 2251799813685248, Match 1 1),
      (8106479329266893 / 9007199254740992, Skip),
      (0, Skip)]"
  by (simp add: dp_row_def dp_cell_def windows_def spans_at_def MAX_SPAN_def upt_rec dp_try_def
      Let_def fadd_def rnd_0 numeral_2_eq_2 numeral_3_eq_3
      two_score_0_0_1 [unfolded numeral_2_eq_2 numeral_3_eq_3 One_nat_def]
      two_score_0_0_2 [unfolded numeral_2_eq_2 numeral_3_eq_3 One_nat_def]
      two_score_0_0_3 [unfolded numeral_2_eq_2 numeral_3_eq_3 One_nat_def]
      two_score_0_1_1 [unfolded numeral_2_eq_2 numeral_3_eq_3 One_nat_def]
      two_score_0_1_2 [unfolded numeral_2_eq_2 numeral_3_eq_3 One_nat_def]
      two_score_0_2_1 [unfolded numeral_2_eq_2 numeral_3_eq_3 One_nat_def]
      rnd_015 rnd_val_43 rnd_val_29 rnd_val_2 rnd_val_38 rnd_val_44 rnd_val_45 rnd_val_46)

lemma two_row_1:
  "dp_row (score_table [[''a'', ''b''], [''c'']]
     [\<lparr>seg_start = 0, seg_end = 1, seg_text = ''a'', seg_words = None\<rparr>,
      \<lparr>seg_start = 1, seg_end = 2, seg_text = ''b'', seg_words = None\<rparr>,
      \<lparr>seg_start = 2, seg_end = 3, seg_text = ''c'', seg_words = None\<rparr>] 1)
     [0, 0, 0, 0] 3
   = [(8106479329266893 / 9007199254740992, Match 2 1),
      (8106479329266893 / 9007199254740992, Match 2 1),
      (8106479329266893 / 9007199254740992, Match 2 1),
      (0, Skip)]"
  by (simp add: dp_row_def dp_cell_def windows_def spans_at_def MAX_SPAN_def upt_rec dp_try_def
      Let_def fadd_def rnd_0 numeral_2_eq_2 numeral_3_eq_3
      two_score_1_0_1 [unfolded numeral_2_eq_2 numeral_3_eq_3 One_nat_def]
      two_score_1_0_2 [unfolded numeral_2_eq_2 numeral_3_eq_3 One_nat_def]
      two_score_1_0_3 [unfolded numeral_2_eq_2 numeral_3_eq_3 One_nat_def]
      two_score_1_1_1 [unfolded numeral_2_eq_2 numeral_3_eq_3 One_nat_def]
      two_score_1_1_2 [unfolded numeral_2_eq_2 numeral_3_eq_3 One_nat_def]
      two_score_1_2_1 [unfolded numeral_2_eq_2 numeral_3_eq_3 One_nat_def]
      rnd_015 rnd_val_43 rnd_val_29 rnd_val_2 rnd_val_38 rnd_val_44 rnd_val_45 rnd_val_46)

lemma two_dpAlign:
  "dpAlign [[''a'', ''b''], [''c'']]
     [\<lparr>seg_start = 0, seg_end = 1, seg_text = ''a'', seg_words = None\<rparr>,
      \<lparr>seg_start = 1, seg_end = 2, seg_text = ''b'', seg_words = None\<rparr>,
      \<lparr>seg_start = 2, seg_end = 3, seg_text = ''c'', seg_words = None\<rparr>]
   = Inr [\<lparr>scriptIdx = 0, segStart = 0, segEnd = 2,
          score = 1\<rparr>,
        \<lparr>scriptIdx = 1, segStart = 2, segEnd = 3,
          score = 8106479329266893 / 9007199254740992\<rparr>]"
  by (simp add: dpAlign_def Let_def
      two_row_0 [unfolded numeral_2_eq_2 numeral_3_eq_3 One_nat_def]
      two_row_1 [unfolded numeral_2_eq_2 numeral_3_eq_3 One_nat_def]
      two_score_0_0_1 [unfolded numeral_2_eq_2 numeral_3_eq_3 One_nat_def]
      two_score_0_0_2 [unfolded numeral_2_eq_2 numeral_3_eq_3 One_nat_def]
      two_score_0_0_3 [unfolded numeral_2_eq_2 numeral_3_eq_3 One_nat_def]
      two_score_0_1_1 [unfolded numeral_2_eq_2 numeral_3_eq_3 One_nat_def]
      two_score_0_1_2 [unfolded numeral_2_eq_2 numeral_3_eq_3 One_nat_def]
      two_score_0_2_1 [unfolded numeral_2_eq_2 numeral_3_eq_3 One_nat_def]
      two_score_1_0_1 [unfolded numeral_2_eq_2 numeral_3_eq_3 One_nat_def]
      two_score_1_0_2 [unfolded numeral_2_eq_2 numeral_3_eq_3 One_nat_def]
      two_score_1_0_3 [unfolded numeral_2_eq_2 numeral_3_eq_3 One_nat_def]
      two_score_1_1_1 [unfolded numeral_2_eq_2 numeral_3_eq_3 One_nat_def]
      two_score_1_1_2 [unfolded numeral_2_eq_2 numeral_3_eq_3 One_nat_def]
      two_score_1_2_1 [unfolded numeral_2_eq_2 numeral_3_eq_3 One_nat_def])

lemma two_lines: "splitScriptIntoLines (''a b'' @ [CHR 0x0A] @ ''c'') = [''a b'', ''c'']"
  by code_simp

lemma two_tokens: "map tokenize [''a b'', ''c''] = [[''a'', ''b''], [''c'']]"
  by code_simp

lemma two_entry_0:
  "build_entry [''a b'', ''c'']
     [\<lparr>seg_start = 0, seg_end = 1, seg_text = ''a'', seg_words = None\<rparr>,
      \<lparr>seg_start = 1, seg_end = 2, seg_text = ''b'', seg_words = None\<rparr>,
      \<lparr>seg_start = 2, seg_end = 3, seg_text = ''c'', seg_words = None\<rparr>]
     \<lparr>scriptIdx = 0, segStart = 0, segEnd = 2,
          score = 1\<rparr>
   = Inr \<lparr>scriptIndex = 0, scriptLine = ''a b'',
          matchedSegments = [0, 1], matchedText = ''a b'',
          trimmedStart = Some 0, trimmedEnd = Some 2,
          confidence = 1, status = Matched\<rparr>"
  by code_simp

lemma two_entry_1:
  "build_entry [''a b'', ''c'']
     [\<lparr>seg_start = 0, seg_end = 1, seg_text = ''a'', seg_words = None\<rparr>,
      \<lparr>seg_start = 1, seg_end = 2, seg_text = ''b'', seg_words = None\<rparr>,
      \<lparr>seg_start = 2, seg_end = 3, seg_text = ''c'', seg_words = None\<rparr>]
     \<lparr>scriptIdx = 1, segStart = 2, segEnd = 3,
          score = 8106479329266893 / 9007199254740992\<rparr>
   = Inr \<lparr>scriptIndex = 1, scriptLine = ''c'',
          matchedSegments = [2], matchedText = ''c'',
          trimmedStart = Some 2, trimmedEnd = Some 3,
          confidence = 8106479329266893 / 9007199254740992, status = Matched\<rparr>"
  by code_simp

lemma two_run:
  "alignScriptToTranscript (''a b'' @ [CHR 0x0A] @ ''c'')
     (Some \<lparr>tr_segments = Some
       [\<lparr>seg_start = 0, seg_end = 1, seg_text = ''a'', seg_words = None\<rparr>,
      \<lparr>seg_start = 1, seg_end = 2, seg_text = ''b'', seg_words = None\<rparr>,
      \<lparr>seg_start = 2, seg_end = 3, seg_text = ''c'', seg_words = None\<rparr>]\<rparr>)
   = Inr \<lparr>entries =
       [\<lparr>scriptIndex = 0, scriptLine = ''a b'',
          matchedSegments = [0, 1], matchedText = ''a b'',
          trimmedStart = Some 0, trimmedEnd = Some 2,
          confidence = 1, status = Matched\<rparr>,
        \<lparr>scriptIndex = 1, scriptLine = ''c'',
          matchedSegments = [2], matchedText = ''c'',
          trimmedStart = Some 2, trimmedEnd = Some 3,
          confidence = 8106479329266893 / 9007199254740992, status = Matched\<rparr>],
     unusedSegments = unused_of
       [\<lparr>seg_start = 0, seg_end = 1, seg_text = ''a'', seg_words = None\<rparr>,
      \<lparr>seg_start = 1, seg_end = 2, seg_text = ''b'', seg_words = None\<rparr>,
      \<lparr>seg_start = 2, seg_end = 3, seg_text = ''c'', seg_words = None\<rparr>]
       [\<lparr>scriptIndex = 0, scriptLine = ''a b'',
          matchedSegments = [0, 1], matchedText = ''a b'',
          trimmedStart = Some 0, trimmedEnd = Some 2,
          confidence = 1, status = Matched\<rparr>,
        \<lparr>scriptIndex = 1, scriptLine = ''c'',
          matchedSegments = [2], matchedText = ''c'',
          trimmedStart = Some 2, trimmedEnd = Some 3,
          confidence = 8106479329266893 / 9007199254740992, status = Matched\<rparr>],
     stats = make_stats
       [\<lparr>scriptIndex = 0, scriptLine = ''a b'',
          matchedSegments = [0, 1], matchedText = ''a b'',
          trimmedStart = Some 0, trimmedEnd = Some 2,
          confidence = 1, status = Matched\<rparr>,
        \<lparr>scriptIndex = 1, scriptLine = ''c'',
          matchedSegments = [2], matchedText = ''c'',
          trimmedStart = Some 2, trimmedEnd = Some 3,
          confidence = 8106479329266893 / 9007199254740992, status = Matched\<rparr>]\<rparr>"
proof -
  have dp: "dpAlign (map tokenize [''a b'', ''c''])
     [\<lparr>seg_start = 0, seg_end = 1, seg_text = ''a'', seg_words = None\<rparr>,
      \<lparr>seg_start = 1, seg_end = 2, seg_text = ''b'', seg_words = None\<rparr>,
      \<lparr>seg_start = 2, seg_end = 3, seg_text = ''c'', seg_words = None\<rparr>]
   = Inr [\<lparr>scriptIdx = 0, segStart = 0, segEnd = 2,
          score = 1\<rparr>,
        \<lparr>scriptIdx = 1, segStart = 2, segEnd = 3,
          score = 8106479329266893 / 9007199254740992\<rparr>]"
    unfolding two_tokens by (rule two_dpAlign)
  have col: "collect (map (build_entry [''a b'', ''c'']
     [\<lparr>seg_start = 0, seg_end = 1, seg_text = ''a'', seg_words = None\<rparr>,
      \<lparr>seg_start = 1, seg_end = 2, seg_text = ''b'', seg_words = None\<rparr>,
      \<lparr>seg_start = 2, seg_end = 3, seg_text = ''c'', seg_words = None\<rparr>])
     [\<lparr>scriptIdx = 0, segStart = 0, segEnd = 2,
          score = 1\<rparr>,
        \<lparr>scriptIdx = 1, segStart = 2, segEnd = 3,
          score = 8106479329266893 / 9007199254740992\<rparr>])
   = Inr [\<lparr>scriptIndex = 0, scriptLine = ''a b'',
          matchedSegments = [0, 1], matchedText = ''a b'',
          trimmedStart = Some 0, trimmedEnd = Some 2,
          confidence = 1, status = Matched\<rparr>,
        \<lparr>scriptIndex = 1, scriptLine = ''c'',
          matchedSegments = [2], matchedText = ''c'',
          trimmedStart = Some 2, trimmedEnd = Some 3,
          confidence = 8106479329266893 / 9007199254740992, status = Matched\<rparr>]"
    unfolding list.map two_entry_0 two_entry_1 collect.simps sum.case by (rule refl)
  show ?thesis
    by (rule align_entries_of_dp [OF two_lines _ _ _ dp col]) simp_all
qed

theorem align_entries_ordered_witness:
  "\<exists>r. alignScriptToTranscript (''a b'' @ [CHR 0x0A] @ ''c'')
     (Some \<lparr>tr_segments = Some
        [\<lparr>seg_start = 0, seg_end = 1, seg_text = ''a'', seg_words = None\<rparr>,
         \<lparr>seg_start = 1, seg_end = 2, seg_text = ''b'', seg_words = None\<rparr>,
         \<lparr>seg_start = 2, seg_end = 3, seg_text = ''c'', seg_words = None\<rparr>]\<rparr>) = Inr r
     \<and> length (entries r) = length (splitScriptIntoLines (''a b'' @ [CHR 0x0A] @ ''c''))
     \<and> matchedSegments (entries r ! 0) \<noteq> [] \<and> matchedSegments (entries r ! 1) \<noteq> []
     \<and> last (matchedSegments (entries r ! 0)) < hd (matchedSegments (entries r ! 1))"
proof -
  define r where "r = \<lparr>entries =
           [\<lparr>scriptIndex = 0, scriptLine = ''a b'',
              matchedSegments = [0, 1], matchedText = ''a b'',
              trimmedStart = Some 0, trimmedEnd = Some 2,
              confidence = 1, status = Matched\<rparr>,
            \<lparr>scriptIndex = 1, scriptLine = ''c'',
              matchedSegments = [2], matchedText = ''c'',
              trimmedStart = Some 2, trimmedEnd = Some 3,
              confidence = 8106479329266893 / 9007199254740992, status = Matched\<rparr>],
         unusedSegments = unused_of
           [\<lparr>seg_start = 0, seg_end = 1, seg_text = ''a'', seg_words = None\<rparr>,
          \<lparr>seg_start = 1, seg_end = 2, seg_text = ''b'', seg_words = None\<rparr>,
          \<lparr>seg_start = 2, seg_end = 3, seg_text = ''c'', seg_words = None\<rparr>]
           [\<lparr>scriptIndex = 0, scriptLine = ''a b'',
              matchedSegments = [0, 1], matchedText = ''a b'',
              trimmedStart = Some 0, trimmedEnd = Some 2,
              confidence = 1, status = Matched\<rparr>,
            \<lparr>scriptIndex = 1, scriptLine = ''c'',
              matchedSegments = [2], matchedText = ''c'',
              trimmedStart = Some 2, trimmedEnd = Some 3,
              confidence = 8106479329266893 / 9007199254740992, status = Matched\<rparr>],
         stats = make_stats
           [\<lparr>scriptIndex = 0, scriptLine = ''a b'',
              matchedSegments = [0, 1], matchedText = ''a b'',
              trimmedStart = Some 0, trimmedEnd = Some 2,
              confidence = 1, status = Matched\<rparr>,
            \<lparr>scriptIndex = 1, scriptLine = ''c'',
              matchedSegments = [2], matchedText = ''c'',
              trimmedStart = Some 2, trimmedEnd = Some 3,
              confidence = 8106479329266893 / 9007199254740992, status = Matched\<rparr>]\<rparr>"
  have run: "alignScriptToTranscript (''a b'' @ [CHR 0x0A] @ ''c'')
     (Some \<lparr>tr_segments = Some
        [\<lparr>seg_start = 0, seg_end = 1, seg_text = ''a'', seg_words = None\<rparr>,
         \<lparr>seg_start = 1, seg_end = 2, seg_text = ''b'', seg_words = None\<rparr>,
         \<lparr>seg_start = 2, seg_end = 3, seg_text = ''c'', seg_words = None\<rparr>]\<rparr>) = Inr r"
    unfolding r_def by (rule two_run)
  note th = align_entries_ordered [OF run]
  have len: "length (entries r) = length (splitScriptIntoLines (''a b'' @ [CHR 0x0A] @ ''c''))"
    using th by (rule conjunct1)
  have ne: "matchedSegments (entries r ! 0) \<noteq> [] \<and> matchedSegments (entries r ! 1) \<noteq> []"
    by (simp add: r_def)
  have "\<forall>i j. i < j \<and> j < length (entries r)
            \<and> matchedSegments (entries r ! i) \<noteq> [] \<and> matchedSegments (entries r ! j) \<noteq> [] \<longrightarrow>
          last (matchedSegments (entries r ! i)) < hd (matchedSegments (entries r ! j))"
    using th by (elim conjE)
  moreover have "(0::nat) < 1 \<and> 1 < length (entries r)" by (simp add: r_def)
  ultimately have ord: "last (matchedSegments (entries r ! 0)) < hd (matchedSegments (entries r ! 1))"
    using ne by blast
  show ?thesis
    using run len ne ord by (intro exI [of _ r]) blast
qed

subsection \<open>Confidence and status\<close>

lemma ratio_unit: "x \<le> y \<Longrightarrow> 0 \<le> real x / real y \<and> real x / real y \<le> 1"
proof (cases "y = 0")
  case True
  then show ?thesis by simp
next
  case False
  assume "x \<le> y"
  moreover have "0 < real y" using False by simp
  ultimately show ?thesis by (simp only: divide_le_eq_1_pos of_nat_le_iff) simp
qed

lemma jaccard_bounds: "0 \<le> jaccard a b \<and> jaccard a b \<le> 1"
proof -
  define inter where "inter = length (filter (\<lambda>w. w \<in> set (remdups b)) (remdups a))"
  have le_a: "inter \<le> length (remdups a)"
    unfolding inter_def by (rule length_filter_le)
  have d: "distinct (filter (\<lambda>w. w \<in> set (remdups b)) (remdups a))" by simp
  have "inter = card (set (filter (\<lambda>w. w \<in> set (remdups b)) (remdups a)))"
    unfolding inter_def using distinct_card [OF d] by (rule sym)
  also have "\<dots> \<le> card (set b)"
    by (rule card_mono) auto
  also have "\<dots> = length (remdups b)" by (simp add: length_remdups_card_conv)
  finally have le_b: "inter \<le> length (remdups b)" .
  have "inter \<le> length (remdups a) + length (remdups b) - inter"
    using le_a le_b by simp
  then have "0 \<le> real inter / real (length (remdups a) + length (remdups b) - inter)
      \<and> real inter / real (length (remdups a) + length (remdups b) - inter) \<le> 1"
    by (rule ratio_unit)
  then show ?thesis
    unfolding jaccard_def Let_def inter_def [symmetric] by auto
qed

lemma unat_inc16_le: "unat (x + 1 :: u16) \<le> unat x + 1"
  by (simp add: unat_word_ariths)

lemma lcs_tab16_le: "unat (lcs_tab16 a b i j) \<le> min i j"
proof (induction a b i j rule: lcs_tab16.induct)
  case (1 a b j)
  then show ?case by simp
next
  case (2 a b i)
  then show ?case by simp
next
  case (3 a b i j)
  show ?case
  proof (cases "a ! i = b ! j")
    case True
    have "unat (lcs_tab16 a b i j + 1) \<le> unat (lcs_tab16 a b i j) + 1"
      by (rule unat_inc16_le)
    also have "\<dots> \<le> min i j + 1" using "3.IH"(1) [OF True] by simp
    finally show ?thesis using True by simp
  next
    case False
    have "unat (lcs_tab16 a b i (Suc j)) \<le> min i (Suc j)" by (rule "3.IH"(2) [OF False])
    moreover have "unat (lcs_tab16 a b (Suc i) j) \<le> min (Suc i) j"
      by (rule "3.IH"(3) [OF False])
    ultimately have "max (unat (lcs_tab16 a b i (Suc j))) (unat (lcs_tab16 a b (Suc i) j))
        \<le> min (Suc i) (Suc j)"
      by linarith
    then show ?thesis using False by (simp only: lcs_tab16.simps if_False unat_max16)
  qed
qed

lemma lcsRatio_bounds: "0 \<le> lcsRatio a b \<and> lcsRatio a b \<le> 1"
proof -
  have "lcsLength a b \<le> min (length a) (length b)"
    unfolding lcsLength_tab16 by (rule lcs_tab16_le)
  then have "lcsLength a b \<le> max (length a) (length b)" by (simp add: le_max_iff_disj)
  then have "0 \<le> real (lcsLength a b) / real (max (length a) (length b))
      \<and> real (lcsLength a b) / real (max (length a) (length b)) \<le> 1"
    by (rule ratio_unit)
  then show ?thesis unfolding lcsRatio_def Let_def by auto
qed

lemma foldl_abs_ge: "z \<le> foldl (\<lambda>acc (pa, pb). acc + \<bar>pa - pb :: real\<bar>) z ps"
proof (induction ps arbitrary: z)
  case Nil
  then show ?case by simp
next
  case (Cons p ps)
  obtain pa pb where p: "p = (pa, pb)" by (cases p)
  have "z \<le> z + \<bar>pa - pb\<bar>" by simp
  also have "\<dots> \<le> foldl (\<lambda>acc (pa, pb). acc + \<bar>pa - pb\<bar>) (z + \<bar>pa - pb\<bar>) ps"
    by (rule Cons.IH)
  finally show ?case by (simp add: p)
qed

lemma wordOrderScore_bounds: "0 \<le> wordOrderScore a b \<and> wordOrderScore a b \<le> 1"
proof -
  have "0 \<le> foldl (\<lambda>acc (pa, pb). acc + \<bar>pa - pb :: real\<bar>) 0 (order_pairs a b)
      / real (length (order_pairs a b))"
    using foldl_abs_ge [of 0 "order_pairs a b"] by simp
  then show ?thesis by (simp add: wordOrderScore_def Let_def)
qed

lemma combinedScore_bounds: "0 \<le> combinedScore a b \<and> combinedScore a b \<le> 1"
proof -
  have "0 \<le> 0.35 * jaccard a b + 0.45 * lcsRatio a b + 0.20 * wordOrderScore a b"
    using jaccard_bounds [of a b] lcsRatio_bounds [of a b] wordOrderScore_bounds [of a b]
    by simp
  moreover have "0.35 * jaccard a b + 0.45 * lcsRatio a b + 0.20 * wordOrderScore a b \<le> 1"
    using jaccard_bounds [of a b] lcsRatio_bounds [of a b] wordOrderScore_bounds [of a b]
    by simp
  ultimately show ?thesis by (simp add: combinedScore_def Let_def)
qed

lemma jaccard64_bounds: "0 \<le> jaccard64 a b \<and> jaccard64 a b \<le> 1"
  using jaccard_bounds [of a b] rnd_mono [of 0 "jaccard a b"] rnd_mono [of "jaccard a b" 1]
  by (simp add: jaccard64_rnd rnd_0 rnd_1)

lemma lcsRatio64_bounds: "0 \<le> lcsRatio64 a b \<and> lcsRatio64 a b \<le> 1"
  using lcsRatio_bounds [of a b] rnd_mono [of 0 "lcsRatio a b"] rnd_mono [of "lcsRatio a b" 1]
  by (simp add: lcsRatio64_rnd rnd_0 rnd_1)

lemma foldl_fadd_abs_ge:
  "0 \<le> z \<Longrightarrow> 0 \<le> foldl (\<lambda>acc (pa, pb). fadd acc \<bar>fsub pa pb\<bar>) z ps"
proof (induction ps arbitrary: z)
  case Nil
  then show ?case by simp
next
  case (Cons p ps)
  obtain pa pb where p: "p = (pa, pb)" by (cases p)
  have "0 \<le> fadd z \<bar>fsub pa pb\<bar>"
    unfolding fadd_def using Cons.prems by (intro rnd_nonneg) simp
  then have "0 \<le> foldl (\<lambda>acc (pa, pb). fadd acc \<bar>fsub pa pb\<bar>) (fadd z \<bar>fsub pa pb\<bar>) ps"
    by (rule Cons.IH)
  then show ?case by (simp add: p)
qed

lemma wordOrderScore64_bounds: "0 \<le> wordOrderScore64 a b \<and> wordOrderScore64 a b \<le> 1"
proof -
  define tot where
    "tot = foldl (\<lambda>acc (pa, pb). fadd acc \<bar>fsub pa pb\<bar>) 0 (order_pairs64 a b)"
  define mean where "mean = fdiv tot (real (length (order_pairs64 a b)))"
  have "0 \<le> tot" unfolding tot_def by (rule foldl_fadd_abs_ge) simp
  then have "0 \<le> mean" unfolding mean_def fdiv_def by (intro rnd_nonneg) simp
  then have "rnd (1 - mean) \<le> rnd 1" by (intro rnd_mono) simp
  then have "fsub 1 mean \<le> 1" by (simp add: fsub_def rnd_1)
  then show ?thesis
    by (simp add: wordOrderScore64_def Let_def tot_def [symmetric] mean_def [symmetric])
qed

lemma combinedScore64_bounds: "0 \<le> combinedScore64 a b \<and> combinedScore64 a b \<le> 1"
proof (cases "length a = 0 \<or> length b = 0")
  case True
  then show ?thesis by (simp add: combinedScore64_def)
next
  case False
  define j where "j = jaccard64 a b"
  define l where "l = lcsRatio64 a b"
  define ord where "ord = wordOrderScore64 a b"
  define c35 where "c35 = rnd 0.35"
  define c45 where "c45 = rnd 0.45"
  define c20 where "c20 = rnd 0.20"
  have j: "0 \<le> j" "j \<le> 1" using jaccard64_bounds [of a b] by (simp_all add: j_def)
  have l: "0 \<le> l" "l \<le> 1" using lcsRatio64_bounds [of a b] by (simp_all add: l_def)
  have ord: "0 \<le> ord" "ord \<le> 1" using wordOrderScore64_bounds [of a b] by (simp_all add: ord_def)
  have v35: "c35 = 3152519739159347 / 9007199254740992" by (simp add: c35_def rnd_035)
  have v45: "c45 = 8106479329266893 / 18014398509481984" by (simp add: c45_def rnd_045)
  have v20: "c20 = 3602879701896397 / 18014398509481984" by (simp add: c20_def rnd_020)
  have pos: "0 \<le> c35" "0 \<le> c45" "0 \<le> c20" by (simp_all add: v35 v45 v20)
  have i35: "rnd c35 = c35" unfolding v35 by (rule rnd_weight_035)
  have i45: "rnd c45 = c45" unfolding v45 by (rule rnd_weight_045)
  have i20: "rnd c20 = c20" unfolding v20 by (rule rnd_weight_020)
  have a: "0 \<le> fmul c35 j" "fmul c35 j \<le> c35"
  proof -
    show "0 \<le> fmul c35 j" unfolding fmul_def using pos(1) j(1) by (intro rnd_nonneg) simp
    have "c35 * j \<le> c35 * 1" using pos(1) j(2) by (intro mult_left_mono)
    then have "rnd (c35 * j) \<le> rnd c35" using rnd_mono [of "c35 * j" c35] by simp
    then show "fmul c35 j \<le> c35" by (simp add: fmul_def i35)
  qed
  have b: "0 \<le> fmul c45 l" "fmul c45 l \<le> c45"
  proof -
    show "0 \<le> fmul c45 l" unfolding fmul_def using pos(2) l(1) by (intro rnd_nonneg) simp
    have "c45 * l \<le> c45 * 1" using pos(2) l(2) by (intro mult_left_mono)
    then have "rnd (c45 * l) \<le> rnd c45" using rnd_mono [of "c45 * l" c45] by simp
    then show "fmul c45 l \<le> c45" by (simp add: fmul_def i45)
  qed
  have c: "0 \<le> fmul c20 ord" "fmul c20 ord \<le> c20"
  proof -
    show "0 \<le> fmul c20 ord" unfolding fmul_def using pos(3) ord(1) by (intro rnd_nonneg) simp
    have "c20 * ord \<le> c20 * 1" using pos(3) ord(2) by (intro mult_left_mono)
    then have "rnd (c20 * ord) \<le> rnd c20" using rnd_mono [of "c20 * ord" c20] by simp
    then show "fmul c20 ord \<le> c20" by (simp add: fmul_def i20)
  qed
  have s2: "rnd (c35 + c45) = 3602879701896397 / 4503599627370496"
    using rnd_weights_sum2 by (simp add: v35 v45)
  have ab: "0 \<le> fadd (fmul c35 j) (fmul c45 l)"
    "fadd (fmul c35 j) (fmul c45 l) \<le> 3602879701896397 / 4503599627370496"
  proof -
    show "0 \<le> fadd (fmul c35 j) (fmul c45 l)"
      unfolding fadd_def using a(1) b(1) by (intro rnd_nonneg) simp
    have "rnd (fmul c35 j + fmul c45 l) \<le> rnd (c35 + c45)"
      using a(2) b(2) by (intro rnd_mono) simp
    then show "fadd (fmul c35 j) (fmul c45 l) \<le> 3602879701896397 / 4503599627370496"
      by (simp add: fadd_def s2)
  qed
  have s3: "rnd (3602879701896397 / 4503599627370496 + c20) = 1"
    using rnd_weights_sum3 by (simp add: v20)
  have lo: "0 \<le> fadd (fadd (fmul c35 j) (fmul c45 l)) (fmul c20 ord)"
    unfolding fadd_def [of "fadd (fmul c35 j) (fmul c45 l)"] using ab(1) c(1)
    by (intro rnd_nonneg) simp
  have "rnd (fadd (fmul c35 j) (fmul c45 l) + fmul c20 ord)
      \<le> rnd (3602879701896397 / 4503599627370496 + c20)"
    using ab(2) c(2) by (intro rnd_mono) simp
  then have hi: "fadd (fadd (fmul c35 j) (fmul c45 l)) (fmul c20 ord) \<le> 1"
    unfolding fadd_def [of "fadd (fmul c35 j) (fmul c45 l)"] s3 .
  have "combinedScore64 a b = fadd (fadd (fmul c35 j) (fmul c45 l)) (fmul c20 ord)"
    using False by (simp add: combinedScore64_def Let_def j_def l_def ord_def c35_def c45_def c20_def)
  then show ?thesis using lo hi by simp
qed

lemma score_table_bounds:
  "0 \<le> score_table sts segs s t n \<and> score_table sts segs s t n \<le> 1"
  using combinedScore64_bounds by (simp add: score_table_def scoreMultiSegment_def Let_def)

lemma round3_mono: "x \<le> y \<Longrightarrow> round3 x \<le> round3 y"
proof -
  assume "x \<le> y"
  then have "rnd (x * 1000) \<le> rnd (y * 1000)" by (intro rnd_mono) simp
  then have "js_round (fmul x 1000) \<le> js_round (fmul y 1000)"
    unfolding js_round_def fmul_def by (intro floor_mono) simp
  then have "real_of_int (js_round (fmul x 1000)) / 1000 \<le> real_of_int (js_round (fmul y 1000)) / 1000"
    by (intro divide_right_mono) simp_all
  then show ?thesis unfolding round3_def fdiv_def by (rule rnd_mono)
qed

lemma round3_values:
  "round3 0 = 0" "round3 1 = 1" "round3 (rnd 0.7) = rnd 0.7" "round3 (rnd 0.3) = rnd 0.3"
  by (simp_all add: round3_def js_round_def fmul_def fdiv_def rnd_0 rnd_1 rnd_1000 rnd_07 rnd_03
      rnd_700 rnd_300)

lemma status_of_iff:
  "status_of x = Matched \<longleftrightarrow> rnd 0.7 \<le> x"
  "status_of x = Approximate \<longleftrightarrow> rnd 0.3 \<le> x \<and> x < rnd 0.7"
  "status_of x = Unmatched \<longleftrightarrow> x < rnd 0.3"
  by (auto simp: status_of_def rnd_03 rnd_07)

lemma round3_unit: "0 \<le> x \<Longrightarrow> x \<le> 1 \<Longrightarrow> 0 \<le> round3 x \<and> round3 x \<le> 1"
  using round3_mono [of 0 x] round3_mono [of x 1] by (simp add: round3_values)

lemma round3_thresholds:
  "rnd 0.7 \<le> x \<Longrightarrow> rnd 0.7 \<le> round3 x"
  "x < rnd 0.7 \<Longrightarrow> round3 x \<le> rnd 0.7"
  "rnd 0.3 \<le> x \<Longrightarrow> rnd 0.3 \<le> round3 x"
  "x < rnd 0.3 \<Longrightarrow> round3 x \<le> rnd 0.3"
  using round3_mono [of "rnd 0.7" x] round3_mono [of x "rnd 0.7"]
    round3_mono [of "rnd 0.3" x] round3_mono [of x "rnd 0.3"]
  by (simp_all add: round3_values)

lemma entry_for_score:
  assumes "entry_for lines segs sc i c e"
  shows "confidence e = round3 (win_score sc i c)" and "status e = status_of (win_score sc i c)"
  using assms
  by (auto simp: entry_for_def win_score_def round3_values status_of_def rnd_03 rnd_07
      split: choice.splits)

lemma win_score_bounds:
  "0 \<le> win_score (score_table sts segs) i c \<and> win_score (score_table sts segs) i c \<le> 1"
  using score_table_bounds by (cases c) (simp_all add: win_score_def)

lemma align_result_scores:
  assumes "alignScriptToTranscript text tr = Inr r"
    and "tr = Some t" and "tr_segments t = Some segs"
  shows "\<exists>as. dpAlign (map tokenize (splitScriptIntoLines text)) segs = Inr as
      \<and> length as = length (entries r)
      \<and> (\<forall>i<length (entries r).
            0 \<le> score (as ! i) \<and> score (as ! i) \<le> 1
            \<and> confidence (entries r ! i) = round3 (score (as ! i))
            \<and> status (entries r ! i) = status_of (score (as ! i)))"
proof -
  define lines where "lines = splitScriptIntoLines text"
  obtain t' segs' where v': "tr = Some t'" "tr_segments t' = Some segs'" "text \<noteq> []"
      "segs' \<noteq> []" "splitScriptIntoLines text \<noteq> []"
    using align_Inr_valid [OF assms(1)] by blast
  then have v: "tr = Some t" "tr_segments t = Some segs" "text \<noteq> []" "segs \<noteq> []"
      "splitScriptIntoLines text \<noteq> []"
    using assms(2,3) by auto
  define sc where "sc = score_table (map tokenize lines) segs"
  obtain as where as: "dpAlign (map tokenize lines) segs = Inr as"
      "length as = length lines"
      "\<forall>i<length lines. scriptIdx (as ! i) = i"
      "\<forall>i<length lines. score (as ! i) = win_score sc i (choice_of (as ! i))"
      "\<forall>a\<in>set as. (segStart a = - 1 \<and> segEnd a = - 1)
            \<or> (\<exists>t2 spn. segStart a = int t2 \<and> segEnd a = int (t2 + spn))"
    using dpAlign_props [of "map tokenize lines" segs] unfolding sc_def by auto
  obtain as' es where es: "dpAlign (map tokenize lines) segs = Inr as'"
      "length es = length lines"
      "\<forall>i<length lines. build_entry lines segs (as' ! i) = Inr (es ! i)"
      "alignScriptToTranscript text tr =
         Inr \<lparr>entries = es, unusedSegments = unused_of segs es, stats = make_stats es\<rparr>"
    using align_success [OF v] unfolding lines_def by blast
  have same: "as' = as" using as(1) es(1) by simp
  have ent: "entries r = es" using assms(1) es(4) by auto
  have each: "0 \<le> score (as ! i) \<and> score (as ! i) \<le> 1
            \<and> confidence (entries r ! i) = round3 (score (as ! i))
            \<and> status (entries r ! i) = status_of (score (as ! i))"
    if "i < length lines" for i
  proof -
    have mem: "as ! i \<in> set as" using that as(2) by simp
    have sci: "score (as ! i) = win_score sc i (choice_of (as ! i))" using as(4) that by blast
    have "entry_for lines segs sc i (choice_of (as ! i)) (es ! i)"
      using as(5) mem as(3) sci es(3) that same by (intro build_entry_for) auto
    then have "confidence (es ! i) = round3 (win_score sc i (choice_of (as ! i)))"
      and "status (es ! i) = status_of (win_score sc i (choice_of (as ! i)))"
      by (rule entry_for_score)+
    then show ?thesis
      using sci ent win_score_bounds [of "map tokenize lines" segs i "choice_of (as ! i)"]
      unfolding sc_def by simp
  qed
  show ?thesis
    using as(1,2) es(2) ent each unfolding lines_def by (intro exI [of _ as]) simp
qed

text \<open>
  The script \<^verbatim>\<open>g b c e a\<close> against the single segment \<^verbatim>\<open>d e h f c b\<close>: the score with the
  certificates of its roundings, the assignment and the result. The score is about
  0.29958.
\<close>

lemma near_pair_0_exact:
  "jaccard [''g'', ''b'', ''c'', ''e'', ''a''] [''d'', ''e'', ''h'', ''f'', ''c'', ''b''] = 3 / 8"
  "lcsRatio [''g'', ''b'', ''c'', ''e'', ''a''] [''d'', ''e'', ''h'', ''f'', ''c'', ''b''] = 1 / 6"
  "order_pairs [''g'', ''b'', ''c'', ''e'', ''a''] [''d'', ''e'', ''h'', ''f'', ''c'', ''b''] = [(1 / 4, 1), (1 / 2, 4 / 5), (3 / 4, 1 / 5)]"
  by code_simp+

lemma rnd_val_47: "rnd (3 / 8) = 3 / 8"
  using rnd_cert [of 54 "3 / 8" 6755399441055744] by simp

lemma rnd_val_48: "rnd (1 / 6) = 6004799503160661 / 36028797018963968"
  using rnd_cert [of 55 "1 / 6" 6004799503160661] by simp

lemma rnd_val_49: "rnd (4203359652212463 / 9007199254740992) = 4203359652212463 / 9007199254740992"
  using rnd_cert [of 54 "4203359652212463 / 9007199254740992" 8406719304424926] by simp

lemma rnd_val_50: "rnd (3602879701896397 / 6755399441055744) = 4803839602528529 / 9007199254740992"
  using rnd_cert [of 53 "3602879701896397 / 6755399441055744" 4803839602528529] by simp

lemma rnd_val_51: "rnd (9907919180215091 / 18014398509481984) = 2476979795053773 / 4503599627370496"
  using rnd_cert_tie [of 53 "9907919180215091 / 18014398509481984" 4953959590107546] by simp

lemma rnd_val_52: "rnd (4 / 5) = 3602879701896397 / 4503599627370496"
  using rnd_cert [of 53 "4 / 5" 7205759403792794] by simp

lemma rnd_val_53: "rnd (4728779608739021 / 4503599627370496) = 4728779608739021 / 4503599627370496"
  using rnd_cert [of 52 "4728779608739021 / 4503599627370496" 4728779608739021] by simp

lemma rnd_val_54: "rnd (3602879701896397 / 2251799813685248) = 3602879701896397 / 2251799813685248"
  using rnd_cert [of 52 "3602879701896397 / 2251799813685248" 7205759403792794] by simp

lemma rnd_val_55: "rnd (48677783048764007516273527296273 / 649037107316853453566312041152512) = 5404319552844595 / 72057594037927936"
  using rnd_cert [of 56 "48677783048764007516273527296273 / 649037107316853453566312041152512" 5404319552844595] by simp

lemma rnd_val_56: "rnd (15144199170726581664077858195811 / 162259276829213363391578010288128) = 6725375443539941 / 72057594037927936"
  using rnd_cert [of 56 "15144199170726581664077858195811 / 162259276829213363391578010288128" 6725375443539941] by simp

lemma rnd_val_57: "rnd (9457559217478041 / 72057594037927936) = 1182194902184755 / 9007199254740992"
  using rnd_cert_tie [of 55 "9457559217478041 / 72057594037927936" 4728779608739020] by simp

lemma rnd_val_58: "rnd (14861878770322635 / 72057594037927936) = 3715469692580659 / 18014398509481984"
  using rnd_cert_tie [of 55 "14861878770322635 / 72057594037927936" 7430939385161318] by simp

lemma rnd_val_59: "rnd (21587254213862577 / 72057594037927936) = 1349203388366411 / 4503599627370496"
  using rnd_cert [of 54 "21587254213862577 / 72057594037927936" 5396813553465644] by simp

lemma near_pair_0:
  "combinedScore64 [''g'', ''b'', ''c'', ''e'', ''a''] [''d'', ''e'', ''h'', ''f'', ''c'', ''b'']
     = 1349203388366411 / 4503599627370496"
proof -
  have j: "jaccard64 [''g'', ''b'', ''c'', ''e'', ''a''] [''d'', ''e'', ''h'', ''f'', ''c'', ''b''] = 3 / 8"
    by (simp add: jaccard64_rnd near_pair_0_exact rnd_0 rnd_val_47)
  have l: "lcsRatio64 [''g'', ''b'', ''c'', ''e'', ''a''] [''d'', ''e'', ''h'', ''f'', ''c'', ''b''] = 6004799503160661 / 36028797018963968"
    by (simp add: lcsRatio64_rnd near_pair_0_exact rnd_0 rnd_val_48)
  have ord: "wordOrderScore64 [''g'', ''b'', ''c'', ''e'', ''a''] [''d'', ''e'', ''h'', ''f'', ''c'', ''b''] = 4203359652212463 / 9007199254740992"
    by (simp add: wordOrderScore64_def order_pairs64_rnd near_pair_0_exact Let_def
        fadd_def fsub_def fdiv_def rnd_0 rnd_minus rnd_020 rnd_val_8 rnd_val_28 rnd_val_49 rnd_val_2 rnd_val_50 rnd_val_51 rnd_val_21 rnd_val_52 rnd_1 rnd_val_53 rnd_val_54)
  show ?thesis
    by (simp add: combinedScore64_def Let_def j l ord fadd_def fmul_def rnd_0
        rnd_val_55 rnd_val_56 rnd_val_57 rnd_020 rnd_val_58 rnd_val_59 rnd_035 rnd_045)
qed

lemma near_score_0_0_1:
  "score_table [[''g'', ''b'', ''c'', ''e'', ''a'']]
     [\<lparr>seg_start = 0, seg_end = 1, seg_text = ''d e h f c b'', seg_words = None\<rparr>] 0 0 1
   = 1349203388366411 / 4503599627370496"
proof -
  have a: "[[''g'', ''b'', ''c'', ''e'', ''a'']] ! 0 = [''g'', ''b'', ''c'', ''e'', ''a'']" by simp
  have w: "tokenize (js_join '' '' (map seg_text (slice_list 0 (0 + 1)
     [\<lparr>seg_start = 0, seg_end = 1, seg_text = ''d e h f c b'', seg_words = None\<rparr>]))) = [''d'', ''e'', ''h'', ''f'', ''c'', ''b'']"
    by code_simp
  show ?thesis
    unfolding score_table_def scoreMultiSegment_def Let_def a w by (rule near_pair_0)
qed

lemma rnd_val_60: "rnd (1349203388366411 / 4503599627370496) = 1349203388366411 / 4503599627370496"
  using rnd_cert [of 54 "1349203388366411 / 4503599627370496" 5396813553465644] by simp

lemma near_row_0:
  "dp_row (score_table [[''g'', ''b'', ''c'', ''e'', ''a'']]
     [\<lparr>seg_start = 0, seg_end = 1, seg_text = ''d e h f c b'', seg_words = None\<rparr>] 0)
     [0, 0] 1
   = [(1349203388366411 / 4503599627370496, Match 0 1),
      (0, Skip)]"
  by (simp add: dp_row_def dp_cell_def windows_def spans_at_def MAX_SPAN_def upt_rec dp_try_def
      Let_def fadd_def rnd_0 numeral_2_eq_2 numeral_3_eq_3
      near_score_0_0_1 [unfolded numeral_2_eq_2 numeral_3_eq_3 One_nat_def]
      rnd_015 rnd_val_60)

lemma near_dpAlign:
  "dpAlign [[''g'', ''b'', ''c'', ''e'', ''a'']]
     [\<lparr>seg_start = 0, seg_end = 1, seg_text = ''d e h f c b'', seg_words = None\<rparr>]
   = Inr [\<lparr>scriptIdx = 0, segStart = 0, segEnd = 1,
          score = 1349203388366411 / 4503599627370496\<rparr>]"
  by (simp add: dpAlign_def Let_def
      near_row_0 [unfolded numeral_2_eq_2 numeral_3_eq_3 One_nat_def]
      near_score_0_0_1 [unfolded numeral_2_eq_2 numeral_3_eq_3 One_nat_def])

lemma near_lines: "splitScriptIntoLines ''g b c e a'' = [''g b c e a'']"
  by code_simp

lemma near_tokens: "map tokenize [''g b c e a''] = [[''g'', ''b'', ''c'', ''e'', ''a'']]"
  by code_simp

lemma near_entry_0:
  "build_entry [''g b c e a'']
     [\<lparr>seg_start = 0, seg_end = 1, seg_text = ''d e h f c b'', seg_words = None\<rparr>]
     \<lparr>scriptIdx = 0, segStart = 0, segEnd = 1,
          score = 1349203388366411 / 4503599627370496\<rparr>
   = Inr \<lparr>scriptIndex = 0, scriptLine = ''g b c e a'',
          matchedSegments = [0], matchedText = ''d e h f c b'',
          trimmedStart = Some 0, trimmedEnd = Some 1,
          confidence = 5404319552844595 / 18014398509481984, status = Unmatched\<rparr>"
  by code_simp

lemma near_run:
  "alignScriptToTranscript ''g b c e a''
     (Some \<lparr>tr_segments = Some
       [\<lparr>seg_start = 0, seg_end = 1, seg_text = ''d e h f c b'', seg_words = None\<rparr>]\<rparr>)
   = Inr \<lparr>entries =
       [\<lparr>scriptIndex = 0, scriptLine = ''g b c e a'',
          matchedSegments = [0], matchedText = ''d e h f c b'',
          trimmedStart = Some 0, trimmedEnd = Some 1,
          confidence = 5404319552844595 / 18014398509481984, status = Unmatched\<rparr>],
     unusedSegments = unused_of
       [\<lparr>seg_start = 0, seg_end = 1, seg_text = ''d e h f c b'', seg_words = None\<rparr>]
       [\<lparr>scriptIndex = 0, scriptLine = ''g b c e a'',
          matchedSegments = [0], matchedText = ''d e h f c b'',
          trimmedStart = Some 0, trimmedEnd = Some 1,
          confidence = 5404319552844595 / 18014398509481984, status = Unmatched\<rparr>],
     stats = make_stats
       [\<lparr>scriptIndex = 0, scriptLine = ''g b c e a'',
          matchedSegments = [0], matchedText = ''d e h f c b'',
          trimmedStart = Some 0, trimmedEnd = Some 1,
          confidence = 5404319552844595 / 18014398509481984, status = Unmatched\<rparr>]\<rparr>"
proof -
  have dp: "dpAlign (map tokenize [''g b c e a''])
     [\<lparr>seg_start = 0, seg_end = 1, seg_text = ''d e h f c b'', seg_words = None\<rparr>]
   = Inr [\<lparr>scriptIdx = 0, segStart = 0, segEnd = 1,
          score = 1349203388366411 / 4503599627370496\<rparr>]"
    unfolding near_tokens by (rule near_dpAlign)
  have col: "collect (map (build_entry [''g b c e a'']
     [\<lparr>seg_start = 0, seg_end = 1, seg_text = ''d e h f c b'', seg_words = None\<rparr>])
     [\<lparr>scriptIdx = 0, segStart = 0, segEnd = 1,
          score = 1349203388366411 / 4503599627370496\<rparr>])
   = Inr [\<lparr>scriptIndex = 0, scriptLine = ''g b c e a'',
          matchedSegments = [0], matchedText = ''d e h f c b'',
          trimmedStart = Some 0, trimmedEnd = Some 1,
          confidence = 5404319552844595 / 18014398509481984, status = Unmatched\<rparr>]"
    unfolding list.map near_entry_0 collect.simps sum.case by (rule refl)
  show ?thesis
    by (rule align_entries_of_dp [OF near_lines _ _ _ dp col]) simp_all
qed

text \<open>
  Claim C4, as stated: status is a function of the reported confidence, approximate
  exactly when the confidence is at least 0.3 and below 0.7. The thresholds are applied
  to the score before it is rounded to three decimals: the score above is below the
  double 0.3, the status is unmatched, and the reported confidence is the double 0.3.
\<close>

theorem align_confidence_status_counterexample:
  "\<exists>r. alignScriptToTranscript ''g b c e a''
     (Some \<lparr>tr_segments = Some
        [\<lparr>seg_start = 0, seg_end = 1, seg_text = ''d e h f c b'', seg_words = None\<rparr>]\<rparr>)
       = Inr r
     \<and> rnd 0.3 \<le> confidence (entries r ! 0) \<and> confidence (entries r ! 0) < rnd 0.7
     \<and> status (entries r ! 0) \<noteq> Approximate"
  using near_run by (simp add: rnd_03 rnd_07)

text \<open>
  Claim C4, amended: for every entry of every result, the confidence lies in [0, 1] and
  is the score of the entry's assignment rounded to three decimals in binary64
  (\<^verbatim>\<open>Math.round(score * 1000) / 1000\<close>); status is a function of that unrounded score and
  the doubles 0.7 and 0.3: matched exactly when the score is at least 0.7, approximate
  exactly when it is at least 0.3 and below 0.7, unmatched otherwise. In terms of the
  confidence: matched implies confidence at least 0.7, confidence above 0.7 implies
  matched, approximate implies confidence between 0.3 and 0.7 inclusive, unmatched implies
  confidence at most 0.3.
\<close>

theorem align_confidence_status:
  assumes "alignScriptToTranscript text tr = Inr r"
    and "tr = Some t" and "tr_segments t = Some segs"
  shows "\<exists>as. dpAlign (map tokenize (splitScriptIntoLines text)) segs = Inr as
      \<and> length as = length (entries r)
      \<and> (\<forall>i<length (entries r).
            0 \<le> confidence (entries r ! i) \<and> confidence (entries r ! i) \<le> 1
            \<and> confidence (entries r ! i) = round3 (score (as ! i))
            \<and> (status (entries r ! i) = Matched \<longleftrightarrow> rnd 0.7 \<le> score (as ! i))
            \<and> (status (entries r ! i) = Approximate \<longleftrightarrow>
                  rnd 0.3 \<le> score (as ! i) \<and> score (as ! i) < rnd 0.7)
            \<and> (status (entries r ! i) = Unmatched \<longleftrightarrow> score (as ! i) < rnd 0.3)
            \<and> (status (entries r ! i) = Matched \<longrightarrow> rnd 0.7 \<le> confidence (entries r ! i))
            \<and> (rnd 0.7 < confidence (entries r ! i) \<longrightarrow> status (entries r ! i) = Matched)
            \<and> (status (entries r ! i) = Approximate \<longrightarrow>
                  rnd 0.3 \<le> confidence (entries r ! i) \<and> confidence (entries r ! i) \<le> rnd 0.7)
            \<and> (status (entries r ! i) = Unmatched \<longrightarrow> confidence (entries r ! i) \<le> rnd 0.3))"
proof -
  obtain as where as: "dpAlign (map tokenize (splitScriptIntoLines text)) segs = Inr as"
      "length as = length (entries r)"
      "\<forall>i<length (entries r).
            0 \<le> score (as ! i) \<and> score (as ! i) \<le> 1
            \<and> confidence (entries r ! i) = round3 (score (as ! i))
            \<and> status (entries r ! i) = status_of (score (as ! i))"
    using align_result_scores [OF assms] by blast
  have "0 \<le> confidence (entries r ! i) \<and> confidence (entries r ! i) \<le> 1
            \<and> confidence (entries r ! i) = round3 (score (as ! i))
            \<and> (status (entries r ! i) = Matched \<longleftrightarrow> rnd 0.7 \<le> score (as ! i))
            \<and> (status (entries r ! i) = Approximate \<longleftrightarrow>
                  rnd 0.3 \<le> score (as ! i) \<and> score (as ! i) < rnd 0.7)
            \<and> (status (entries r ! i) = Unmatched \<longleftrightarrow> score (as ! i) < rnd 0.3)
            \<and> (status (entries r ! i) = Matched \<longrightarrow> rnd 0.7 \<le> confidence (entries r ! i))
            \<and> (rnd 0.7 < confidence (entries r ! i) \<longrightarrow> status (entries r ! i) = Matched)
            \<and> (status (entries r ! i) = Approximate \<longrightarrow>
                  rnd 0.3 \<le> confidence (entries r ! i) \<and> confidence (entries r ! i) \<le> rnd 0.7)
            \<and> (status (entries r ! i) = Unmatched \<longrightarrow> confidence (entries r ! i) \<le> rnd 0.3)"
    if i: "i < length (entries r)" for i
  proof -
    define x where "x = score (as ! i)"
    define r7 where "r7 = rnd 0.7"
    define r3 where "r3 = rnd 0.3"
    have x: "0 \<le> x" "x \<le> 1" and c: "confidence (entries r ! i) = round3 x"
      and st: "status (entries r ! i) = status_of x"
      using as(3) i unfolding x_def by blast+
    have unit: "0 \<le> round3 x \<and> round3 x \<le> 1" using x by (rule round3_unit)
    have iff: "status_of x = Matched \<longleftrightarrow> r7 \<le> x"
      "status_of x = Approximate \<longleftrightarrow> r3 \<le> x \<and> x < r7"
      "status_of x = Unmatched \<longleftrightarrow> x < r3"
      unfolding r7_def r3_def by (rule status_of_iff)+
    have th: "r7 \<le> x \<Longrightarrow> r7 \<le> round3 x" "x < r7 \<Longrightarrow> round3 x \<le> r7"
      "r3 \<le> x \<Longrightarrow> r3 \<le> round3 x" "x < r3 \<Longrightarrow> round3 x \<le> r3"
      unfolding r7_def r3_def by (rule round3_thresholds; assumption)+
    have m: "status_of x = Matched \<longrightarrow> r7 \<le> round3 x"
      using th(1) iff(1) by blast
    have m': "r7 < round3 x \<longrightarrow> status_of x = Matched"
    proof
      assume "r7 < round3 x"
      then have "\<not> x < r7" using th(2) by linarith
      then have "r7 \<le> x" by linarith
      then show "status_of x = Matched" by (simp only: iff(1))
    qed
    have a: "status_of x = Approximate \<longrightarrow> r3 \<le> round3 x \<and> round3 x \<le> r7"
      using th(2,3) iff(2) by blast
    have u: "status_of x = Unmatched \<longrightarrow> round3 x \<le> r3"
      using th(4) iff(3) by blast
    show ?thesis
      unfolding c st x_def [symmetric] r7_def [symmetric] r3_def [symmetric]
      using unit m m' a u iff by blast
  qed
  then show ?thesis using as(1,2) by blast
qed

theorem align_confidence_status_witness:
  "\<exists>as. dpAlign (map tokenize (splitScriptIntoLines ''g b c e a''))
        [\<lparr>seg_start = 0, seg_end = 1, seg_text = ''d e h f c b'', seg_words = None\<rparr>] = Inr as
     \<and> score (as ! 0) < rnd 0.3 \<and> round3 (score (as ! 0)) = rnd 0.3"
proof -
  let ?segs = "[\<lparr>seg_start = 0, seg_end = 1, seg_text = ''d e h f c b'', seg_words = None\<rparr>]"
  define r where "r = \<lparr>entries =
           [\<lparr>scriptIndex = 0, scriptLine = ''g b c e a'',
              matchedSegments = [0], matchedText = ''d e h f c b'',
              trimmedStart = Some 0, trimmedEnd = Some 1,
              confidence = 5404319552844595 / 18014398509481984, status = Unmatched\<rparr>],
         unusedSegments = unused_of
           [\<lparr>seg_start = 0, seg_end = 1, seg_text = ''d e h f c b'', seg_words = None\<rparr>]
           [\<lparr>scriptIndex = 0, scriptLine = ''g b c e a'',
              matchedSegments = [0], matchedText = ''d e h f c b'',
              trimmedStart = Some 0, trimmedEnd = Some 1,
              confidence = 5404319552844595 / 18014398509481984, status = Unmatched\<rparr>],
         stats = make_stats
           [\<lparr>scriptIndex = 0, scriptLine = ''g b c e a'',
              matchedSegments = [0], matchedText = ''d e h f c b'',
              trimmedStart = Some 0, trimmedEnd = Some 1,
              confidence = 5404319552844595 / 18014398509481984, status = Unmatched\<rparr>]\<rparr>"
  have run: "alignScriptToTranscript ''g b c e a'' (Some \<lparr>tr_segments = Some ?segs\<rparr>) = Inr r"
    unfolding r_def by (rule near_run)
  have seg: "tr_segments \<lparr>tr_segments = Some ?segs\<rparr> = Some ?segs" by simp
  obtain as where dp: "dpAlign (map tokenize (splitScriptIntoLines ''g b c e a'')) ?segs = Inr as"
    and each: "\<forall>i<length (entries r).
            0 \<le> confidence (entries r ! i) \<and> confidence (entries r ! i) \<le> 1
            \<and> confidence (entries r ! i) = round3 (score (as ! i))
            \<and> (status (entries r ! i) = Matched \<longleftrightarrow> rnd 0.7 \<le> score (as ! i))
            \<and> (status (entries r ! i) = Approximate \<longleftrightarrow>
                  rnd 0.3 \<le> score (as ! i) \<and> score (as ! i) < rnd 0.7)
            \<and> (status (entries r ! i) = Unmatched \<longleftrightarrow> score (as ! i) < rnd 0.3)
            \<and> (status (entries r ! i) = Matched \<longrightarrow> rnd 0.7 \<le> confidence (entries r ! i))
            \<and> (rnd 0.7 < confidence (entries r ! i) \<longrightarrow> status (entries r ! i) = Matched)
            \<and> (status (entries r ! i) = Approximate \<longrightarrow>
                  rnd 0.3 \<le> confidence (entries r ! i) \<and> confidence (entries r ! i) \<le> rnd 0.7)
            \<and> (status (entries r ! i) = Unmatched \<longrightarrow> confidence (entries r ! i) \<le> rnd 0.3)"
    using align_confidence_status [OF run refl seg] by blast
  have "0 < length (entries r)" by (simp add: r_def)
  then have c: "confidence (entries r ! 0) = round3 (score (as ! 0))"
    and u: "status (entries r ! 0) = Unmatched \<longleftrightarrow> score (as ! 0) < rnd 0.3"
    using each by blast+
  have "status (entries r ! 0) = Unmatched" by (simp add: r_def)
  then have lt: "score (as ! 0) < rnd 0.3" using u by simp
  have "confidence (entries r ! 0) = rnd 0.3" by (simp add: r_def rnd_03)
  then have eq: "round3 (score (as ! 0)) = rnd 0.3" using c by simp
  show ?thesis
    by (rule exI [of _ as]) (intro conjI dp lt eq)
qed

subsection \<open>Trimming when segments carry no word timestamps\<close>

lemma find_map_option: "find P (map f xs) = map_option f (find (\<lambda>x. P (f x)) xs)"
  by (induction xs) simp_all

lemma allWords_no_words:
  "\<forall>seg\<in>set segs. lacks_words seg \<Longrightarrow> concat (map seg_allWords segs) = map pseudo_word segs"
  by (induction segs) (auto simp: seg_allWords_def lacks_words_def split: option.splits)

lemma trimToWords_unfold:
  assumes "tokenize line \<noteq> []" and "concat (map seg_allWords segs) \<noteq> []"
  shows "trimToWords line segs =
     (let allWords = concat (map seg_allWords segs);
          s0 = (case find (word_matches (hd (tokenize line))) allWords of
                  None \<Rightarrow> w_start (hd allWords) | Some w \<Rightarrow> w_start w);
          e0 = (case find (word_matches (last (tokenize line))) (rev allWords) of
                  None \<Rightarrow> w_end (last allWords) | Some w \<Rightarrow> w_end w)
      in if s0 \<ge> e0 then Inr (seg_start (hd segs), seg_end (last segs)) else Inr (s0, e0))"
proof -
  have "segs \<noteq> []" using assms(2) by auto
  then have "(case segs of [] \<Rightarrow> Inl TypeError
              | seg # _ \<Rightarrow> Inr (seg_start seg, seg_end (last segs)))
      = Inr (seg_start (hd segs), seg_end (last segs))"
    by (cases segs) simp_all
  moreover define aw where "aw = concat (map seg_allWords segs)"
  moreover have "length aw \<noteq> 0" using assms(2) by (simp add: aw_def)
  moreover have "length (tokenize line) \<noteq> 0" using assms(1) by simp
  ultimately show ?thesis
    unfolding trimToWords_def Let_def aw_def [symmetric] by (simp only: if_False)
qed

lemma pseudo_word_matches: "word_matches tok (pseudo_word seg) = seg_matches tok seg"
  by (simp add: word_matches_def pseudo_word_def seg_matches_def)

lemma pseudo_word_matches_fun: "(\<lambda>seg. word_matches tok (pseudo_word seg)) = seg_matches tok"
  by (rule ext) (rule pseudo_word_matches)

lemma pseudo_hits:
  assumes "msegs \<noteq> []"
  shows "(case find (word_matches tok) (map pseudo_word msegs) of
            None \<Rightarrow> w_start (hd (map pseudo_word msegs)) | Some w \<Rightarrow> w_start w)
         = first_hit_start tok msegs"
    and "(case find (word_matches tok) (rev (map pseudo_word msegs)) of
            None \<Rightarrow> w_end (last (map pseudo_word msegs)) | Some w \<Rightarrow> w_end w)
         = last_hit_end tok msegs"
proof -
  have f: "find (word_matches tok) (map pseudo_word msegs)
      = map_option pseudo_word (find (seg_matches tok) msegs)"
    unfolding find_map_option pseudo_word_matches_fun ..
  have l: "find (word_matches tok) (rev (map pseudo_word msegs))
      = map_option pseudo_word (find (seg_matches tok) (rev msegs))"
    unfolding rev_map find_map_option pseudo_word_matches_fun ..
  show "(case find (word_matches tok) (map pseudo_word msegs) of
            None \<Rightarrow> w_start (hd (map pseudo_word msegs)) | Some w \<Rightarrow> w_start w)
         = first_hit_start tok msegs"
    unfolding f first_hit_start_def using assms
    by (cases "find (seg_matches tok) msegs") (simp_all add: hd_map pseudo_word_def)
  show "(case find (word_matches tok) (rev (map pseudo_word msegs)) of
            None \<Rightarrow> w_end (last (map pseudo_word msegs)) | Some w \<Rightarrow> w_end w)
         = last_hit_end tok msegs"
    unfolding l last_hit_end_def using assms
    by (cases "find (seg_matches tok) (rev msegs)") (simp_all add: last_map pseudo_word_def)
qed

lemma trimToWords_no_words:
  assumes ne: "msegs \<noteq> []" and lack: "\<forall>seg\<in>set msegs. lacks_words seg"
    and toks: "tokenize line \<noteq> []"
  shows "trimToWords line msegs =
     Inr (if first_hit_start (hd (tokenize line)) msegs < last_hit_end (last (tokenize line)) msegs
          then (first_hit_start (hd (tokenize line)) msegs,
                last_hit_end (last (tokenize line)) msegs)
          else (seg_start (hd msegs), seg_end (last msegs)))"
proof -
  have aw: "concat (map seg_allWords msegs) = map pseudo_word msegs"
    using lack by (rule allWords_no_words)
  have awne: "concat (map seg_allWords msegs) \<noteq> []" using ne by (simp add: aw)
  show ?thesis
    unfolding trimToWords_unfold [OF toks awne] aw Let_def pseudo_hits [OF ne]
    by (simp add: not_le)
qed

lemma single_hits:
  "first_hit_start tok [seg] = seg_start seg" "last_hit_end tok [seg] = seg_end seg"
  by (simp_all add: first_hit_start_def last_hit_end_def)

lemma slice_nth: "b \<le> length xs \<Longrightarrow> slice_list a b xs = map ((!) xs) [a..<b]"
  unfolding slice_list_def by (rule nth_equalityI) auto

lemma matched_has_tokens:
  assumes "rnd 0.15 \<le> score_table sts segs i t2 spn"
  shows "sts ! i \<noteq> []"
proof
  assume "sts ! i = []"
  then have "score_table sts segs i t2 spn = 0"
    by (simp add: score_table_def scoreMultiSegment_def combinedScore64_def Let_def)
  then show False using assms by (simp add: rnd_015)
qed

lemma align_matched_entry:
  assumes run: "alignScriptToTranscript text tr = Inr r"
    and tr: "tr = Some t" "tr_segments t = Some segs"
    and i: "i < length (entries r)"
    and ne: "matchedSegments (entries r ! i) \<noteq> []"
  shows "\<exists>t2 spn ts te.
      1 \<le> spn \<and> spn \<le> 3 \<and> t2 + spn \<le> length segs
      \<and> matchedSegments (entries r ! i) = [t2..<t2 + spn]
      \<and> scriptLine (entries r ! i) = splitScriptIntoLines text ! i
      \<and> tokenize (splitScriptIntoLines text ! i) \<noteq> []
      \<and> trimToWords (splitScriptIntoLines text ! i) (map ((!) segs) [t2..<t2 + spn]) = Inr (ts, te)
      \<and> trimmedStart (entries r ! i) = Some ts \<and> trimmedEnd (entries r ! i) = Some te"
proof -
  define lines where "lines = splitScriptIntoLines text"
  define sc where "sc = score_table (map tokenize lines) segs"
  obtain t' segs' cs where sh: "tr = Some t'" "tr_segments t' = Some segs'"
      "length cs = length lines" "length (entries r) = length lines"
      "chain (score_table (map tokenize lines) segs') (length segs') 0 0 cs"
      "\<forall>i<length lines. entry_for lines segs' (score_table (map tokenize lines) segs') i (cs ! i)
          (entries r ! i)"
    using align_result_shape [OF run] unfolding lines_def by blast
  have same: "segs' = segs" using sh(1,2) tr by simp
  have il: "i < length lines" using i sh(4) by simp
  have ok: "window_ok sc (length segs) i (cs ! i)"
    using chain_bounds [OF sh(5)] il sh(3) unfolding sc_def same by simp
  have ef: "entry_for lines segs sc i (cs ! i) (entries r ! i)"
    using sh(6) il unfolding sc_def same by blast
  have "window_list (cs ! i) \<noteq> []" using ne entry_for_fields(3) [OF ef] by simp
  then obtain t2 spn where c: "cs ! i = Match t2 spn"
    by (cases "cs ! i") (simp_all add: window_list_def)
  have w: "1 \<le> spn" "spn \<le> 3" "t2 + spn \<le> length segs" "rnd 0.15 \<le> sc i t2 spn"
    using ok by (simp_all add: c window_ok_def)
  obtain ts te where tw: "trimToWords (lines ! i) (slice_list t2 (t2 + spn) segs) = Inr (ts, te)"
    and e: "trimmedStart (entries r ! i) = Some ts" "trimmedEnd (entries r ! i) = Some te"
    using ef unfolding entry_for_def c by auto
  have toks: "tokenize (lines ! i) \<noteq> []"
    using matched_has_tokens [of "map tokenize lines" segs i t2 spn] w(4) il
    unfolding sc_def by simp
  have "matchedSegments (entries r ! i) = [t2..<t2 + spn]"
    using entry_for_fields(3) [OF ef] by (simp add: c window_list_def)
  moreover have "scriptLine (entries r ! i) = lines ! i"
    using entry_for_fields(2) [OF ef] .
  moreover have "trimToWords (lines ! i) (map ((!) segs) [t2..<t2 + spn]) = Inr (ts, te)"
    using tw slice_nth [OF w(3), of t2] by simp
  ultimately show ?thesis
    using w(1,2,3) toks e unfolding lines_def by blast
qed

text \<open>
  Three inputs in which no segment has word-level timestamps, each with the scores of its
  windows, the certificates of their roundings, the assignment and the result: the
  script \<^verbatim>\<open>a b c d\<close> against the segments \<^verbatim>\<open>b\<close> and \<^verbatim>\<open>a c d\<close>; the script \<^verbatim>\<open>a b\<close> against the
  segments \<^verbatim>\<open>b\<close> and \<^verbatim>\<open>a\<close>; the script \<^verbatim>\<open>x b c\<close> against the segments \<^verbatim>\<open>b\<close> and \<^verbatim>\<open>c\<close>. In each
  the line is matched to both segments.
\<close>

lemma seg2_pair_0_exact:
  "jaccard [''a'', ''b'', ''c'', ''d''] [''b''] = 1 / 4"
  "lcsRatio [''a'', ''b'', ''c'', ''d''] [''b''] = 1 / 4"
  "order_pairs [''a'', ''b'', ''c'', ''d''] [''b''] = [(1 / 3, 0)]"
  by code_simp+

lemma seg2_pair_0:
  "combinedScore64 [''a'', ''b'', ''c'', ''d''] [''b'']
     = 1351079888211149 / 4503599627370496"
proof -
  have j: "jaccard64 [''a'', ''b'', ''c'', ''d''] [''b''] = 1 / 4"
    by (simp add: jaccard64_rnd seg2_pair_0_exact rnd_0 rnd_val_8)
  have l: "lcsRatio64 [''a'', ''b'', ''c'', ''d''] [''b''] = 1 / 4"
    by (simp add: lcsRatio64_rnd seg2_pair_0_exact rnd_0 rnd_val_8)
  have ord: "wordOrderScore64 [''a'', ''b'', ''c'', ''d''] [''b''] = 1 / 2"
    by (simp add: wordOrderScore64_def order_pairs64_rnd seg2_pair_0_exact Let_def
        fadd_def fsub_def fdiv_def rnd_0 rnd_minus rnd_val_1)
  show ?thesis
    by (simp add: combinedScore64_def Let_def j l ord fadd_def fmul_def rnd_0
        rnd_val_9 rnd_val_3 rnd_val_10 rnd_val_11 rnd_020 rnd_val_12 rnd_035 rnd_045)
qed

lemma seg2_score_0_0_1:
  "score_table [[''a'', ''b'', ''c'', ''d'']]
     [\<lparr>seg_start = 0, seg_end = 1, seg_text = ''b'', seg_words = None\<rparr>,
      \<lparr>seg_start = 1, seg_end = 2, seg_text = ''a c d'', seg_words = None\<rparr>] 0 0 1
   = 1351079888211149 / 4503599627370496"
proof -
  have a: "[[''a'', ''b'', ''c'', ''d'']] ! 0 = [''a'', ''b'', ''c'', ''d'']" by simp
  have w: "tokenize (js_join '' '' (map seg_text (slice_list 0 (0 + 1)
     [\<lparr>seg_start = 0, seg_end = 1, seg_text = ''b'', seg_words = None\<rparr>,
      \<lparr>seg_start = 1, seg_end = 2, seg_text = ''a c d'', seg_words = None\<rparr>]))) = [''b'']"
    by code_simp
  show ?thesis
    unfolding score_table_def scoreMultiSegment_def Let_def a w by (rule seg2_pair_0)
qed

lemma seg2_pair_1_exact:
  "jaccard [''a'', ''b'', ''c'', ''d''] [''b'', ''a'', ''c'', ''d''] = 1"
  "lcsRatio [''a'', ''b'', ''c'', ''d''] [''b'', ''a'', ''c'', ''d''] = 3 / 4"
  "order_pairs [''a'', ''b'', ''c'', ''d''] [''b'', ''a'', ''c'', ''d''] = [(0, 1 / 3), (1 / 3, 0), (2 / 3, 2 / 3), (1, 1)]"
  by code_simp+

lemma rnd_val_61: "rnd (6004799503160661 / 36028797018963968) = 6004799503160661 / 36028797018963968"
  using rnd_cert [of 55 "6004799503160661 / 36028797018963968" 6004799503160661] by simp

lemma rnd_val_62: "rnd (6004799503160661 / 18014398509481984) = 6004799503160661 / 18014398509481984"
  using rnd_cert [of 54 "6004799503160661 / 18014398509481984" 6004799503160661] by simp

lemma rnd_val_63: "rnd (30023997515803307 / 36028797018963968) = 7505999378950827 / 9007199254740992"
  using rnd_cert [of 53 "30023997515803307 / 36028797018963968" 7505999378950827] by simp

lemma rnd_val_64: "rnd (27043212804868896600756111470319 / 162259276829213363391578010288128) = 3002399751580331 / 18014398509481984"
  using rnd_cert [of 55 "27043212804868896600756111470319 / 162259276829213363391578010288128" 6004799503160662] by simp

lemma rnd_val_65: "rnd (11 / 16) = 11 / 16"
  using rnd_cert [of 53 "11 / 16" 6192449487634432] by simp

lemma rnd_val_66: "rnd (15387298726849195 / 18014398509481984) = 3846824681712299 / 4503599627370496"
  using rnd_cert_tie [of 53 "15387298726849195 / 18014398509481984" 7693649363424598] by simp

lemma seg2_pair_1:
  "combinedScore64 [''a'', ''b'', ''c'', ''d''] [''b'', ''a'', ''c'', ''d'']
     = 3846824681712299 / 4503599627370496"
proof -
  have j: "jaccard64 [''a'', ''b'', ''c'', ''d''] [''b'', ''a'', ''c'', ''d''] = 1"
    by (simp add: jaccard64_rnd seg2_pair_1_exact rnd_0 rnd_1)
  have l: "lcsRatio64 [''a'', ''b'', ''c'', ''d''] [''b'', ''a'', ''c'', ''d''] = 3 / 4"
    by (simp add: lcsRatio64_rnd seg2_pair_1_exact rnd_0 rnd_val_21)
  have ord: "wordOrderScore64 [''a'', ''b'', ''c'', ''d''] [''b'', ''a'', ''c'', ''d''] = 7505999378950827 / 9007199254740992"
    by (simp add: wordOrderScore64_def order_pairs64_rnd seg2_pair_1_exact Let_def
        fadd_def fsub_def fdiv_def rnd_0 rnd_minus rnd_val_61 rnd_val_62 rnd_val_1 rnd_val_14 rnd_val_20 rnd_val_63 rnd_1)
  show ?thesis
    by (simp add: combinedScore64_def Let_def j l ord fadd_def fmul_def rnd_0
        rnd_val_64 rnd_020 rnd_val_23 rnd_weight_035 rnd_035 rnd_045 rnd_val_65 rnd_val_66)
qed

lemma seg2_score_0_0_2:
  "score_table [[''a'', ''b'', ''c'', ''d'']]
     [\<lparr>seg_start = 0, seg_end = 1, seg_text = ''b'', seg_words = None\<rparr>,
      \<lparr>seg_start = 1, seg_end = 2, seg_text = ''a c d'', seg_words = None\<rparr>] 0 0 2
   = 3846824681712299 / 4503599627370496"
proof -
  have a: "[[''a'', ''b'', ''c'', ''d'']] ! 0 = [''a'', ''b'', ''c'', ''d'']" by simp
  have w: "tokenize (js_join '' '' (map seg_text (slice_list 0 (0 + 2)
     [\<lparr>seg_start = 0, seg_end = 1, seg_text = ''b'', seg_words = None\<rparr>,
      \<lparr>seg_start = 1, seg_end = 2, seg_text = ''a c d'', seg_words = None\<rparr>]))) = [''b'', ''a'', ''c'', ''d'']"
    by code_simp
  show ?thesis
    unfolding score_table_def scoreMultiSegment_def Let_def a w by (rule seg2_pair_1)
qed

lemma seg2_pair_2_exact:
  "jaccard [''a'', ''b'', ''c'', ''d''] [''a'', ''c'', ''d''] = 3 / 4"
  "lcsRatio [''a'', ''b'', ''c'', ''d''] [''a'', ''c'', ''d''] = 3 / 4"
  "order_pairs [''a'', ''b'', ''c'', ''d''] [''a'', ''c'', ''d''] = [(0, 0), (2 / 3, 1 / 2), (1, 1)]"
  by code_simp+

lemma rnd_val_67: "rnd (1501199875790165 / 27021597764222976) = 8006399337547547 / 144115188075855872"
  using rnd_cert [of 57 "1501199875790165 / 27021597764222976" 8006399337547547] by simp

lemma rnd_val_68: "rnd (1501199875790165 / 9007199254740992) = 1501199875790165 / 9007199254740992"
  using rnd_cert [of 55 "1501199875790165 / 9007199254740992" 6004799503160660] by simp

lemma rnd_val_69: "rnd (136108788738308325 / 144115188075855872) = 4253399648072135 / 4503599627370496"
  using rnd_cert [of 53 "136108788738308325 / 144115188075855872" 8506799296144270] by simp

lemma rnd_val_70: "rnd (15324487256092373659564552597595 / 81129638414606681695789005144064) = 850679929614427 / 4503599627370496"
  using rnd_cert [of 55 "15324487256092373659564552597595 / 81129638414606681695789005144064" 6805439436915416] by simp

lemma rnd_val_71: "rnd (9457559217478041 / 36028797018963968) = 1182194902184755 / 4503599627370496"
  using rnd_cert_tie [of 54 "9457559217478041 / 36028797018963968" 4728779608739020] by simp

lemma rnd_val_72: "rnd (5404319552844595 / 9007199254740992) = 5404319552844595 / 9007199254740992"
  using rnd_cert [of 53 "5404319552844595 / 9007199254740992" 5404319552844595] by simp

lemma rnd_val_73: "rnd (7105679412073449 / 9007199254740992) = 7105679412073449 / 9007199254740992"
  using rnd_cert [of 53 "7105679412073449 / 9007199254740992" 7105679412073449] by simp

lemma seg2_pair_2:
  "combinedScore64 [''a'', ''b'', ''c'', ''d''] [''a'', ''c'', ''d'']
     = 7105679412073449 / 9007199254740992"
proof -
  have j: "jaccard64 [''a'', ''b'', ''c'', ''d''] [''a'', ''c'', ''d''] = 3 / 4"
    by (simp add: jaccard64_rnd seg2_pair_2_exact rnd_0 rnd_val_21)
  have l: "lcsRatio64 [''a'', ''b'', ''c'', ''d''] [''a'', ''c'', ''d''] = 3 / 4"
    by (simp add: lcsRatio64_rnd seg2_pair_2_exact rnd_0 rnd_val_21)
  have ord: "wordOrderScore64 [''a'', ''b'', ''c'', ''d''] [''a'', ''c'', ''d''] = 4253399648072135 / 4503599627370496"
    by (simp add: wordOrderScore64_def order_pairs64_rnd seg2_pair_2_exact Let_def
        fadd_def fsub_def fdiv_def rnd_0 rnd_minus rnd_val_67 rnd_val_68 rnd_val_2 rnd_val_20 rnd_val_69 rnd_1)
  show ?thesis
    by (simp add: combinedScore64_def Let_def j l ord fadd_def fmul_def rnd_0
        rnd_val_70 rnd_020 rnd_val_71 rnd_val_23 rnd_035 rnd_045 rnd_val_72 rnd_val_73)
qed

lemma seg2_score_0_1_1:
  "score_table [[''a'', ''b'', ''c'', ''d'']]
     [\<lparr>seg_start = 0, seg_end = 1, seg_text = ''b'', seg_words = None\<rparr>,
      \<lparr>seg_start = 1, seg_end = 2, seg_text = ''a c d'', seg_words = None\<rparr>] 0 1 1
   = 7105679412073449 / 9007199254740992"
proof -
  have a: "[[''a'', ''b'', ''c'', ''d'']] ! 0 = [''a'', ''b'', ''c'', ''d'']" by simp
  have w: "tokenize (js_join '' '' (map seg_text (slice_list 1 (1 + 1)
     [\<lparr>seg_start = 0, seg_end = 1, seg_text = ''b'', seg_words = None\<rparr>,
      \<lparr>seg_start = 1, seg_end = 2, seg_text = ''a c d'', seg_words = None\<rparr>]))) = [''a'', ''c'', ''d'']"
    by code_simp
  show ?thesis
    unfolding score_table_def scoreMultiSegment_def Let_def a w by (rule seg2_pair_2)
qed

lemma rnd_val_74: "rnd (3846824681712299 / 4503599627370496) = 3846824681712299 / 4503599627370496"
  using rnd_cert [of 53 "3846824681712299 / 4503599627370496" 7693649363424598] by simp

lemma seg2_row_0:
  "dp_row (score_table [[''a'', ''b'', ''c'', ''d'']]
     [\<lparr>seg_start = 0, seg_end = 1, seg_text = ''b'', seg_words = None\<rparr>,
      \<lparr>seg_start = 1, seg_end = 2, seg_text = ''a c d'', seg_words = None\<rparr>] 0)
     [0, 0, 0] 2
   = [(3846824681712299 / 4503599627370496, Match 0 2),
      (7105679412073449 / 9007199254740992, Match 1 1),
      (0, Skip)]"
  by (simp add: dp_row_def dp_cell_def windows_def spans_at_def MAX_SPAN_def upt_rec dp_try_def
      Let_def fadd_def rnd_0 numeral_2_eq_2 numeral_3_eq_3
      seg2_score_0_0_1 [unfolded numeral_2_eq_2 numeral_3_eq_3 One_nat_def]
      seg2_score_0_0_2 [unfolded numeral_2_eq_2 numeral_3_eq_3 One_nat_def]
      seg2_score_0_1_1 [unfolded numeral_2_eq_2 numeral_3_eq_3 One_nat_def]
      rnd_015 rnd_val_28 rnd_val_73 rnd_val_74)

lemma seg2_dpAlign:
  "dpAlign [[''a'', ''b'', ''c'', ''d'']]
     [\<lparr>seg_start = 0, seg_end = 1, seg_text = ''b'', seg_words = None\<rparr>,
      \<lparr>seg_start = 1, seg_end = 2, seg_text = ''a c d'', seg_words = None\<rparr>]
   = Inr [\<lparr>scriptIdx = 0, segStart = 0, segEnd = 2,
          score = 3846824681712299 / 4503599627370496\<rparr>]"
  by (simp add: dpAlign_def Let_def
      seg2_row_0 [unfolded numeral_2_eq_2 numeral_3_eq_3 One_nat_def]
      seg2_score_0_0_1 [unfolded numeral_2_eq_2 numeral_3_eq_3 One_nat_def]
      seg2_score_0_0_2 [unfolded numeral_2_eq_2 numeral_3_eq_3 One_nat_def]
      seg2_score_0_1_1 [unfolded numeral_2_eq_2 numeral_3_eq_3 One_nat_def])

lemma seg2_lines: "splitScriptIntoLines ''a b c d'' = [''a b c d'']"
  by code_simp

lemma seg2_tokens: "map tokenize [''a b c d''] = [[''a'', ''b'', ''c'', ''d'']]"
  by code_simp

lemma seg2_entry_0:
  "build_entry [''a b c d'']
     [\<lparr>seg_start = 0, seg_end = 1, seg_text = ''b'', seg_words = None\<rparr>,
      \<lparr>seg_start = 1, seg_end = 2, seg_text = ''a c d'', seg_words = None\<rparr>]
     \<lparr>scriptIdx = 0, segStart = 0, segEnd = 2,
          score = 3846824681712299 / 4503599627370496\<rparr>
   = Inr \<lparr>scriptIndex = 0, scriptLine = ''a b c d'',
          matchedSegments = [0, 1], matchedText = ''b a c d'',
          trimmedStart = Some 1, trimmedEnd = Some 2,
          confidence = 7692148163548807 / 9007199254740992, status = Matched\<rparr>"
  by code_simp

lemma seg2_run:
  "alignScriptToTranscript ''a b c d''
     (Some \<lparr>tr_segments = Some
       [\<lparr>seg_start = 0, seg_end = 1, seg_text = ''b'', seg_words = None\<rparr>,
      \<lparr>seg_start = 1, seg_end = 2, seg_text = ''a c d'', seg_words = None\<rparr>]\<rparr>)
   = Inr \<lparr>entries =
       [\<lparr>scriptIndex = 0, scriptLine = ''a b c d'',
          matchedSegments = [0, 1], matchedText = ''b a c d'',
          trimmedStart = Some 1, trimmedEnd = Some 2,
          confidence = 7692148163548807 / 9007199254740992, status = Matched\<rparr>],
     unusedSegments = unused_of
       [\<lparr>seg_start = 0, seg_end = 1, seg_text = ''b'', seg_words = None\<rparr>,
      \<lparr>seg_start = 1, seg_end = 2, seg_text = ''a c d'', seg_words = None\<rparr>]
       [\<lparr>scriptIndex = 0, scriptLine = ''a b c d'',
          matchedSegments = [0, 1], matchedText = ''b a c d'',
          trimmedStart = Some 1, trimmedEnd = Some 2,
          confidence = 7692148163548807 / 9007199254740992, status = Matched\<rparr>],
     stats = make_stats
       [\<lparr>scriptIndex = 0, scriptLine = ''a b c d'',
          matchedSegments = [0, 1], matchedText = ''b a c d'',
          trimmedStart = Some 1, trimmedEnd = Some 2,
          confidence = 7692148163548807 / 9007199254740992, status = Matched\<rparr>]\<rparr>"
proof -
  have dp: "dpAlign (map tokenize [''a b c d''])
     [\<lparr>seg_start = 0, seg_end = 1, seg_text = ''b'', seg_words = None\<rparr>,
      \<lparr>seg_start = 1, seg_end = 2, seg_text = ''a c d'', seg_words = None\<rparr>]
   = Inr [\<lparr>scriptIdx = 0, segStart = 0, segEnd = 2,
          score = 3846824681712299 / 4503599627370496\<rparr>]"
    unfolding seg2_tokens by (rule seg2_dpAlign)
  have col: "collect (map (build_entry [''a b c d'']
     [\<lparr>seg_start = 0, seg_end = 1, seg_text = ''b'', seg_words = None\<rparr>,
      \<lparr>seg_start = 1, seg_end = 2, seg_text = ''a c d'', seg_words = None\<rparr>])
     [\<lparr>scriptIdx = 0, segStart = 0, segEnd = 2,
          score = 3846824681712299 / 4503599627370496\<rparr>])
   = Inr [\<lparr>scriptIndex = 0, scriptLine = ''a b c d'',
          matchedSegments = [0, 1], matchedText = ''b a c d'',
          trimmedStart = Some 1, trimmedEnd = Some 2,
          confidence = 7692148163548807 / 9007199254740992, status = Matched\<rparr>]"
    unfolding list.map seg2_entry_0 collect.simps sum.case by (rule refl)
  show ?thesis
    by (rule align_entries_of_dp [OF seg2_lines _ _ _ dp col]) simp_all
qed

lemma safe_pair_0_exact:
  "jaccard [''a'', ''b''] [''b''] = 1 / 2"
  "lcsRatio [''a'', ''b''] [''b''] = 1 / 2"
  "order_pairs [''a'', ''b''] [''b''] = [(1, 0)]"
  by code_simp+

lemma safe_pair_0:
  "combinedScore64 [''a'', ''b''] [''b'']
     = 1 / 2"
proof -
  have j: "jaccard64 [''a'', ''b''] [''b''] = 1 / 2"
    by (simp add: jaccard64_rnd safe_pair_0_exact rnd_0 rnd_val_2)
  have l: "lcsRatio64 [''a'', ''b''] [''b''] = 1 / 2"
    by (simp add: lcsRatio64_rnd safe_pair_0_exact rnd_0 rnd_val_2)
  have ord: "wordOrderScore64 [''a'', ''b''] [''b''] = 1 / 2"
    by (simp add: wordOrderScore64_def order_pairs64_rnd safe_pair_0_exact Let_def
        fadd_def fsub_def fdiv_def rnd_0 rnd_minus rnd_1)
  show ?thesis
    by (simp add: combinedScore64_def Let_def j l ord fadd_def fmul_def rnd_0
        rnd_val_3 rnd_val_32 rnd_020 rnd_val_5 rnd_035 rnd_val_33 rnd_045 rnd_val_34)
qed

lemma safe_score_0_0_1:
  "score_table [[''a'', ''b'']]
     [\<lparr>seg_start = 0, seg_end = 1, seg_text = ''b'', seg_words = None\<rparr>,
      \<lparr>seg_start = 1, seg_end = 2, seg_text = ''a'', seg_words = None\<rparr>] 0 0 1
   = 1 / 2"
proof -
  have a: "[[''a'', ''b'']] ! 0 = [''a'', ''b'']" by simp
  have w: "tokenize (js_join '' '' (map seg_text (slice_list 0 (0 + 1)
     [\<lparr>seg_start = 0, seg_end = 1, seg_text = ''b'', seg_words = None\<rparr>,
      \<lparr>seg_start = 1, seg_end = 2, seg_text = ''a'', seg_words = None\<rparr>]))) = [''b'']"
    by code_simp
  show ?thesis
    unfolding score_table_def scoreMultiSegment_def Let_def a w by (rule safe_pair_0)
qed

lemma safe_pair_1_exact:
  "jaccard [''a'', ''b''] [''b'', ''a''] = 1"
  "lcsRatio [''a'', ''b''] [''b'', ''a''] = 1 / 2"
  "order_pairs [''a'', ''b''] [''b'', ''a''] = [(0, 1), (1, 0)]"
  by code_simp+

lemma rnd_val_75: "rnd (2) = 2"
  using rnd_cert [of 51 "2" 4503599627370496] by simp

lemma rnd_val_76: "rnd (2589569785738035 / 4503599627370496) = 2589569785738035 / 4503599627370496"
  using rnd_cert [of 53 "2589569785738035 / 4503599627370496" 5179139571476070] by simp

lemma safe_pair_1:
  "combinedScore64 [''a'', ''b''] [''b'', ''a'']
     = 2589569785738035 / 4503599627370496"
proof -
  have j: "jaccard64 [''a'', ''b''] [''b'', ''a''] = 1"
    by (simp add: jaccard64_rnd safe_pair_1_exact rnd_0 rnd_1)
  have l: "lcsRatio64 [''a'', ''b''] [''b'', ''a''] = 1 / 2"
    by (simp add: lcsRatio64_rnd safe_pair_1_exact rnd_0 rnd_val_2)
  have ord: "wordOrderScore64 [''a'', ''b''] [''b'', ''a''] = 0"
    by (simp add: wordOrderScore64_def order_pairs64_rnd safe_pair_1_exact Let_def
        fadd_def fsub_def fdiv_def rnd_0 rnd_minus rnd_1 rnd_val_75)
  show ?thesis
    by (simp add: combinedScore64_def Let_def j l ord fadd_def fmul_def rnd_0
        rnd_020 rnd_val_5 rnd_weight_035 rnd_035 rnd_045 rnd_val_76 rnd_val_18)
qed

lemma safe_score_0_0_2:
  "score_table [[''a'', ''b'']]
     [\<lparr>seg_start = 0, seg_end = 1, seg_text = ''b'', seg_words = None\<rparr>,
      \<lparr>seg_start = 1, seg_end = 2, seg_text = ''a'', seg_words = None\<rparr>] 0 0 2
   = 2589569785738035 / 4503599627370496"
proof -
  have a: "[[''a'', ''b'']] ! 0 = [''a'', ''b'']" by simp
  have w: "tokenize (js_join '' '' (map seg_text (slice_list 0 (0 + 2)
     [\<lparr>seg_start = 0, seg_end = 1, seg_text = ''b'', seg_words = None\<rparr>,
      \<lparr>seg_start = 1, seg_end = 2, seg_text = ''a'', seg_words = None\<rparr>]))) = [''b'', ''a'']"
    by code_simp
  show ?thesis
    unfolding score_table_def scoreMultiSegment_def Let_def a w by (rule safe_pair_1)
qed

lemma safe_pair_2_exact:
  "jaccard [''a'', ''b''] [''a''] = 1 / 2"
  "lcsRatio [''a'', ''b''] [''a''] = 1 / 2"
  "order_pairs [''a'', ''b''] [''a''] = [(0, 0)]"
  by code_simp+

lemma safe_pair_2:
  "combinedScore64 [''a'', ''b''] [''a'']
     = 1 / 2"
proof -
  have j: "jaccard64 [''a'', ''b''] [''a''] = 1 / 2"
    by (simp add: jaccard64_rnd safe_pair_2_exact rnd_0 rnd_val_2)
  have l: "lcsRatio64 [''a'', ''b''] [''a''] = 1 / 2"
    by (simp add: lcsRatio64_rnd safe_pair_2_exact rnd_0 rnd_val_2)
  have ord: "wordOrderScore64 [''a'', ''b''] [''a''] = 1 / 2"
    by (simp add: wordOrderScore64_def order_pairs64_rnd safe_pair_2_exact Let_def
        fadd_def fsub_def fdiv_def rnd_0 rnd_minus )
  show ?thesis
    by (simp add: combinedScore64_def Let_def j l ord fadd_def fmul_def rnd_0
        rnd_val_3 rnd_val_32 rnd_020 rnd_val_5 rnd_035 rnd_val_33 rnd_045 rnd_val_34)
qed

lemma safe_score_0_1_1:
  "score_table [[''a'', ''b'']]
     [\<lparr>seg_start = 0, seg_end = 1, seg_text = ''b'', seg_words = None\<rparr>,
      \<lparr>seg_start = 1, seg_end = 2, seg_text = ''a'', seg_words = None\<rparr>] 0 1 1
   = 1 / 2"
proof -
  have a: "[[''a'', ''b'']] ! 0 = [''a'', ''b'']" by simp
  have w: "tokenize (js_join '' '' (map seg_text (slice_list 1 (1 + 1)
     [\<lparr>seg_start = 0, seg_end = 1, seg_text = ''b'', seg_words = None\<rparr>,
      \<lparr>seg_start = 1, seg_end = 2, seg_text = ''a'', seg_words = None\<rparr>]))) = [''a'']"
    by code_simp
  show ?thesis
    unfolding score_table_def scoreMultiSegment_def Let_def a w by (rule safe_pair_2)
qed

lemma safe_row_0:
  "dp_row (score_table [[''a'', ''b'']]
     [\<lparr>seg_start = 0, seg_end = 1, seg_text = ''b'', seg_words = None\<rparr>,
      \<lparr>seg_start = 1, seg_end = 2, seg_text = ''a'', seg_words = None\<rparr>] 0)
     [0, 0, 0] 2
   = [(2589569785738035 / 4503599627370496, Match 0 2),
      (1 / 2, Match 1 1),
      (0, Skip)]"
  by (simp add: dp_row_def dp_cell_def windows_def spans_at_def MAX_SPAN_def upt_rec dp_try_def
      Let_def fadd_def rnd_0 numeral_2_eq_2 numeral_3_eq_3
      safe_score_0_0_1 [unfolded numeral_2_eq_2 numeral_3_eq_3 One_nat_def]
      safe_score_0_0_2 [unfolded numeral_2_eq_2 numeral_3_eq_3 One_nat_def]
      safe_score_0_1_1 [unfolded numeral_2_eq_2 numeral_3_eq_3 One_nat_def]
      rnd_015 rnd_val_2 rnd_val_76)

lemma safe_dpAlign:
  "dpAlign [[''a'', ''b'']]
     [\<lparr>seg_start = 0, seg_end = 1, seg_text = ''b'', seg_words = None\<rparr>,
      \<lparr>seg_start = 1, seg_end = 2, seg_text = ''a'', seg_words = None\<rparr>]
   = Inr [\<lparr>scriptIdx = 0, segStart = 0, segEnd = 2,
          score = 2589569785738035 / 4503599627370496\<rparr>]"
  by (simp add: dpAlign_def Let_def
      safe_row_0 [unfolded numeral_2_eq_2 numeral_3_eq_3 One_nat_def]
      safe_score_0_0_1 [unfolded numeral_2_eq_2 numeral_3_eq_3 One_nat_def]
      safe_score_0_0_2 [unfolded numeral_2_eq_2 numeral_3_eq_3 One_nat_def]
      safe_score_0_1_1 [unfolded numeral_2_eq_2 numeral_3_eq_3 One_nat_def])

lemma safe_lines: "splitScriptIntoLines ''a b'' = [''a b'']"
  by code_simp

lemma safe_tokens: "map tokenize [''a b''] = [[''a'', ''b'']]"
  by code_simp

lemma safe_entry_0:
  "build_entry [''a b'']
     [\<lparr>seg_start = 0, seg_end = 1, seg_text = ''b'', seg_words = None\<rparr>,
      \<lparr>seg_start = 1, seg_end = 2, seg_text = ''a'', seg_words = None\<rparr>]
     \<lparr>scriptIdx = 0, segStart = 0, segEnd = 2,
          score = 2589569785738035 / 4503599627370496\<rparr>
   = Inr \<lparr>scriptIndex = 0, scriptLine = ''a b'',
          matchedSegments = [0, 1], matchedText = ''b a'',
          trimmedStart = Some 0, trimmedEnd = Some 2,
          confidence = 2589569785738035 / 4503599627370496, status = Approximate\<rparr>"
  by code_simp

lemma safe_run:
  "alignScriptToTranscript ''a b''
     (Some \<lparr>tr_segments = Some
       [\<lparr>seg_start = 0, seg_end = 1, seg_text = ''b'', seg_words = None\<rparr>,
      \<lparr>seg_start = 1, seg_end = 2, seg_text = ''a'', seg_words = None\<rparr>]\<rparr>)
   = Inr \<lparr>entries =
       [\<lparr>scriptIndex = 0, scriptLine = ''a b'',
          matchedSegments = [0, 1], matchedText = ''b a'',
          trimmedStart = Some 0, trimmedEnd = Some 2,
          confidence = 2589569785738035 / 4503599627370496, status = Approximate\<rparr>],
     unusedSegments = unused_of
       [\<lparr>seg_start = 0, seg_end = 1, seg_text = ''b'', seg_words = None\<rparr>,
      \<lparr>seg_start = 1, seg_end = 2, seg_text = ''a'', seg_words = None\<rparr>]
       [\<lparr>scriptIndex = 0, scriptLine = ''a b'',
          matchedSegments = [0, 1], matchedText = ''b a'',
          trimmedStart = Some 0, trimmedEnd = Some 2,
          confidence = 2589569785738035 / 4503599627370496, status = Approximate\<rparr>],
     stats = make_stats
       [\<lparr>scriptIndex = 0, scriptLine = ''a b'',
          matchedSegments = [0, 1], matchedText = ''b a'',
          trimmedStart = Some 0, trimmedEnd = Some 2,
          confidence = 2589569785738035 / 4503599627370496, status = Approximate\<rparr>]\<rparr>"
proof -
  have dp: "dpAlign (map tokenize [''a b''])
     [\<lparr>seg_start = 0, seg_end = 1, seg_text = ''b'', seg_words = None\<rparr>,
      \<lparr>seg_start = 1, seg_end = 2, seg_text = ''a'', seg_words = None\<rparr>]
   = Inr [\<lparr>scriptIdx = 0, segStart = 0, segEnd = 2,
          score = 2589569785738035 / 4503599627370496\<rparr>]"
    unfolding safe_tokens by (rule safe_dpAlign)
  have col: "collect (map (build_entry [''a b'']
     [\<lparr>seg_start = 0, seg_end = 1, seg_text = ''b'', seg_words = None\<rparr>,
      \<lparr>seg_start = 1, seg_end = 2, seg_text = ''a'', seg_words = None\<rparr>])
     [\<lparr>scriptIdx = 0, segStart = 0, segEnd = 2,
          score = 2589569785738035 / 4503599627370496\<rparr>])
   = Inr [\<lparr>scriptIndex = 0, scriptLine = ''a b'',
          matchedSegments = [0, 1], matchedText = ''b a'',
          trimmedStart = Some 0, trimmedEnd = Some 2,
          confidence = 2589569785738035 / 4503599627370496, status = Approximate\<rparr>]"
    unfolding list.map safe_entry_0 collect.simps sum.case by (rule refl)
  show ?thesis
    by (rule align_entries_of_dp [OF safe_lines _ _ _ dp col]) simp_all
qed

lemma nofind_pair_0_exact:
  "jaccard [''x'', ''b'', ''c''] [''b''] = 1 / 3"
  "lcsRatio [''x'', ''b'', ''c''] [''b''] = 1 / 3"
  "order_pairs [''x'', ''b'', ''c''] [''b''] = [(1 / 2, 0)]"
  by code_simp+

lemma nofind_pair_0:
  "combinedScore64 [''x'', ''b'', ''c''] [''b'']
     = 825659931684591 / 2251799813685248"
proof -
  have j: "jaccard64 [''x'', ''b'', ''c''] [''b''] = 6004799503160661 / 18014398509481984"
    by (simp add: jaccard64_rnd nofind_pair_0_exact rnd_0 rnd_val_1)
  have l: "lcsRatio64 [''x'', ''b'', ''c''] [''b''] = 6004799503160661 / 18014398509481984"
    by (simp add: lcsRatio64_rnd nofind_pair_0_exact rnd_0 rnd_val_1)
  have ord: "wordOrderScore64 [''x'', ''b'', ''c''] [''b''] = 1 / 2"
    by (simp add: wordOrderScore64_def order_pairs64_rnd nofind_pair_0_exact Let_def
        fadd_def fsub_def fdiv_def rnd_0 rnd_minus rnd_val_2)
  show ?thesis
    by (simp add: combinedScore64_def Let_def j l ord fadd_def fmul_def rnd_0
        rnd_val_3 rnd_val_4 rnd_val_39 rnd_020 rnd_val_40 rnd_035 rnd_val_41 rnd_045)
qed

lemma nofind_score_0_0_1:
  "score_table [[''x'', ''b'', ''c'']]
     [\<lparr>seg_start = 0, seg_end = 1, seg_text = ''b'', seg_words = None\<rparr>,
      \<lparr>seg_start = 1, seg_end = 2, seg_text = ''c'', seg_words = None\<rparr>] 0 0 1
   = 825659931684591 / 2251799813685248"
proof -
  have a: "[[''x'', ''b'', ''c'']] ! 0 = [''x'', ''b'', ''c'']" by simp
  have w: "tokenize (js_join '' '' (map seg_text (slice_list 0 (0 + 1)
     [\<lparr>seg_start = 0, seg_end = 1, seg_text = ''b'', seg_words = None\<rparr>,
      \<lparr>seg_start = 1, seg_end = 2, seg_text = ''c'', seg_words = None\<rparr>]))) = [''b'']"
    by code_simp
  show ?thesis
    unfolding score_table_def scoreMultiSegment_def Let_def a w by (rule nofind_pair_0)
qed

lemma nofind_pair_1_exact:
  "jaccard [''x'', ''b'', ''c''] [''b'', ''c''] = 2 / 3"
  "lcsRatio [''x'', ''b'', ''c''] [''b'', ''c''] = 2 / 3"
  "order_pairs [''x'', ''b'', ''c''] [''b'', ''c''] = [(1 / 2, 0), (1, 1)]"
  by code_simp+

lemma nofind_pair_1:
  "combinedScore64 [''x'', ''b'', ''c''] [''b'', ''c'']
     = 3077459745369839 / 4503599627370496"
proof -
  have j: "jaccard64 [''x'', ''b'', ''c''] [''b'', ''c''] = 6004799503160661 / 9007199254740992"
    by (simp add: jaccard64_rnd nofind_pair_1_exact rnd_0 rnd_val_20)
  have l: "lcsRatio64 [''x'', ''b'', ''c''] [''b'', ''c''] = 6004799503160661 / 9007199254740992"
    by (simp add: lcsRatio64_rnd nofind_pair_1_exact rnd_0 rnd_val_20)
  have ord: "wordOrderScore64 [''x'', ''b'', ''c''] [''b'', ''c''] = 3 / 4"
    by (simp add: wordOrderScore64_def order_pairs64_rnd nofind_pair_1_exact Let_def
        fadd_def fsub_def fdiv_def rnd_0 rnd_minus rnd_val_8 rnd_val_2 rnd_val_21 rnd_1)
  show ?thesis
    by (simp add: combinedScore64_def Let_def j l ord fadd_def fmul_def rnd_0
        rnd_val_35 rnd_020 rnd_val_22 rnd_val_36 rnd_035 rnd_045 rnd_val_37 rnd_val_38)
qed

lemma nofind_score_0_0_2:
  "score_table [[''x'', ''b'', ''c'']]
     [\<lparr>seg_start = 0, seg_end = 1, seg_text = ''b'', seg_words = None\<rparr>,
      \<lparr>seg_start = 1, seg_end = 2, seg_text = ''c'', seg_words = None\<rparr>] 0 0 2
   = 3077459745369839 / 4503599627370496"
proof -
  have a: "[[''x'', ''b'', ''c'']] ! 0 = [''x'', ''b'', ''c'']" by simp
  have w: "tokenize (js_join '' '' (map seg_text (slice_list 0 (0 + 2)
     [\<lparr>seg_start = 0, seg_end = 1, seg_text = ''b'', seg_words = None\<rparr>,
      \<lparr>seg_start = 1, seg_end = 2, seg_text = ''c'', seg_words = None\<rparr>]))) = [''b'', ''c'']"
    by code_simp
  show ?thesis
    unfolding score_table_def scoreMultiSegment_def Let_def a w by (rule nofind_pair_1)
qed

lemma nofind_pair_2_exact:
  "jaccard [''x'', ''b'', ''c''] [''c''] = 1 / 3"
  "lcsRatio [''x'', ''b'', ''c''] [''c''] = 1 / 3"
  "order_pairs [''x'', ''b'', ''c''] [''c''] = [(1, 0)]"
  by code_simp+

lemma nofind_pair_2:
  "combinedScore64 [''x'', ''b'', ''c''] [''c'']
     = 825659931684591 / 2251799813685248"
proof -
  have j: "jaccard64 [''x'', ''b'', ''c''] [''c''] = 6004799503160661 / 18014398509481984"
    by (simp add: jaccard64_rnd nofind_pair_2_exact rnd_0 rnd_val_1)
  have l: "lcsRatio64 [''x'', ''b'', ''c''] [''c''] = 6004799503160661 / 18014398509481984"
    by (simp add: lcsRatio64_rnd nofind_pair_2_exact rnd_0 rnd_val_1)
  have ord: "wordOrderScore64 [''x'', ''b'', ''c''] [''c''] = 1 / 2"
    by (simp add: wordOrderScore64_def order_pairs64_rnd nofind_pair_2_exact Let_def
        fadd_def fsub_def fdiv_def rnd_0 rnd_minus rnd_1)
  show ?thesis
    by (simp add: combinedScore64_def Let_def j l ord fadd_def fmul_def rnd_0
        rnd_val_3 rnd_val_4 rnd_val_39 rnd_020 rnd_val_40 rnd_035 rnd_val_41 rnd_045)
qed

lemma nofind_score_0_1_1:
  "score_table [[''x'', ''b'', ''c'']]
     [\<lparr>seg_start = 0, seg_end = 1, seg_text = ''b'', seg_words = None\<rparr>,
      \<lparr>seg_start = 1, seg_end = 2, seg_text = ''c'', seg_words = None\<rparr>] 0 1 1
   = 825659931684591 / 2251799813685248"
proof -
  have a: "[[''x'', ''b'', ''c'']] ! 0 = [''x'', ''b'', ''c'']" by simp
  have w: "tokenize (js_join '' '' (map seg_text (slice_list 1 (1 + 1)
     [\<lparr>seg_start = 0, seg_end = 1, seg_text = ''b'', seg_words = None\<rparr>,
      \<lparr>seg_start = 1, seg_end = 2, seg_text = ''c'', seg_words = None\<rparr>]))) = [''c'']"
    by code_simp
  show ?thesis
    unfolding score_table_def scoreMultiSegment_def Let_def a w by (rule nofind_pair_2)
qed

lemma nofind_row_0:
  "dp_row (score_table [[''x'', ''b'', ''c'']]
     [\<lparr>seg_start = 0, seg_end = 1, seg_text = ''b'', seg_words = None\<rparr>,
      \<lparr>seg_start = 1, seg_end = 2, seg_text = ''c'', seg_words = None\<rparr>] 0)
     [0, 0, 0] 2
   = [(3077459745369839 / 4503599627370496, Match 0 2),
      (825659931684591 / 2251799813685248, Match 1 1),
      (0, Skip)]"
  by (simp add: dp_row_def dp_cell_def windows_def spans_at_def MAX_SPAN_def upt_rec dp_try_def
      Let_def fadd_def rnd_0 numeral_2_eq_2 numeral_3_eq_3
      nofind_score_0_0_1 [unfolded numeral_2_eq_2 numeral_3_eq_3 One_nat_def]
      nofind_score_0_0_2 [unfolded numeral_2_eq_2 numeral_3_eq_3 One_nat_def]
      nofind_score_0_1_1 [unfolded numeral_2_eq_2 numeral_3_eq_3 One_nat_def]
      rnd_015 rnd_val_43 rnd_val_38)

lemma nofind_dpAlign:
  "dpAlign [[''x'', ''b'', ''c'']]
     [\<lparr>seg_start = 0, seg_end = 1, seg_text = ''b'', seg_words = None\<rparr>,
      \<lparr>seg_start = 1, seg_end = 2, seg_text = ''c'', seg_words = None\<rparr>]
   = Inr [\<lparr>scriptIdx = 0, segStart = 0, segEnd = 2,
          score = 3077459745369839 / 4503599627370496\<rparr>]"
  by (simp add: dpAlign_def Let_def
      nofind_row_0 [unfolded numeral_2_eq_2 numeral_3_eq_3 One_nat_def]
      nofind_score_0_0_1 [unfolded numeral_2_eq_2 numeral_3_eq_3 One_nat_def]
      nofind_score_0_0_2 [unfolded numeral_2_eq_2 numeral_3_eq_3 One_nat_def]
      nofind_score_0_1_1 [unfolded numeral_2_eq_2 numeral_3_eq_3 One_nat_def])

lemma nofind_lines: "splitScriptIntoLines ''x b c'' = [''x b c'']"
  by code_simp

lemma nofind_tokens: "map tokenize [''x b c''] = [[''x'', ''b'', ''c'']]"
  by code_simp

lemma nofind_entry_0:
  "build_entry [''x b c'']
     [\<lparr>seg_start = 0, seg_end = 1, seg_text = ''b'', seg_words = None\<rparr>,
      \<lparr>seg_start = 1, seg_end = 2, seg_text = ''c'', seg_words = None\<rparr>]
     \<lparr>scriptIdx = 0, segStart = 0, segEnd = 2,
          score = 3077459745369839 / 4503599627370496\<rparr>
   = Inr \<lparr>scriptIndex = 0, scriptLine = ''x b c'',
          matchedSegments = [0, 1], matchedText = ''b c'',
          trimmedStart = Some 0, trimmedEnd = Some 2,
          confidence = 3075958545494049 / 4503599627370496, status = Approximate\<rparr>"
  by code_simp

lemma nofind_run:
  "alignScriptToTranscript ''x b c''
     (Some \<lparr>tr_segments = Some
       [\<lparr>seg_start = 0, seg_end = 1, seg_text = ''b'', seg_words = None\<rparr>,
      \<lparr>seg_start = 1, seg_end = 2, seg_text = ''c'', seg_words = None\<rparr>]\<rparr>)
   = Inr \<lparr>entries =
       [\<lparr>scriptIndex = 0, scriptLine = ''x b c'',
          matchedSegments = [0, 1], matchedText = ''b c'',
          trimmedStart = Some 0, trimmedEnd = Some 2,
          confidence = 3075958545494049 / 4503599627370496, status = Approximate\<rparr>],
     unusedSegments = unused_of
       [\<lparr>seg_start = 0, seg_end = 1, seg_text = ''b'', seg_words = None\<rparr>,
      \<lparr>seg_start = 1, seg_end = 2, seg_text = ''c'', seg_words = None\<rparr>]
       [\<lparr>scriptIndex = 0, scriptLine = ''x b c'',
          matchedSegments = [0, 1], matchedText = ''b c'',
          trimmedStart = Some 0, trimmedEnd = Some 2,
          confidence = 3075958545494049 / 4503599627370496, status = Approximate\<rparr>],
     stats = make_stats
       [\<lparr>scriptIndex = 0, scriptLine = ''x b c'',
          matchedSegments = [0, 1], matchedText = ''b c'',
          trimmedStart = Some 0, trimmedEnd = Some 2,
          confidence = 3075958545494049 / 4503599627370496, status = Approximate\<rparr>]\<rparr>"
proof -
  have dp: "dpAlign (map tokenize [''x b c''])
     [\<lparr>seg_start = 0, seg_end = 1, seg_text = ''b'', seg_words = None\<rparr>,
      \<lparr>seg_start = 1, seg_end = 2, seg_text = ''c'', seg_words = None\<rparr>]
   = Inr [\<lparr>scriptIdx = 0, segStart = 0, segEnd = 2,
          score = 3077459745369839 / 4503599627370496\<rparr>]"
    unfolding nofind_tokens by (rule nofind_dpAlign)
  have col: "collect (map (build_entry [''x b c'']
     [\<lparr>seg_start = 0, seg_end = 1, seg_text = ''b'', seg_words = None\<rparr>,
      \<lparr>seg_start = 1, seg_end = 2, seg_text = ''c'', seg_words = None\<rparr>])
     [\<lparr>scriptIdx = 0, segStart = 0, segEnd = 2,
          score = 3077459745369839 / 4503599627370496\<rparr>])
   = Inr [\<lparr>scriptIndex = 0, scriptLine = ''x b c'',
          matchedSegments = [0, 1], matchedText = ''b c'',
          trimmedStart = Some 0, trimmedEnd = Some 2,
          confidence = 3075958545494049 / 4503599627370496, status = Approximate\<rparr>]"
    unfolding list.map nofind_entry_0 collect.simps sum.case by (rule refl)
  show ?thesis
    by (rule align_entries_of_dp [OF nofind_lines _ _ _ dp col]) simp_all
qed

lemma seg2_hits:
  "tokenize ''a b c d'' = [''a'', ''b'', ''c'', ''d'']"
  "first_hit_start ''a''
     [\<lparr>seg_start = 0, seg_end = 1, seg_text = ''b'', seg_words = None\<rparr>,
      \<lparr>seg_start = 1, seg_end = 2, seg_text = ''a c d'', seg_words = None\<rparr>] = 1"
  "last_hit_end ''d''
     [\<lparr>seg_start = 0, seg_end = 1, seg_text = ''b'', seg_words = None\<rparr>,
      \<lparr>seg_start = 1, seg_end = 2, seg_text = ''a c d'', seg_words = None\<rparr>] = 2"
  by code_simp+

lemma safe_hits:
  "tokenize ''a b'' = [''a'', ''b'']"
  "first_hit_start ''a''
     [\<lparr>seg_start = 0, seg_end = 1, seg_text = ''b'', seg_words = None\<rparr>,
      \<lparr>seg_start = 1, seg_end = 2, seg_text = ''a'', seg_words = None\<rparr>] = 1"
  "last_hit_end ''b''
     [\<lparr>seg_start = 0, seg_end = 1, seg_text = ''b'', seg_words = None\<rparr>,
      \<lparr>seg_start = 1, seg_end = 2, seg_text = ''a'', seg_words = None\<rparr>] = 1"
  by code_simp+

lemma nofind_hits:
  "tokenize ''x b c'' = [''x'', ''b'', ''c'']"
  "first_hit_start ''x''
     [\<lparr>seg_start = 0, seg_end = 1, seg_text = ''b'', seg_words = None\<rparr>,
      \<lparr>seg_start = 1, seg_end = 2, seg_text = ''c'', seg_words = None\<rparr>] = 0"
  "last_hit_end ''c''
     [\<lparr>seg_start = 0, seg_end = 1, seg_text = ''b'', seg_words = None\<rparr>,
      \<lparr>seg_start = 1, seg_end = 2, seg_text = ''c'', seg_words = None\<rparr>] = 2"
  by code_simp+

lemma seg2_shape:
  "\<exists>r. alignScriptToTranscript ''a b c d'' (Some \<lparr>tr_segments = Some [
       \<lparr>seg_start = 0, seg_end = 1, seg_text = ''b'', seg_words = None\<rparr>,
       \<lparr>seg_start = 1, seg_end = 2, seg_text = ''a c d'', seg_words = None\<rparr>]\<rparr>) = Inr r
     \<and> length (entries r) = 1 \<and> scriptLine (entries r ! 0) = ''a b c d''
     \<and> matchedSegments (entries r ! 0) = [0, 1]"
  using seg2_run by simp

lemma safe_shape:
  "\<exists>r. alignScriptToTranscript ''a b'' (Some \<lparr>tr_segments = Some [
       \<lparr>seg_start = 0, seg_end = 1, seg_text = ''b'', seg_words = None\<rparr>,
       \<lparr>seg_start = 1, seg_end = 2, seg_text = ''a'', seg_words = None\<rparr>]\<rparr>) = Inr r
     \<and> length (entries r) = 1 \<and> scriptLine (entries r ! 0) = ''a b''
     \<and> matchedSegments (entries r ! 0) = [0, 1]"
  using safe_run by simp

lemma nofind_shape:
  "\<exists>r. alignScriptToTranscript ''x b c'' (Some \<lparr>tr_segments = Some [
       \<lparr>seg_start = 0, seg_end = 1, seg_text = ''b'', seg_words = None\<rparr>,
       \<lparr>seg_start = 1, seg_end = 2, seg_text = ''c'', seg_words = None\<rparr>]\<rparr>) = Inr r
     \<and> length (entries r) = 1 \<and> scriptLine (entries r ! 0) = ''x b c''
     \<and> matchedSegments (entries r ! 0) = [0, 1]"
  using nofind_run by simp

text \<open>
  Claim C8, as stated: when all segments of a matched range lack word-level timestamps,
  the trimmed times are the start of the first and the end of the last segment of the
  range. Each such segment becomes one pseudo-word carrying its whole text, and the search
  for the line's first and last token runs over these pseudo-words: with the line
  \<^verbatim>\<open>a b c d\<close> matched to the segments \<^verbatim>\<open>b\<close> and \<^verbatim>\<open>a c d\<close>, the first token is found in the
  second segment and the trimmed start is that segment's start.
\<close>

theorem trimmed_without_word_times_counterexample:
  "\<exists>r. alignScriptToTranscript ''a b c d'' (Some \<lparr>tr_segments = Some [
       \<lparr>seg_start = 0, seg_end = 1, seg_text = ''b'', seg_words = None\<rparr>,
       \<lparr>seg_start = 1, seg_end = 2, seg_text = ''a c d'', seg_words = None\<rparr>]\<rparr>) = Inr r
     \<and> matchedSegments (entries r ! 0) = [0, 1]
     \<and> (\<forall>k\<in>set (matchedSegments (entries r ! 0)). lacks_words
           ([\<lparr>seg_start = 0, seg_end = 1, seg_text = ''b'', seg_words = None\<rparr>,
             \<lparr>seg_start = 1, seg_end = 2, seg_text = ''a c d'', seg_words = None\<rparr>] ! k))
     \<and> trimmedStart (entries r ! 0) \<noteq> Some (seg_start
           ([\<lparr>seg_start = 0, seg_end = 1, seg_text = ''b'', seg_words = None\<rparr>,
             \<lparr>seg_start = 1, seg_end = 2, seg_text = ''a c d'', seg_words = None\<rparr>]
            ! hd (matchedSegments (entries r ! 0))))"
  using seg2_run by (simp add: lacks_words_def)

text \<open>
  Claim C8, amended: for every matched entry whose segments all lack word-level
  timestamps, the script line has a token, the trimming returns, and the trimmed times are
  determined as follows. Say that a segment matches a token when its normalized text
  contains the token or is contained in it. Let s0 be the start of the first segment of
  the range that matches the line's first token, or the start of the first segment when
  none matches; let e0 be the end of the last segment of the range that matches the
  line's last token, or the end of the last segment when none matches. If s0 is before e0,
  the trimmed start is s0 and the trimmed end is e0; otherwise they are the start of the
  first and the end of the last segment of the range. So the trimmed times are the start
  of the first and the end of the last segment, as the claim states, unless s0 is before
  e0 and s0 is not the start of the first segment or e0 is not the end of the last; in
  particular they are whenever the range is a single segment.
\<close>

theorem trimmed_without_word_times:
  assumes "alignScriptToTranscript text tr = Inr r"
    and "tr = Some t" and "tr_segments t = Some segs"
    and "i < length (entries r)"
    and "matchedSegments (entries r ! i) \<noteq> []"
    and "\<forall>k\<in>set (matchedSegments (entries r ! i)). lacks_words (segs ! k)"
  shows "let e = entries r ! i;
             msegs = map ((!) segs) (matchedSegments e);
             toks = tokenize (scriptLine e);
             s0 = first_hit_start (hd toks) msegs;
             e0 = last_hit_end (last toks) msegs
         in toks \<noteq> []
          \<and> trimToWords (scriptLine e) msegs =
              Inr (if s0 < e0 then (s0, e0) else (seg_start (hd msegs), seg_end (last msegs)))
          \<and> trimmedStart e = Some (if s0 < e0 then s0 else seg_start (hd msegs))
          \<and> trimmedEnd e = Some (if s0 < e0 then e0 else seg_end (last msegs))
          \<and> (length msegs = 1 \<longrightarrow>
                trimmedStart e = Some (seg_start (hd msegs))
                \<and> trimmedEnd e = Some (seg_end (last msegs)))"
proof -
  define m where "m = matchedSegments (entries r ! i)"
  define line where "line = splitScriptIntoLines text ! i"
  obtain t2 spn ts te where me: "1 \<le> spn" "m = [t2..<t2 + spn]"
      "scriptLine (entries r ! i) = line" "tokenize line \<noteq> []"
      "trimToWords line (map ((!) segs) m) = Inr (ts, te)"
      "trimmedStart (entries r ! i) = Some ts" "trimmedEnd (entries r ! i) = Some te"
    using align_matched_entry [OF assms(1-5)] unfolding m_def line_def by auto
  define msegs where "msegs = map ((!) segs) m"
  define s0 where "s0 = first_hit_start (hd (tokenize line)) msegs"
  define e0 where "e0 = last_hit_end (last (tokenize line)) msegs"
  have mne: "m \<noteq> []" using assms(5) by (simp add: m_def)
  have ne: "msegs \<noteq> []" using mne by (simp add: msegs_def)
  have lack: "\<forall>seg\<in>set msegs. lacks_words seg"
    using assms(6) by (simp add: msegs_def m_def)
  have tw: "trimToWords line msegs =
      Inr (if s0 < e0 then (s0, e0) else (seg_start (hd msegs), seg_end (last msegs)))"
    unfolding s0_def e0_def using ne lack me(4) by (rule trimToWords_no_words)
  then have pair: "(ts, te) = (if s0 < e0 then (s0, e0) else (seg_start (hd msegs), seg_end (last msegs)))"
    using me(5) by (simp add: msegs_def)
  have ts: "ts = (if s0 < e0 then s0 else seg_start (hd msegs))"
    and te: "te = (if s0 < e0 then e0 else seg_end (last msegs))"
    using pair by (simp_all split: if_splits)
  have single: "ts = seg_start (hd msegs) \<and> te = seg_end (last msegs)"
    if len1: "length msegs = 1"
  proof -
    obtain seg where "msegs = [seg]" using len1 by (cases msegs) auto
    then show ?thesis using ts te by (simp add: s0_def e0_def single_hits)
  qed
  show ?thesis
    unfolding Let_def m_def [symmetric] me(3) msegs_def [symmetric] s0_def [symmetric]
      e0_def [symmetric] me(6,7)
    using me(4) tw ts te single by simp
qed

theorem trimmed_without_word_times_witness:
  "(\<exists>r. alignScriptToTranscript ''a b c d'' (Some \<lparr>tr_segments = Some [
       \<lparr>seg_start = 0, seg_end = 1, seg_text = ''b'', seg_words = None\<rparr>,
       \<lparr>seg_start = 1, seg_end = 2, seg_text = ''a c d'', seg_words = None\<rparr>]\<rparr>) = Inr r
      \<and> trimmedStart (entries r ! 0) = Some 1 \<and> trimmedEnd (entries r ! 0) = Some 2)
   \<and> (\<exists>r. alignScriptToTranscript ''a b'' (Some \<lparr>tr_segments = Some [
       \<lparr>seg_start = 0, seg_end = 1, seg_text = ''b'', seg_words = None\<rparr>,
       \<lparr>seg_start = 1, seg_end = 2, seg_text = ''a'', seg_words = None\<rparr>]\<rparr>) = Inr r
      \<and> trimmedStart (entries r ! 0) = Some 0 \<and> trimmedEnd (entries r ! 0) = Some 2)
   \<and> (\<exists>r. alignScriptToTranscript ''x b c'' (Some \<lparr>tr_segments = Some [
       \<lparr>seg_start = 0, seg_end = 1, seg_text = ''b'', seg_words = None\<rparr>,
       \<lparr>seg_start = 1, seg_end = 2, seg_text = ''c'', seg_words = None\<rparr>]\<rparr>) = Inr r
      \<and> trimmedStart (entries r ! 0) = Some 0 \<and> trimmedEnd (entries r ! 0) = Some 2)"
proof (intro conjI)
  let ?segs = "[\<lparr>seg_start = 0, seg_end = 1, seg_text = ''b'', seg_words = None\<rparr>,
       \<lparr>seg_start = 1, seg_end = 2, seg_text = ''a c d'', seg_words = None\<rparr>]"
  obtain r where run: "alignScriptToTranscript ''a b c d'' (Some \<lparr>tr_segments = Some ?segs\<rparr>) = Inr r"
    and sh: "length (entries r) = 1" "scriptLine (entries r ! 0) = ''a b c d''"
      "matchedSegments (entries r ! 0) = [0, 1]"
    using seg2_shape by blast
  have seg: "tr_segments \<lparr>tr_segments = Some ?segs\<rparr> = Some ?segs" by simp
  have i: "0 < length (entries r)" using sh(1) by simp
  have ne: "matchedSegments (entries r ! 0) \<noteq> []" using sh(3) by simp
  have lack: "\<forall>k\<in>set (matchedSegments (entries r ! 0)). lacks_words (?segs ! k)"
    using sh(3) by (simp add: lacks_words_def)
  have "trimmedStart (entries r ! 0) = Some 1 \<and> trimmedEnd (entries r ! 0) = Some 2"
    using trimmed_without_word_times [OF run refl seg i ne lack]
    by (simp add: Let_def sh seg2_hits)
  then show "\<exists>r. alignScriptToTranscript ''a b c d'' (Some \<lparr>tr_segments = Some ?segs\<rparr>) = Inr r
      \<and> trimmedStart (entries r ! 0) = Some 1 \<and> trimmedEnd (entries r ! 0) = Some 2"
    using run by blast
next
  let ?segs = "[\<lparr>seg_start = 0, seg_end = 1, seg_text = ''b'', seg_words = None\<rparr>,
       \<lparr>seg_start = 1, seg_end = 2, seg_text = ''a'', seg_words = None\<rparr>]"
  obtain r where run: "alignScriptToTranscript ''a b'' (Some \<lparr>tr_segments = Some ?segs\<rparr>) = Inr r"
    and sh: "length (entries r) = 1" "scriptLine (entries r ! 0) = ''a b''"
      "matchedSegments (entries r ! 0) = [0, 1]"
    using safe_shape by blast
  have seg: "tr_segments \<lparr>tr_segments = Some ?segs\<rparr> = Some ?segs" by simp
  have i: "0 < length (entries r)" using sh(1) by simp
  have ne: "matchedSegments (entries r ! 0) \<noteq> []" using sh(3) by simp
  have lack: "\<forall>k\<in>set (matchedSegments (entries r ! 0)). lacks_words (?segs ! k)"
    using sh(3) by (simp add: lacks_words_def)
  have "trimmedStart (entries r ! 0) = Some 0 \<and> trimmedEnd (entries r ! 0) = Some 2"
    using trimmed_without_word_times [OF run refl seg i ne lack]
    by (simp add: Let_def sh safe_hits)
  then show "\<exists>r. alignScriptToTranscript ''a b'' (Some \<lparr>tr_segments = Some ?segs\<rparr>) = Inr r
      \<and> trimmedStart (entries r ! 0) = Some 0 \<and> trimmedEnd (entries r ! 0) = Some 2"
    using run by blast
next
  let ?segs = "[\<lparr>seg_start = 0, seg_end = 1, seg_text = ''b'', seg_words = None\<rparr>,
       \<lparr>seg_start = 1, seg_end = 2, seg_text = ''c'', seg_words = None\<rparr>]"
  obtain r where run: "alignScriptToTranscript ''x b c'' (Some \<lparr>tr_segments = Some ?segs\<rparr>) = Inr r"
    and sh: "length (entries r) = 1" "scriptLine (entries r ! 0) = ''x b c''"
      "matchedSegments (entries r ! 0) = [0, 1]"
    using nofind_shape by blast
  have seg: "tr_segments \<lparr>tr_segments = Some ?segs\<rparr> = Some ?segs" by simp
  have i: "0 < length (entries r)" using sh(1) by simp
  have ne: "matchedSegments (entries r ! 0) \<noteq> []" using sh(3) by simp
  have lack: "\<forall>k\<in>set (matchedSegments (entries r ! 0)). lacks_words (?segs ! k)"
    using sh(3) by (simp add: lacks_words_def)
  have "trimmedStart (entries r ! 0) = Some 0 \<and> trimmedEnd (entries r ! 0) = Some 2"
    using trimmed_without_word_times [OF run refl seg i ne lack]
    by (simp add: Let_def sh nofind_hits)
  then show "\<exists>r. alignScriptToTranscript ''x b c'' (Some \<lparr>tr_segments = Some ?segs\<rparr>) = Inr r
      \<and> trimmedStart (entries r ! 0) = Some 0 \<and> trimmedEnd (entries r ! 0) = Some 2"
    using run by blast
qed

subsection \<open>Words whose normalized text is empty\<close>

lemma js_includes_empty: "js_includes s []"
  by (cases s) simp_all

lemma empty_word_matches: "w_text w = [] \<Longrightarrow> word_matches tok w"
  by (simp add: word_matches_def js_includes_empty)

text \<open>
  The script \<^verbatim>\<open>hi\<close> against one segment \<^verbatim>\<open>hi\<close> from 0 to 5 whose only word is the
  punctuation mark \<^verbatim>\<open>!\<close> from 2 to 2: the score with the certificates of its roundings, the
  assignment and the result.
\<close>

lemma punct_pair_0_exact:
  "jaccard [''hi''] [''hi''] = 1"
  "lcsRatio [''hi''] [''hi''] = 1"
  "order_pairs [''hi''] [''hi''] = [(0, 0)]"
  by code_simp+

lemma punct_pair_0:
  "combinedScore64 [''hi''] [''hi'']
     = 8106479329266893 / 9007199254740992"
proof -
  have j: "jaccard64 [''hi''] [''hi''] = 1"
    by (simp add: jaccard64_rnd punct_pair_0_exact rnd_0 rnd_1)
  have l: "lcsRatio64 [''hi''] [''hi''] = 1"
    by (simp add: lcsRatio64_rnd punct_pair_0_exact rnd_0 rnd_1)
  have ord: "wordOrderScore64 [''hi''] [''hi''] = 1 / 2"
    by (simp add: wordOrderScore64_def order_pairs64_rnd punct_pair_0_exact Let_def
        fadd_def fsub_def fdiv_def rnd_0 rnd_minus )
  show ?thesis
    by (simp add: combinedScore64_def Let_def j l ord fadd_def fmul_def rnd_0
        rnd_val_3 rnd_020 rnd_weight_035 rnd_035 rnd_045 rnd_weight_045 rnd_weights_sum2 rnd_val_42)
qed

lemma punct_score_0_0_1:
  "score_table [[''hi'']]
     [\<lparr>seg_start = 0, seg_end = 5, seg_text = ''hi'', seg_words = Some [\<lparr>w_text = ''!'', w_start = 2, w_end = 2\<rparr>]\<rparr>] 0 0 1
   = 8106479329266893 / 9007199254740992"
proof -
  have a: "[[''hi'']] ! 0 = [''hi'']" by simp
  have w: "tokenize (js_join '' '' (map seg_text (slice_list 0 (0 + 1)
     [\<lparr>seg_start = 0, seg_end = 5, seg_text = ''hi'', seg_words = Some [\<lparr>w_text = ''!'', w_start = 2, w_end = 2\<rparr>]\<rparr>]))) = [''hi'']"
    by code_simp
  show ?thesis
    unfolding score_table_def scoreMultiSegment_def Let_def a w by (rule punct_pair_0)
qed

lemma punct_row_0:
  "dp_row (score_table [[''hi'']]
     [\<lparr>seg_start = 0, seg_end = 5, seg_text = ''hi'', seg_words = Some [\<lparr>w_text = ''!'', w_start = 2, w_end = 2\<rparr>]\<rparr>] 0)
     [0, 0] 1
   = [(8106479329266893 / 9007199254740992, Match 0 1),
      (0, Skip)]"
  by (simp add: dp_row_def dp_cell_def windows_def spans_at_def MAX_SPAN_def upt_rec dp_try_def
      Let_def fadd_def rnd_0 numeral_2_eq_2 numeral_3_eq_3
      punct_score_0_0_1 [unfolded numeral_2_eq_2 numeral_3_eq_3 One_nat_def]
      rnd_015 rnd_val_44)

lemma punct_dpAlign:
  "dpAlign [[''hi'']]
     [\<lparr>seg_start = 0, seg_end = 5, seg_text = ''hi'', seg_words = Some [\<lparr>w_text = ''!'', w_start = 2, w_end = 2\<rparr>]\<rparr>]
   = Inr [\<lparr>scriptIdx = 0, segStart = 0, segEnd = 1,
          score = 8106479329266893 / 9007199254740992\<rparr>]"
  by (simp add: dpAlign_def Let_def
      punct_row_0 [unfolded numeral_2_eq_2 numeral_3_eq_3 One_nat_def]
      punct_score_0_0_1 [unfolded numeral_2_eq_2 numeral_3_eq_3 One_nat_def])

lemma punct_lines: "splitScriptIntoLines ''hi'' = [''hi'']"
  by code_simp

lemma punct_tokens: "map tokenize [''hi''] = [[''hi'']]"
  by code_simp

lemma punct_entry_0:
  "build_entry [''hi'']
     [\<lparr>seg_start = 0, seg_end = 5, seg_text = ''hi'', seg_words = Some [\<lparr>w_text = ''!'', w_start = 2, w_end = 2\<rparr>]\<rparr>]
     \<lparr>scriptIdx = 0, segStart = 0, segEnd = 1,
          score = 8106479329266893 / 9007199254740992\<rparr>
   = Inr \<lparr>scriptIndex = 0, scriptLine = ''hi'',
          matchedSegments = [0], matchedText = ''hi'',
          trimmedStart = Some 0, trimmedEnd = Some 5,
          confidence = 8106479329266893 / 9007199254740992, status = Matched\<rparr>"
  by code_simp

lemma punct_run:
  "alignScriptToTranscript ''hi''
     (Some \<lparr>tr_segments = Some
       [\<lparr>seg_start = 0, seg_end = 5, seg_text = ''hi'', seg_words = Some [\<lparr>w_text = ''!'', w_start = 2, w_end = 2\<rparr>]\<rparr>]\<rparr>)
   = Inr \<lparr>entries =
       [\<lparr>scriptIndex = 0, scriptLine = ''hi'',
          matchedSegments = [0], matchedText = ''hi'',
          trimmedStart = Some 0, trimmedEnd = Some 5,
          confidence = 8106479329266893 / 9007199254740992, status = Matched\<rparr>],
     unusedSegments = unused_of
       [\<lparr>seg_start = 0, seg_end = 5, seg_text = ''hi'', seg_words = Some [\<lparr>w_text = ''!'', w_start = 2, w_end = 2\<rparr>]\<rparr>]
       [\<lparr>scriptIndex = 0, scriptLine = ''hi'',
          matchedSegments = [0], matchedText = ''hi'',
          trimmedStart = Some 0, trimmedEnd = Some 5,
          confidence = 8106479329266893 / 9007199254740992, status = Matched\<rparr>],
     stats = make_stats
       [\<lparr>scriptIndex = 0, scriptLine = ''hi'',
          matchedSegments = [0], matchedText = ''hi'',
          trimmedStart = Some 0, trimmedEnd = Some 5,
          confidence = 8106479329266893 / 9007199254740992, status = Matched\<rparr>]\<rparr>"
proof -
  have dp: "dpAlign (map tokenize [''hi''])
     [\<lparr>seg_start = 0, seg_end = 5, seg_text = ''hi'', seg_words = Some [\<lparr>w_text = ''!'', w_start = 2, w_end = 2\<rparr>]\<rparr>]
   = Inr [\<lparr>scriptIdx = 0, segStart = 0, segEnd = 1,
          score = 8106479329266893 / 9007199254740992\<rparr>]"
    unfolding punct_tokens by (rule punct_dpAlign)
  have col: "collect (map (build_entry [''hi'']
     [\<lparr>seg_start = 0, seg_end = 5, seg_text = ''hi'', seg_words = Some [\<lparr>w_text = ''!'', w_start = 2, w_end = 2\<rparr>]\<rparr>])
     [\<lparr>scriptIdx = 0, segStart = 0, segEnd = 1,
          score = 8106479329266893 / 9007199254740992\<rparr>])
   = Inr [\<lparr>scriptIndex = 0, scriptLine = ''hi'',
          matchedSegments = [0], matchedText = ''hi'',
          trimmedStart = Some 0, trimmedEnd = Some 5,
          confidence = 8106479329266893 / 9007199254740992, status = Matched\<rparr>]"
    unfolding list.map punct_entry_0 collect.simps sum.case by (rule refl)
  show ?thesis
    by (rule align_entries_of_dp [OF punct_lines _ _ _ dp col]) simp_all
qed

lemma flat_punctuation_word:
  "concat (map seg_allWords [\<lparr>seg_start = 0, seg_end = 5, seg_text = ''hi'',
      seg_words = Some [\<lparr>w_text = ''!'', w_start = 2, w_end = 2\<rparr>]\<rparr>])
   = [\<lparr>w_text = [], w_start = 2, w_end = 2\<rparr>]"
  by code_simp

lemma flat_dash_word:
  "tokenize ''hi'' = [''hi'']
   \<and> concat (map seg_allWords [\<lparr>seg_start = 0, seg_end = 5, seg_text = ''hi'',
      seg_words = Some [\<lparr>w_text = ''-'', w_start = 1, w_end = 2\<rparr>,
                        \<lparr>w_text = ''hi'', w_start = 2, w_end = 3\<rparr>]\<rparr>])
   = [\<lparr>w_text = [], w_start = 1, w_end = 2\<rparr>, \<lparr>w_text = ''hi'', w_start = 2, w_end = 3\<rparr>]
   \<and> word_matches ''hi'' \<lparr>w_text = ''hi'', w_start = 2, w_end = 3\<rparr>"
  by code_simp

text \<open>
  Claim C10, as stated: when the flat word list of a matched line begins with a word whose
  normalized text is empty, the trimmed start is that word's start time. The safety check
  that follows the two searches can replace it: a segment from 0 to 5 whose only word is
  the punctuation mark \<^verbatim>\<open>!\<close> from 2 to 2 gives trimmed start 2 and trimmed end 2, and the
  check returns the segment's own start 0.
\<close>

theorem empty_word_trims_counterexample:
  "\<exists>r. alignScriptToTranscript ''hi'' (Some \<lparr>tr_segments = Some [
       \<lparr>seg_start = 0, seg_end = 5, seg_text = ''hi'',
        seg_words = Some [\<lparr>w_text = ''!'', w_start = 2, w_end = 2\<rparr>]\<rparr>]\<rparr>) = Inr r
     \<and> matchedSegments (entries r ! 0) = [0]
     \<and> w_text (hd (concat (map seg_allWords [\<lparr>seg_start = 0, seg_end = 5, seg_text = ''hi'',
          seg_words = Some [\<lparr>w_text = ''!'', w_start = 2, w_end = 2\<rparr>]\<rparr>]))) = []
     \<and> trimmedStart (entries r ! 0) \<noteq> Some (w_start (hd (concat (map seg_allWords
          [\<lparr>seg_start = 0, seg_end = 5, seg_text = ''hi'',
            seg_words = Some [\<lparr>w_text = ''!'', w_start = 2, w_end = 2\<rparr>]\<rparr>]))))"
  unfolding flat_punctuation_word using punct_run by simp

text \<open>
  Claim C10, amended: in \<^verbatim>\<open>trimToWords\<close> a flattened word whose normalized text is empty
  satisfies the bidirectional substring test against every script token. Consequently,
  for every line with at least one token whose flat word list begins with such a word,
  the trimmed start is that word's start time whatever the line's first token is, unless
  the safety check (start not before end) replaces both times by the segment-level start
  and end of the matched range; and symmetrically for the trimmed end when the flat list
  ends with such a word.
\<close>

theorem empty_word_trims:
  "(w_text w = [] \<longrightarrow> word_matches tok w)
   \<and> (tokenize line \<noteq> [] \<and> concat (map seg_allWords segs) = w # ws \<and> w_text w = [] \<longrightarrow>
        trimToWords line segs =
          (let e0 = (case find (word_matches (last (tokenize line))) (rev (w # ws)) of
                       None \<Rightarrow> w_end (last (w # ws)) | Some x \<Rightarrow> w_end x)
           in if w_start w < e0 then Inr (w_start w, e0)
              else Inr (seg_start (hd segs), seg_end (last segs))))
   \<and> (tokenize line \<noteq> [] \<and> concat (map seg_allWords segs) = ws @ [w] \<and> w_text w = [] \<longrightarrow>
        trimToWords line segs =
          (let s0 = (case find (word_matches (hd (tokenize line))) (ws @ [w]) of
                       None \<Rightarrow> w_start (hd (ws @ [w])) | Some x \<Rightarrow> w_start x)
           in if s0 < w_end w then Inr (s0, w_end w)
              else Inr (seg_start (hd segs), seg_end (last segs))))"
proof (intro conjI impI)
  assume "w_text w = []"
  then show "word_matches tok w" by (rule empty_word_matches)
next
  assume a: "tokenize line \<noteq> [] \<and> concat (map seg_allWords segs) = w # ws \<and> w_text w = []"
  then have ne: "concat (map seg_allWords segs) \<noteq> []" by simp
  have "find (word_matches (hd (tokenize line))) (w # ws) = Some w"
    using a by (simp add: empty_word_matches)
  then show "trimToWords line segs =
          (let e0 = (case find (word_matches (last (tokenize line))) (rev (w # ws)) of
                       None \<Rightarrow> w_end (last (w # ws)) | Some x \<Rightarrow> w_end x)
           in if w_start w < e0 then Inr (w_start w, e0)
              else Inr (seg_start (hd segs), seg_end (last segs)))"
    using a trimToWords_unfold [of line segs] ne by (simp add: Let_def not_le)
next
  assume a: "tokenize line \<noteq> [] \<and> concat (map seg_allWords segs) = ws @ [w] \<and> w_text w = []"
  then have ne: "concat (map seg_allWords segs) \<noteq> []" by simp
  have "find (word_matches (last (tokenize line))) (rev (ws @ [w])) = Some w"
    using a by (simp add: empty_word_matches)
  then show "trimToWords line segs =
          (let s0 = (case find (word_matches (hd (tokenize line))) (ws @ [w]) of
                       None \<Rightarrow> w_start (hd (ws @ [w])) | Some x \<Rightarrow> w_start x)
           in if s0 < w_end w then Inr (s0, w_end w)
              else Inr (seg_start (hd segs), seg_end (last segs)))"
    using a trimToWords_unfold [of line segs] ne by (simp add: Let_def not_le)
qed

theorem empty_word_trims_witness:
  "trimToWords ''hi'' [\<lparr>seg_start = 0, seg_end = 5, seg_text = ''hi'',
      seg_words = Some [\<lparr>w_text = ''-'', w_start = 1, w_end = 2\<rparr>,
                        \<lparr>w_text = ''hi'', w_start = 2, w_end = 3\<rparr>]\<rparr>] = Inr (1, 3)"
proof -
  let ?segs = "[\<lparr>seg_start = 0, seg_end = 5, seg_text = ''hi'',
      seg_words = Some [\<lparr>w_text = ''-'', w_start = 1, w_end = 2\<rparr>,
                        \<lparr>w_text = ''hi'', w_start = 2, w_end = 3\<rparr>]\<rparr>]"
  let ?w = "\<lparr>w_text = [], w_start = 1, w_end = 2\<rparr>"
  let ?ws = "[\<lparr>w_text = ''hi'', w_start = 2, w_end = 3\<rparr>]"
  have pre: "tokenize ''hi'' \<noteq> [] \<and> concat (map seg_allWords ?segs) = ?w # ?ws \<and> w_text ?w = []"
    using flat_dash_word by simp
  have "trimToWords ''hi'' ?segs =
          (let e0 = (case find (word_matches (last (tokenize ''hi''))) (rev (?w # ?ws)) of
                       None \<Rightarrow> w_end (last (?w # ?ws)) | Some x \<Rightarrow> w_end x)
           in if w_start ?w < e0 then Inr (w_start ?w, e0)
              else Inr (seg_start (hd ?segs), seg_end (last ?segs)))"
    using empty_word_trims [of ?w "''hi''" "''hi''" ?segs ?ws] pre by blast
  then show ?thesis using flat_dash_word by simp
qed

end
